theory Spec2Isabelle
  imports Complex_Main "HOL-Library.Sublist"
begin

section \<open>Data model of \<open>GNN/graph_class_old.py\<close>\<close>

text \<open>
  The embedding follows the Python source function by function. Conventions:
  \<^item> NumPy floats (labels, targets, weights, matrix values) are idealised as \<^typ>\<open>real\<close>:
    their rounding to \<open>float32\<close> is not modelled.
  \<^item> A row of the \<open>arcs\<close> array, \<open>[ID Node From | ID Node To | Arc Label]\<close>, is the record
    \<open>arc\<close>; node identifiers are natural numbers (the source stores them as integer-valued
    floats and converts with \<open>astype(int)\<close>). Where the source computes with them, in
    \<open>merge\<close>, the result is rounded as the \<open>float32\<close> cell rounds it (\<open>float32\<close> below).
  \<^item> A two-dimensional array (\<open>nodes\<close>, \<open>targets\<close>) is the list of its rows; an array with no
    rows carries no column count here, and \<open>DIM_NODE_LABEL\<close>, \<open>DIM_ARC_LABEL\<close>, \<open>DIM_TARGET\<close>
    (shape bookkeeping only) are not represented.
  \<^item> Masks and sample weights are \<open>ndarray\<close>s that are one- or two-dimensional, since
    \<open>numpy.loadtxt(..., ndmin=2)\<close> hands two-dimensional arrays to the constructor.
  \<^item> Every \<open>raise\<close> of the source or of the library call it makes is a value \<open>Inl e\<close>.
\<close>

datatype error =
    ValueError string
  | KeyError string
  | TypeError string
  | ZeroDivisionError
  | AttributeError
  | FileNotFoundError string

datatype 'a ndarray = Vec "'a list" | Mat "'a list list"

record arc =
  arc_from :: nat
  arc_to :: nat
  arc_label :: "real list"

text \<open>A \<open>scipy.sparse.coo_matrix\<close>: the three parallel arrays and the declared shape.\<close>

record coo =
  data :: "real list"
  row :: "nat list"
  col :: "nat list"
  shape :: "nat \<times> nat"

record GraphObject =
  nodes :: "real list list"
  arcs :: "arc list"
  targets :: "real list list"
  sample_weights :: "real ndarray"
  set_mask :: "bool ndarray"
  output_mask :: "bool ndarray"
  aggregation_mode :: string
  ArcNode :: coo
  Adjacency :: coo
  NodeGraph :: coo

subsection \<open>Sparse matrices\<close>

text \<open>
  The dense value of a COO matrix at \<open>(r, c)\<close>: entries stored twice at one position add up,
  as in \<open>coo_matrix.toarray()\<close>.
\<close>

definition todense :: "coo \<Rightarrow> nat \<Rightarrow> nat \<Rightarrow> real" where
  "todense m r c =
     sum_list (map (\<lambda>(v, r', c'). if r' = r \<and> c' = c then v else 0)
                   (zip (data m) (zip (row m) (col m))))"

text \<open>The columns of row \<open>r\<close> that hold a nonzero value, in increasing order.\<close>

definition nonzero_cols :: "coo \<Rightarrow> nat \<Rightarrow> nat list" where
  "nonzero_cols m r = filter (\<lambda>c. todense m r c \<noteq> 0) [0..<snd (shape m)]"

text \<open>The rows of column \<open>c\<close> that hold a nonzero value, in increasing order.\<close>

definition nonzero_rows :: "coo \<Rightarrow> nat \<Rightarrow> nat list" where
  "nonzero_rows m c = filter (\<lambda>r. todense m r c \<noteq> 0) [0..<fst (shape m)]"

definition column_sum :: "coo \<Rightarrow> nat \<Rightarrow> real" where
  "column_sum m c = sum_list (map (\<lambda>r. todense m r c) [0..<fst (shape m)])"

text \<open>
  \<open>coo_matrix._check\<close>: the three arrays have one length, and when the matrix stores
  anything its indices lie inside the shape. Each failure is a \<open>ValueError\<close>.
\<close>

definition coo_check :: "coo \<Rightarrow> error + coo" where
  "coo_check m =
     (if length (data m) \<noteq> length (row m) \<or> length (data m) \<noteq> length (col m)
      then Inl (ValueError ''row, column, and data array must all be the same length'')
      else if data m \<noteq> [] \<and> list_ex (\<lambda>r. fst (shape m) \<le> r) (row m)
      then Inl (ValueError ''row index exceeds matrix dimensions'')
      else if data m \<noteq> [] \<and> list_ex (\<lambda>c. snd (shape m) \<le> c) (col m)
      then Inl (ValueError ''column index exceeds matrix dimensions'')
      else Inr m)"

text \<open>
  \<open>coo_matrix((values, (row, col)), shape=shape)\<close>. Without a shape the dimensions are
  inferred from the largest indices, which fails on empty index arrays.
\<close>

definition coo_matrix :: "real list \<Rightarrow> nat list \<Rightarrow> nat list \<Rightarrow> (nat \<times> nat) option \<Rightarrow> error + coo" where
  "coo_matrix values r c shp =
     (case shp of
        Some s \<Rightarrow> coo_check \<lparr>data = values, row = r, col = c, shape = s\<rparr>
      | None \<Rightarrow>
          if r = [] \<or> c = []
          then Inl (ValueError ''cannot infer dimensions from zero sized index arrays'')
          else coo_check \<lparr>data = values, row = r, col = c,
                          shape = (Suc (fold max r 0), Suc (fold max c 0))\<rparr>)"

subsection \<open>\<open>numpy.unique\<close>\<close>

fun index_of :: "'a list \<Rightarrow> 'a \<Rightarrow> nat" where
  "index_of [] x = 0"
| "index_of (y # ys) x = (if x = y then 0 else Suc (index_of ys x))"

text \<open>
  \<open>np.unique(col, return_inverse=True, return_counts=True)\<close>: the sorted distinct values,
  for each element of \<open>col\<close> its position among them, and how often each value occurs.
\<close>

definition np_unique :: "nat list \<Rightarrow> nat list \<times> nat list \<times> nat list" where
  "np_unique xs =
     (let val = sort (remdups xs)
      in (val, map (index_of val) xs, map (count_list xs) val))"

subsection \<open>\<open>GraphObject.buildArcNode\<close>\<close>

text \<open>
  The incidence values, one per arc. \<open>float(1 / len(col))\<close> is a Python division, which
  raises \<open>ZeroDivisionError\<close> on a graph without arcs. A mode other than
  \<open>'normalized'\<close> and \<open>'average'\<close> leaves the vector of ones.
\<close>

definition arcnode_values :: "string \<Rightarrow> nat list \<Rightarrow> error + real list" where
  "arcnode_values mode col_idx =
     (let values_vector = replicate (length col_idx) (1::real)
      in if mode = ''normalized'' then
           (if length col_idx = 0 then Inl ZeroDivisionError
            else Inr (map (\<lambda>v. v * (1 / real (length col_idx))) values_vector))
         else if mode = ''average'' then
           (case np_unique col_idx of (val, col_index, destination_node_counts) \<Rightarrow>
              Inr (map2 (\<lambda>v j. v / real (destination_node_counts ! j)) values_vector col_index))
         else Inr values_vector)"

definition buildArcNode :: "GraphObject \<Rightarrow> error + coo" where
  "buildArcNode g =
     (let col_idx = map arc_to (arcs g);
          row_idx = [0..<length col_idx]
      in case arcnode_values (aggregation_mode g) col_idx of
           Inl e \<Rightarrow> Inl e
         | Inr values_vector \<Rightarrow>
             coo_matrix values_vector row_idx col_idx
               (Some (length (arcs g), length (nodes g))))"

text \<open>The in-degree of node \<open>n\<close>: the number of arcs whose destination is \<open>n\<close>.\<close>

definition in_degree :: "GraphObject \<Rightarrow> nat \<Rightarrow> nat" where
  "in_degree g n = length (filter (\<lambda>a. arc_to a = n) (arcs g))"

subsection \<open>\<open>GraphObject.buildAdjacency\<close> and \<open>GraphObject.buildNodeGraph\<close>\<close>

text \<open>
  \<open>buildAdjacency\<close> reuses \<open>ArcNode.data\<close> and keys it by \<open>(from, to)\<close>. The indices
  are handed over as \<open>zip(*self.arcs[:, :2].astype(int))\<close>, which the matrix constructor
  unpacks as \<open>(row, col)\<close>: with no arcs the \<open>zip\<close> is empty, the unpacking fails, and
  \<open>coo_matrix\<close> reports \<open>TypeError('invalid input format')\<close>.
\<close>

definition buildAdjacency :: "GraphObject \<Rightarrow> error + coo" where
  "buildAdjacency g =
     (let values = data (ArcNode g)
      in if arcs g = [] then Inl (TypeError ''invalid input format'')
         else coo_matrix values (map arc_from (arcs g)) (map arc_to (arcs g))
                (Some (length (nodes g), length (nodes g))))"

text \<open>\<open>coo_matrix(data)\<close> for a dense column vector \<open>data\<close>: the nonzero cells are stored.\<close>

definition coo_of_column :: "real list \<Rightarrow> coo" where
  "coo_of_column v =
     (let kept = filter (\<lambda>i. v ! i \<noteq> 0) [0..<length v]
      in \<lparr>data = map (\<lambda>i. v ! i) kept, row = kept, col = replicate (length kept) 0,
          shape = (length v, 1)\<rparr>)"

text \<open>\<open>coo_matrix([])\<close> has shape \<open>(1, 0)\<close> and stores nothing.\<close>

definition coo_empty :: coo where
  "coo_empty = \<lparr>data = [], row = [], col = [], shape = (1, 0)\<rparr>"

definition buildNodeGraph :: "GraphObject \<Rightarrow> string \<Rightarrow> coo" where
  "buildNodeGraph g problem_based =
     (let nodegraph = coo_empty
      in if problem_based = ''g''
         then coo_of_column (replicate (length (nodes g)) (1 * 1 / real (length (nodes g))))
         else nodegraph)"

subsection \<open>\<open>GraphObject.__init__\<close>\<close>

text \<open>The \<open>sample_weights\<close> argument: a number, or an array.\<close>

datatype weights_arg = Scalar real | Array "real ndarray"

text \<open>NumPy broadcasting of one row against a vector of \<open>n\<close> ones.\<close>

definition broadcastable :: "real list \<Rightarrow> nat \<Rightarrow> bool" where
  "broadcastable r n = (length r = n \<or> length r = 1 \<or> n = 1)"

definition broadcast_row :: "real list \<Rightarrow> nat \<Rightarrow> real list" where
  "broadcast_row r n = (if length r = n then r else if length r = 1 then replicate n (hd r) else r)"

text \<open>\<open>sample_weights * np.ones(n)\<close>.\<close>

fun times_ones :: "weights_arg \<Rightarrow> nat \<Rightarrow> error + real ndarray" where
  "times_ones (Scalar s) n = Inr (Vec (replicate n (s * 1)))"
| "times_ones (Array (Vec v)) n =
     (if broadcastable v n then Inr (Vec (broadcast_row v n))
      else Inl (ValueError ''operands could not be broadcast together''))"
| "times_ones (Array (Mat rs)) n =
     (if list_all (\<lambda>r. broadcastable r n) rs then Inr (Mat (map (\<lambda>r. broadcast_row r n) rs))
      else Inl (ValueError ''operands could not be broadcast together''))"

fun len :: "'a ndarray \<Rightarrow> nat" where
  "len (Vec v) = length v"
| "len (Mat rs) = length rs"

fun astype_bool :: "real ndarray \<Rightarrow> bool ndarray" where
  "astype_bool (Vec v) = Vec (map (\<lambda>x. x \<noteq> 0) v)"
| "astype_bool (Mat rs) = Mat (map (map (\<lambda>x. x \<noteq> 0)) rs)"

text \<open>A boolean array where the source passes it on as a numeric argument.\<close>

fun as_float :: "bool ndarray \<Rightarrow> real ndarray" where
  "as_float (Vec v) = Vec (map of_bool v)"
| "as_float (Mat rs) = Mat (map (map of_bool) rs)"

text \<open>The dictionary \<open>lenMask\<close> of the constructor; a missing key is a \<open>KeyError\<close>.\<close>

definition lenMask :: "real list list \<Rightarrow> arc list \<Rightarrow> string \<rightharpoonup> nat" where
  "lenMask nodes' arcs' = [''n'' \<mapsto> length nodes', ''a'' \<mapsto> length arcs', ''g'' \<mapsto> length nodes']"

text \<open>The value of an attribute that the constructor has not assigned yet.\<close>

definition unset :: coo where
  "unset = \<lparr>data = [], row = [], col = [], shape = (0, 0)\<rparr>"

text \<open>
  The constructor, statement by statement; the arguments are in the order of the Python
  signature, \<open>None\<close> for an optional argument left out.
\<close>

definition GraphObject_init ::
  "real list list \<Rightarrow> arc list \<Rightarrow> real list list \<Rightarrow> string \<Rightarrow> real ndarray option \<Rightarrow>
   real ndarray option \<Rightarrow> weights_arg \<Rightarrow> coo option \<Rightarrow> coo option \<Rightarrow> string \<Rightarrow> error + GraphObject" where
  "GraphObject_init nodes' arcs' targets' problem_based set_mask' output_mask' sample_weights'
     NodeGraph' ArcNode' aggregation_mode' =
     (case times_ones sample_weights' (length targets') of
        Inl e \<Rightarrow> Inl e
      | Inr sw \<Rightarrow>
     (case (case set_mask' of
              None \<Rightarrow> (case lenMask nodes' arcs' problem_based of
                          None \<Rightarrow> Inl (KeyError problem_based)
                        | Some n \<Rightarrow> Inr (Vec (replicate n True)))
            | Some sm \<Rightarrow> Inr (astype_bool sm)) of
        Inl e \<Rightarrow> Inl e
      | Inr sm \<Rightarrow>
     (let om = (case output_mask' of
                  None \<Rightarrow> Vec (replicate (len sm) True)
                | Some om' \<Rightarrow> astype_bool om')
      in if len sm \<noteq> len om
         then Inl (ValueError ''Error - len(<set_mask>) != len(<output_mask>)'')
         else if aggregation_mode' \<notin> set [''average'', ''normalized'', ''sum'']
         then Inl (ValueError ''ERROR: Unknown aggregation mode'')
         else
           (let g0 = \<lparr>nodes = nodes', arcs = arcs', targets = targets', sample_weights = sw,
                      set_mask = sm, output_mask = om, aggregation_mode = aggregation_mode',
                      ArcNode = unset, Adjacency = unset, NodeGraph = unset\<rparr>
            in case (case ArcNode' of None \<Rightarrow> buildArcNode g0 | Some m \<Rightarrow> Inr m) of
                 Inl e \<Rightarrow> Inl e
               | Inr an \<Rightarrow>
                   (let g1 = g0\<lparr>ArcNode := an\<rparr>
                    in case buildAdjacency g1 of
                         Inl e \<Rightarrow> Inl e
                       | Inr adj \<Rightarrow>
                           (let g2 = g1\<lparr>Adjacency := adj\<rparr>
                            in Inr (g2\<lparr>NodeGraph :=
                                 (case NodeGraph' of
                                    None \<Rightarrow> buildNodeGraph g2 problem_based
                                  | Some m \<Rightarrow> m)\<rparr>)))))))"

subsection \<open>\<open>GraphObject.setAggregation\<close>\<close>

text \<open>
  The method mutates the object. The model returns the exception raised, if any, together
  with the state of the object when the call ends, so that a raise after an assignment
  would show in the state.
\<close>

definition setAggregation :: "GraphObject \<Rightarrow> string \<Rightarrow> error option \<times> GraphObject" where
  "setAggregation g aggregation_mode' =
     (if aggregation_mode' \<notin> set [''average'', ''normalized'', ''sum'']
      then (Some (ValueError ''ERROR: Unknown aggregation mode''), g)
      else
        (let g1 = g\<lparr>aggregation_mode := aggregation_mode'\<rparr>
         in case buildArcNode g1 of
              Inl e \<Rightarrow> (Some e, g1)
            | Inr an \<Rightarrow>
                (let g2 = g1\<lparr>ArcNode := an\<rparr>
                 in case buildAdjacency g2 of
                      Inl e \<Rightarrow> (Some e, g2)
                    | Inr adj \<Rightarrow> (None, g2\<lparr>Adjacency := adj\<rparr>))))"

subsection \<open>A small graph\<close>

text \<open>
  Three nodes and the arcs \<open>0 \<rightarrow> 1\<close>, \<open>1 \<rightarrow> 2\<close>, \<open>0 \<rightarrow> 2\<close>, each with the label \<open>0.5\<close>.
\<close>

definition nodes3 :: "real list list" where
  "nodes3 = [[1], [2], [3]]"

definition arcs3 :: "arc list" where
  "arcs3 = [\<lparr>arc_from = 0, arc_to = 1, arc_label = [1/2]\<rparr>,
            \<lparr>arc_from = 1, arc_to = 2, arc_label = [1/2]\<rparr>,
            \<lparr>arc_from = 0, arc_to = 2, arc_label = [1/2]\<rparr>]"

definition targets3 :: "real list list" where
  "targets3 = [[0], [1], [0]]"

definition arcnode3 :: "string \<Rightarrow> real list" where
  "arcnode3 mode =
     (if mode = ''normalized'' then [1/3, 1/3, 1/3]
      else if mode = ''average'' then [1, 1/2, 1/2] else [1, 1, 1])"

definition graph3 :: "string \<Rightarrow> GraphObject" where
  "graph3 mode =
     \<lparr>nodes = nodes3, arcs = arcs3, targets = targets3, sample_weights = Vec [1, 1, 1],
      set_mask = Vec [True, True, True], output_mask = Vec [True, True, True],
      aggregation_mode = mode,
      ArcNode = \<lparr>data = arcnode3 mode, row = [0, 1, 2], col = [1, 2, 2], shape = (3, 3)\<rparr>,
      Adjacency = \<lparr>data = arcnode3 mode, row = [0, 1, 0], col = [1, 2, 2], shape = (3, 3)\<rparr>,
      NodeGraph = coo_empty\<rparr>"

subsection \<open>Getters\<close>

text \<open>
  Each getter returns \<open>self.<attribute>.copy()\<close>: a new array with the same contents.
  Values have no identity here (see the store model below for that), so a copy is the
  value itself.
\<close>

definition getArcs :: "GraphObject \<Rightarrow> arc list" where
  "getArcs g = arcs g"

definition getNodes :: "GraphObject \<Rightarrow> real list list" where
  "getNodes g = nodes g"

definition getTargets :: "GraphObject \<Rightarrow> real list list" where
  "getTargets g = targets g"

definition getSetMask :: "GraphObject \<Rightarrow> bool ndarray" where
  "getSetMask g = set_mask g"

definition getOutputMask :: "GraphObject \<Rightarrow> bool ndarray" where
  "getOutputMask g = output_mask g"

definition getSampleWeights :: "GraphObject \<Rightarrow> real ndarray" where
  "getSampleWeights g = sample_weights g"

definition getNodeGraph :: "GraphObject \<Rightarrow> coo" where
  "getNodeGraph g = NodeGraph g"

subsection \<open>\<open>numpy.concatenate\<close> and \<open>scipy.sparse.block_diag\<close>\<close>

text \<open>
  Concatenation along axis 0 needs at least one array, and arrays that agree in every
  other dimension; here: all rows have one length. (An array without rows has no column
  count in this model and so never disagrees.)
\<close>

definition same_width :: "'a list list \<Rightarrow> bool" where
  "same_width rs = (case rs of [] \<Rightarrow> True | r # rs' \<Rightarrow> list_all (\<lambda>r'. length r' = length r) rs')"

definition concatenate :: "'a list list list \<Rightarrow> error + 'a list list" where
  "concatenate arrays =
     (if arrays = [] then Inl (ValueError ''need at least one array to concatenate'')
      else if \<not> same_width (concat arrays)
      then Inl (ValueError ''all the input array dimensions except for the concatenation axis must match exactly'')
      else Inr (concat arrays))"

definition concatenate_arcs :: "arc list list \<Rightarrow> error + arc list" where
  "concatenate_arcs arrays =
     (if arrays = [] then Inl (ValueError ''need at least one array to concatenate'')
      else if \<not> same_width (map arc_label (concat arrays))
      then Inl (ValueError ''all the input array dimensions except for the concatenation axis must match exactly'')
      else Inr (concat arrays))"

fun is_vec :: "'a ndarray \<Rightarrow> bool" where
  "is_vec (Vec v) = True"
| "is_vec (Mat rs) = False"

fun vec_items :: "'a ndarray \<Rightarrow> 'a list" where
  "vec_items (Vec v) = v"
| "vec_items (Mat rs) = []"

fun mat_rows :: "'a ndarray \<Rightarrow> 'a list list" where
  "mat_rows (Vec v) = []"
| "mat_rows (Mat rs) = rs"

definition concatenate_nd :: "'a ndarray list \<Rightarrow> error + 'a ndarray" where
  "concatenate_nd arrays =
     (if arrays = [] then Inl (ValueError ''need at least one array to concatenate'')
      else if list_all is_vec arrays then Inr (Vec (concat (map vec_items arrays)))
      else if list_ex is_vec arrays
      then Inl (ValueError ''all the input arrays must have same number of dimensions'')
      else if \<not> same_width (concat (map mat_rows arrays))
      then Inl (ValueError ''all the input array dimensions except for the concatenation axis must match exactly'')
      else Inr (Mat (concat (map mat_rows arrays))))"

text \<open>
  \<open>block_diag\<close> places the blocks along the diagonal: the indices of each block are
  offset by the rows and columns of the blocks before it.
\<close>

fun block_diag_parts :: "nat \<Rightarrow> nat \<Rightarrow> coo list \<Rightarrow> real list \<times> nat list \<times> nat list \<times> (nat \<times> nat)" where
  "block_diag_parts r_idx c_idx [] = ([], [], [], (r_idx, c_idx))"
| "block_diag_parts r_idx c_idx (a # mats) =
     (case block_diag_parts (r_idx + fst (shape a)) (c_idx + snd (shape a)) mats of
        (d, rs, cs, s) \<Rightarrow>
          (data a @ d, map (\<lambda>r. r + r_idx) (row a) @ rs, map (\<lambda>c. c + c_idx) (col a) @ cs, s))"

definition block_diag :: "coo list \<Rightarrow> error + coo" where
  "block_diag mats =
     (if mats = [] then Inl (ValueError ''need at least one array to concatenate'')
      else case block_diag_parts 0 0 mats of
             (d, rs, cs, s) \<Rightarrow> coo_matrix d rs cs (Some s))"

subsection \<open>\<open>GraphObject.merge\<close>\<close>

text \<open>
  An element of \<open>glist\<close>: a \<open>GraphObject\<close>, a \<open>str\<close> (accepted by the type check of
  \<open>merge\<close>), or an object of another type.
\<close>

datatype glist_item = Graph GraphObject | Path string | Other

text \<open>One tuple of \<open>get_data\<close>.\<close>

record graph_data =
  gd_nodes :: "real list list"
  gd_nodes_len :: nat
  gd_arcs :: "arc list"
  gd_targets :: "real list list"
  gd_set_mask :: "bool ndarray"
  gd_output_mask :: "bool ndarray"
  gd_sample_weights :: "real ndarray"
  gd_nodegraph :: coo

text \<open>The getters are methods of \<open>GraphObject\<close>: on a \<open>str\<close> the call is an \<open>AttributeError\<close>.\<close>

fun get_data :: "glist_item list \<Rightarrow> error + graph_data list" where
  "get_data [] = Inr []"
| "get_data (Graph i # x) =
     (case get_data x of
        Inl e \<Rightarrow> Inl e
      | Inr ds \<Rightarrow>
          Inr (\<lparr>gd_nodes = getNodes i, gd_nodes_len = length (nodes i), gd_arcs = getArcs i,
                gd_targets = getTargets i, gd_set_mask = getSetMask i,
                gd_output_mask = getOutputMask i, gd_sample_weights = getSampleWeights i,
                gd_nodegraph = getNodeGraph i\<rparr> # ds))"
| "get_data (_ # x) = Inl AttributeError"

text \<open>
  The \<open>arcs\<close> array holds the node indices in cells of the Keras float type, which is
  \<open>float32\<close> unless reconfigured. A \<open>float32\<close> holds an integer of up to 24 significant
  binary digits exactly; an integer with more digits is rounded to the nearest one that
  fits, a tie going to the even significand. \<open>bit_length\<close> is Python's \<open>int.bit_length\<close>.
  (Integers from \<open>2\<^sup>1\<^sup>2\<^sup>8\<close> on, which overflow to \<open>inf\<close>, are beyond the size of any array and are
  rounded here like the others.)
\<close>

fun bit_length :: "nat \<Rightarrow> nat" where
  "bit_length n = (if n = 0 then 0 else Suc (bit_length (n div 2)))"

declare bit_length.simps [simp del]

definition float32 :: "nat \<Rightarrow> nat" where
  "float32 n =
     (let ulp = 2 ^ (bit_length n - 24); q = n div ulp; r = n mod ulp
      in if 2 * r < ulp \<or> (2 * r = ulp \<and> even q) then q * ulp else (q + 1) * ulp)"

text \<open>
  \<open>elem[:, :2] += k\<close> on one arc: \<open>k\<close> is converted to \<open>float32\<close> and added to the two index
  cells in \<open>float32\<close> arithmetic, which rounds the exact sum.
\<close>

definition shift_arc :: "nat \<Rightarrow> arc \<Rightarrow> arc" where
  "shift_arc k a = a\<lparr>arc_from := float32 (arc_from a + float32 k),
                      arc_to := float32 (arc_to a + float32 k)\<rparr>"

text \<open>\<open>for i, elem in enumerate(arcs): elem[:, :2] += sum(nodes_lens[:i])\<close>.\<close>

definition shift_all :: "nat list \<Rightarrow> arc list list \<Rightarrow> arc list list" where
  "shift_all nodes_lens arcs' =
     map (\<lambda>(i, elem). map (shift_arc (sum_list (take i nodes_lens))) elem) (enumerate 0 arcs')"

text \<open>The rest of \<open>merge\<close>: the concatenations, the block diagonal and the constructor.\<close>

definition merge_build ::
  "arc list list \<Rightarrow> graph_data list \<Rightarrow> string \<Rightarrow> string \<Rightarrow> error + GraphObject" where
  "merge_build arcs' ds problem_based aggregation_mode' =
     (case concatenate_arcs arcs' of Inl e \<Rightarrow> Inl e | Inr arcs'' \<Rightarrow>
      case concatenate (map gd_nodes ds) of Inl e \<Rightarrow> Inl e | Inr nodes' \<Rightarrow>
      case concatenate (map gd_targets ds) of Inl e \<Rightarrow> Inl e | Inr targets' \<Rightarrow>
      case concatenate_nd (map gd_set_mask ds) of Inl e \<Rightarrow> Inl e | Inr set_mask' \<Rightarrow>
      case concatenate_nd (map gd_output_mask ds) of Inl e \<Rightarrow> Inl e | Inr output_mask' \<Rightarrow>
      case concatenate_nd (map gd_sample_weights ds) of Inl e \<Rightarrow> Inl e | Inr sample_weights' \<Rightarrow>
      case block_diag (map gd_nodegraph ds) of Inl e \<Rightarrow> Inl e | Inr nodegraph \<Rightarrow>
        GraphObject_init nodes' arcs'' targets' problem_based (Some (as_float set_mask'))
          (Some (as_float output_mask')) (Array sample_weights') (Some nodegraph) None
          aggregation_mode')"

definition merge :: "glist_item list \<Rightarrow> string \<Rightarrow> string \<Rightarrow> error + GraphObject" where
  "merge glist problem_based aggregation_mode' =
     (if list_ex (\<lambda>x. x = Other) glist
      then Inl (TypeError ''type of param <glist> must be list of str path-like or GraphObjects'')
      else case get_data glist of
             Inl e \<Rightarrow> Inl e
           | Inr ds \<Rightarrow>
               if ds = [] then Inl (ValueError ''not enough values to unpack (expected 8, got 0)'')
               else merge_build (shift_all (map gd_nodes_len ds) (map gd_arcs ds)) ds
                      problem_based aggregation_mode')"

subsection \<open>Shape of a node-to-graph matrix\<close>

text \<open>
  The indices of a stored matrix lie inside its shape and its three arrays have one
  length: what \<open>coo_matrix\<close> checks when a matrix is made.
\<close>

definition coo_valid :: "coo \<Rightarrow> bool" where
  "coo_valid m =
     (length (row m) = length (data m) \<and> length (col m) = length (data m)
      \<and> list_all (\<lambda>r. r < fst (shape m)) (row m) \<and> list_all (\<lambda>c. c < snd (shape m)) (col m))"

text \<open>
  Column \<open>c\<close> averages the nodes of one sub-graph: it has at least one nonzero entry, and
  each nonzero entry is 1 divided by the number of nonzero entries of the column.
\<close>

definition column_averages :: "coo \<Rightarrow> nat \<Rightarrow> bool" where
  "column_averages m c =
     (let rs = nonzero_rows m c
      in rs \<noteq> [] \<and> list_all (\<lambda>r. todense m r c = 1 / real (length rs)) rs)"

text \<open>
  The entry that row \<open>r\<close> should hold in column \<open>k\<close> when the rows are the nodes of
  consecutive sub-graphs with \<open>sizes\<close> nodes each: 1 divided by the node count of sub-graph
  \<open>k\<close> when node \<open>r\<close> belongs to it, and 0 otherwise.
\<close>

definition block_entry :: "nat list \<Rightarrow> nat \<Rightarrow> nat \<Rightarrow> real" where
  "block_entry sizes r k =
     (if k < length sizes \<and> sum_list (take k sizes) \<le> r \<and> r < sum_list (take (Suc k) sizes)
      then 1 / real (sizes ! k) else 0)"

text \<open>
  A node-to-graph matrix over sub-graphs of the given node counts: one row per node, one
  column per sub-graph, no empty sub-graph, and every cell as \<open>block_entry\<close> says.
\<close>

definition nodegraph_blocks :: "coo \<Rightarrow> nat list \<Rightarrow> bool" where
  "nodegraph_blocks m sizes =
     (coo_valid m \<and> shape m = (sum_list sizes, length sizes) \<and> list_all (\<lambda>n. 0 < n) sizes
      \<and> list_all (\<lambda>k. list_all (\<lambda>r. todense m r k = block_entry sizes r k) [0..<sum_list sizes])
           [0..<length sizes])"

text \<open>A graph-based \<open>GraphObject\<close> made of sub-graphs with the given node counts.\<close>

definition graph_based :: "GraphObject \<Rightarrow> nat list \<Rightarrow> bool" where
  "graph_based g sizes = (length (nodes g) = sum_list sizes \<and> nodegraph_blocks (NodeGraph g) sizes)"

subsection \<open>Well-formed graphs\<close>

text \<open>
  The invariants of the data model that \<open>merge\<close> relies on: at least one arc, endpoints
  that are node indices, one-dimensional masks of one length, one weight per target row,
  and a node-to-graph matrix whose indices lie inside its shape.
\<close>

definition wf_graph :: "GraphObject \<Rightarrow> bool" where
  "wf_graph g =
     (arcs g \<noteq> []
      \<and> list_all (\<lambda>a. arc_from a < length (nodes g) \<and> arc_to a < length (nodes g)) (arcs g)
      \<and> is_vec (set_mask g) \<and> is_vec (output_mask g) \<and> len (set_mask g) = len (output_mask g)
      \<and> is_vec (sample_weights g) \<and> len (sample_weights g) = length (targets g)
      \<and> coo_valid (NodeGraph g))"

text \<open>A second graph: two nodes and the arcs \<open>0 \<rightarrow> 1\<close>, \<open>1 \<rightarrow> 0\<close>.\<close>

definition nodes2 :: "real list list" where
  "nodes2 = [[4], [5]]"

definition arcs2 :: "arc list" where
  "arcs2 = [\<lparr>arc_from = 0, arc_to = 1, arc_label = [1/4]\<rparr>,
            \<lparr>arc_from = 1, arc_to = 0, arc_label = [3/4]\<rparr>]"

definition targets2 :: "real list list" where
  "targets2 = [[1], [0]]"

definition graph2 :: GraphObject where
  "graph2 =
     \<lparr>nodes = nodes2, arcs = arcs2, targets = targets2, sample_weights = Vec [2, 3],
      set_mask = Vec [True, False], output_mask = Vec [True, True],
      aggregation_mode = ''sum'',
      ArcNode = \<lparr>data = [1, 1], row = [0, 1], col = [1, 0], shape = (2, 2)\<rparr>,
      Adjacency = \<lparr>data = [1, 1], row = [0, 1], col = [1, 0], shape = (2, 2)\<rparr>,
      NodeGraph = coo_empty\<rparr>"




text \<open>The two small graphs as graph-based problems: one target row each.\<close>

definition graph3g :: GraphObject where
  "graph3g =
     \<lparr>nodes = nodes3, arcs = arcs3, targets = [[1]], sample_weights = Vec [1],
      set_mask = Vec [True, True, True], output_mask = Vec [True, True, True],
      aggregation_mode = ''sum'',
      ArcNode = \<lparr>data = [1, 1, 1], row = [0, 1, 2], col = [1, 2, 2], shape = (3, 3)\<rparr>,
      Adjacency = \<lparr>data = [1, 1, 1], row = [0, 1, 0], col = [1, 2, 2], shape = (3, 3)\<rparr>,
      NodeGraph = \<lparr>data = [1/3, 1/3, 1/3], row = [0, 1, 2], col = [0, 0, 0], shape = (3, 1)\<rparr>\<rparr>"

definition graph2g :: GraphObject where
  "graph2g =
     \<lparr>nodes = nodes2, arcs = arcs2, targets = [[0]], sample_weights = Vec [1],
      set_mask = Vec [True, True], output_mask = Vec [True, True],
      aggregation_mode = ''sum'',
      ArcNode = \<lparr>data = [1, 1], row = [0, 1], col = [1, 0], shape = (2, 2)\<rparr>,
      Adjacency = \<lparr>data = [1, 1], row = [0, 1], col = [1, 0], shape = (2, 2)\<rparr>,
      NodeGraph = \<lparr>data = [1/2, 1/2], row = [0, 1], col = [0, 0], shape = (2, 1)\<rparr>\<rparr>"

subsection \<open>\<open>GraphTensor\<close>\<close>

text \<open>A \<open>tf.SparseTensor\<close>: the index pairs, the values and the dense shape.\<close>

record SparseTensor =
  st_indices :: "(nat \<times> nat) list"
  st_values :: "real list"
  st_dense_shape :: "nat \<times> nat"

record GraphTensor =
  gt_nodes :: "real list list"
  gt_arcs :: "arc list"
  gt_targets :: "real list list"
  gt_sample_weights :: "real ndarray"
  gt_set_mask :: "bool ndarray"
  gt_output_mask :: "bool ndarray"
  gt_aggregation_mode :: string
  gt_Adjacency :: SparseTensor
  gt_ArcNode :: SparseTensor
  gt_NodeGraph :: SparseTensor

text \<open>
  \<open>tf.SparseTensor(indices, values, dense_shape)\<close> wants \<open>indices\<close> of shape \<open>[N, 2]\<close> and
  \<open>values\<close> of shape \<open>[N]\<close>. The first argument is \<open>None\<close> for \<open>np.zeros(shape=(0, 2))\<close>
  and \<open>Some\<close> of the list of pairs otherwise; an empty Python list is a tensor of rank 1
  and is refused.
\<close>

definition SparseTensor_init :: "(nat \<times> nat) list option \<Rightarrow> real list \<Rightarrow> nat \<times> nat \<Rightarrow> error + SparseTensor" where
  "SparseTensor_init idx vals shp =
     (case idx of
        None \<Rightarrow>
          if vals = [] then Inr \<lparr>st_indices = [], st_values = [], st_dense_shape = shp\<rparr>
          else Inl (ValueError ''Dimensions 0 and 1 are not compatible'')
      | Some ix \<Rightarrow>
          if ix = [] then Inl (ValueError ''Shape (0,) must have rank 2'')
          else if length ix \<noteq> length vals then Inl (ValueError ''Dimensions are not compatible'')
          else Inr \<lparr>st_indices = ix, st_values = vals, st_dense_shape = shp\<rparr>)"

text \<open>
  \<open>tf.sparse.reorder\<close> sorts the entries into row-major order; it removes nothing. (The
  order it gives to entries with one index is not specified; here they keep theirs.)
\<close>

definition sparse_reorder :: "SparseTensor \<Rightarrow> SparseTensor" where
  "sparse_reorder t =
     (let entries = sort_key (\<lambda>((r, c), v). r * snd (st_dense_shape t) + c)
                      (zip (st_indices t) (st_values t))
      in t\<lparr>st_indices := map fst entries, st_values := map snd entries\<rparr>)"

text \<open>
  \<open>GraphTensor.COO2SparseTensor\<close>: the indices are \<open>zip(coo_matrix.row, coo_matrix.col)\<close>
  and the dense shape is \<open>coo_matrix.shape\<close>; \<open>tf.cast\<close> changes no value here.
\<close>

definition COO2SparseTensor :: "coo \<Rightarrow> error + SparseTensor" where
  "COO2SparseTensor m =
     (let indices = (if \<not> (fst (shape m) \<noteq> 0 \<and> snd (shape m) \<noteq> 0) then None
                     else Some (zip (row m) (col m)))
      in case SparseTensor_init indices (data m) (shape m) of
           Inl e \<Rightarrow> Inl e
         | Inr sparse_tensor \<Rightarrow> Inr (sparse_reorder sparse_tensor))"

text \<open>
  \<open>GraphTensor.fromGraphObject\<close>; the keyword arguments are evaluated in the order
  \<open>NodeGraph\<close>, \<open>Adjacency\<close>, \<open>ArcNode\<close>. \<open>GraphTensor.__init__\<close> stores what it is given
  (\<open>tf.constant\<close>, \<open>SparseTensor.from_value\<close>).
\<close>

definition fromGraphObject :: "GraphObject \<Rightarrow> error + GraphTensor" where
  "fromGraphObject g =
     (case COO2SparseTensor (NodeGraph g) of Inl e \<Rightarrow> Inl e | Inr ng \<Rightarrow>
      case COO2SparseTensor (Adjacency g) of Inl e \<Rightarrow> Inl e | Inr adj \<Rightarrow>
      case COO2SparseTensor (ArcNode g) of Inl e \<Rightarrow> Inl e | Inr an \<Rightarrow>
        Inr \<lparr>gt_nodes = nodes g, gt_arcs = arcs g, gt_targets = targets g,
             gt_sample_weights = sample_weights g, gt_set_mask = set_mask g,
             gt_output_mask = output_mask g, gt_aggregation_mode = aggregation_mode g,
             gt_Adjacency = adj, gt_ArcNode = an, gt_NodeGraph = ng\<rparr>)"

text \<open>The dense value of a sparse tensor at \<open>(r, c)\<close>.\<close>

definition tensor_entry :: "SparseTensor \<Rightarrow> nat \<Rightarrow> nat \<Rightarrow> real" where
  "tensor_entry t r c =
     sum_list (map (\<lambda>(i, v). if i = (r, c) then v else 0) (zip (st_indices t) (st_values t)))"

text \<open>Three nodes and the two arcs \<open>0 \<rightarrow> 1\<close>, \<open>0 \<rightarrow> 2\<close>, and the tensor made from that graph.\<close>

definition arcs_fan :: "arc list" where
  "arcs_fan = [\<lparr>arc_from = 0, arc_to = 1, arc_label = [1/2]\<rparr>,
               \<lparr>arc_from = 0, arc_to = 2, arc_label = [1/2]\<rparr>]"

definition graph_fan :: GraphObject where
  "graph_fan =
     \<lparr>nodes = nodes3, arcs = arcs_fan, targets = targets3, sample_weights = Vec [1, 1, 1],
      set_mask = Vec [True, True, True], output_mask = Vec [True, True, True],
      aggregation_mode = ''sum'',
      ArcNode = \<lparr>data = [1, 1], row = [0, 1], col = [1, 2], shape = (2, 3)\<rparr>,
      Adjacency = \<lparr>data = [1, 1], row = [0, 0], col = [1, 2], shape = (3, 3)\<rparr>,
      NodeGraph = coo_empty\<rparr>"

definition tensor_fan :: GraphTensor where
  "tensor_fan =
     \<lparr>gt_nodes = nodes3, gt_arcs = arcs_fan, gt_targets = targets3,
      gt_sample_weights = Vec [1, 1, 1],
      gt_set_mask = Vec [True, True, True], gt_output_mask = Vec [True, True, True],
      gt_aggregation_mode = ''sum'',
      gt_Adjacency = \<lparr>st_indices = [(0, 1), (0, 2)], st_values = [1, 1], st_dense_shape = (3, 3)\<rparr>,
      gt_ArcNode = \<lparr>st_indices = [(0, 1), (1, 2)], st_values = [1, 1], st_dense_shape = (2, 3)\<rparr>,
      gt_NodeGraph = \<lparr>st_indices = [], st_values = [], st_dense_shape = (1, 0)\<rparr>\<rparr>"

subsection \<open>Saving and loading\<close>

text \<open>
  The directory of one graph: for each file name the class knows, the array in the file,
  or \<open>None\<close> when the file is absent. A mask is written as numbers (\<open>1\<close> for true);
  \<open>NodeGraph\<close> is the stack of \<open>data\<close>, \<open>row\<close> and \<open>col\<close>. File-system failures are not
  modelled, and the text format is taken to keep every value (\<open>'%.10g'\<close> rounds).
\<close>

record graph_dir =
  f_arcs :: "arc list option"
  f_nodes :: "real list list option"
  f_targets :: "real list list option"
  f_set_mask :: "real ndarray option"
  f_output_mask :: "real ndarray option"
  f_sample_weights :: "real ndarray option"
  f_NodeGraph :: "(real list \<times> nat list \<times> nat list) option"

text \<open>
  The Python builtin \<open>all\<close> over an array: over a vector the conjunction of its items;
  over a two-dimensional array it takes the truth value of each row, which NumPy refuses
  for a row of more than one item.
\<close>

fun all_rows :: "bool list list \<Rightarrow> error + bool" where
  "all_rows [] = Inr True"
| "all_rows (r # rs) =
     (if 1 < length r
      then Inl (ValueError ''The truth value of an array with more than one element is ambiguous'')
      else if r = [True] then all_rows rs else Inr False)"

fun py_all :: "bool ndarray \<Rightarrow> error + bool" where
  "py_all (Vec v) = Inr (list_all (\<lambda>b. b) v)"
| "py_all (Mat rs) = all_rows rs"

text \<open>\<open>np.any(g.sample_weights != 1)\<close>.\<close>

fun any_not_one :: "real ndarray \<Rightarrow> bool" where
  "any_not_one (Vec v) = list_ex (\<lambda>x. x \<noteq> 1) v"
| "any_not_one (Mat rs) = list_ex (list_ex (\<lambda>x. x \<noteq> 1)) rs"

text \<open>\<open>np.stack([data, row, col])\<close> needs three arrays of one length.\<close>

definition np_stack :: "coo \<Rightarrow> error + real list \<times> nat list \<times> nat list" where
  "np_stack m =
     (if length (row m) = length (data m) \<and> length (col m) = length (data m)
      then Inr (data m, row m, col m)
      else Inl (ValueError ''all input arrays must have the same shape''))"

text \<open>
  \<open>GraphObject.save_graph\<close>: \<open>arcs\<close>, \<open>nodes\<close> and \<open>targets\<close> always; a mask unless all its
  items are true; the weights unless all are 1; \<open>NodeGraph\<close> when neither dimension is 0
  and there is more than one target row.
\<close>

definition save_graph :: "GraphObject \<Rightarrow> error + graph_dir" where
  "save_graph g =
     (case py_all (set_mask g) of Inl e \<Rightarrow> Inl e | Inr all_set \<Rightarrow>
      case py_all (output_mask g) of Inl e \<Rightarrow> Inl e | Inr all_output \<Rightarrow>
      case (if (fst (shape (NodeGraph g)) \<noteq> 0 \<and> snd (shape (NodeGraph g)) \<noteq> 0)
               \<and> 1 < length (targets g)
            then (case np_stack (NodeGraph g) of Inl e \<Rightarrow> Inl e | Inr nodegraph \<Rightarrow> Inr (Some nodegraph))
            else Inr None) of
        Inl e \<Rightarrow> Inl e
      | Inr nodegraph_file \<Rightarrow>
          Inr \<lparr>f_arcs = Some (arcs g), f_nodes = Some (nodes g), f_targets = Some (targets g),
               f_set_mask = (if \<not> all_set then Some (as_float (set_mask g)) else None),
               f_output_mask = (if \<not> all_output then Some (as_float (output_mask g)) else None),
               f_sample_weights =
                 (if any_not_one (sample_weights g) then Some (sample_weights g) else None),
               f_NodeGraph = nodegraph_file\<rparr>)"

text \<open>
  \<open>GraphObject.save_txt\<close> writes the same arrays under the same conditions, with
  \<open>np.savetxt\<close>.
\<close>

definition save_txt :: "GraphObject \<Rightarrow> error + graph_dir" where
  "save_txt g = save_graph g"

text \<open>
  \<open>GraphObject.load\<close>: every file becomes a keyword argument of the constructor;
  \<open>NodeGraph\<close> is first made a sparse matrix, with no shape given; \<open>nodes\<close>, \<open>arcs\<close> and
  \<open>targets\<close> have no default.
\<close>

definition load :: "graph_dir \<Rightarrow> string \<Rightarrow> string \<Rightarrow> error + GraphObject" where
  "load dir problem_based aggregation_mode' =
     (case (case f_NodeGraph dir of
              None \<Rightarrow> Inr None
            | Some (d, r, c) \<Rightarrow>
                (case coo_matrix d r c None of Inl e \<Rightarrow> Inl e | Inr m \<Rightarrow> Inr (Some m))) of
        Inl e \<Rightarrow> Inl e
      | Inr nodegraph \<Rightarrow>
          (case (f_nodes dir, f_arcs dir, f_targets dir) of
             (Some nodes', Some arcs', Some targets') \<Rightarrow>
               GraphObject_init nodes' arcs' targets' problem_based (f_set_mask dir)
                 (f_output_mask dir)
                 (case f_sample_weights dir of None \<Rightarrow> Scalar 1 | Some w \<Rightarrow> Array w)
                 nodegraph None aggregation_mode'
           | _ \<Rightarrow> Inl (TypeError ''__init__() missing required positional arguments'')))"

text \<open>
  \<open>np.loadtxt(..., ndmin=2)\<close> returns a two-dimensional array: a vector written one
  item per line comes back as a column.
\<close>

fun loadtxt_ndmin2 :: "'a ndarray \<Rightarrow> 'a ndarray" where
  "loadtxt_ndmin2 (Vec v) = Mat (map (\<lambda>x. [x]) v)"
| "loadtxt_ndmin2 (Mat rs) = Mat rs"

text \<open>
  \<open>GraphObject.load_txt\<close> is \<open>load\<close> with \<open>np.loadtxt(..., ndmin=2)\<close> in place of
  \<open>np.load\<close>. (\<open>nodes\<close>, \<open>arcs\<close>, \<open>targets\<close> and the \<open>NodeGraph\<close> stack are
  two-dimensional already.)
\<close>

definition load_txt :: "graph_dir \<Rightarrow> string \<Rightarrow> string \<Rightarrow> error + GraphObject" where
  "load_txt dir problem_based aggregation_mode' =
     load (dir\<lparr>f_set_mask := map_option loadtxt_ndmin2 (f_set_mask dir),
               f_output_mask := map_option loadtxt_ndmin2 (f_output_mask dir),
               f_sample_weights := map_option loadtxt_ndmin2 (f_sample_weights dir)\<rparr>)
       problem_based aggregation_mode'"

text \<open>The directory written for \<open>graph2\<close>, and the graph that \<open>load_txt\<close> makes of it.\<close>

definition dir2 :: graph_dir where
  "dir2 = \<lparr>f_arcs = Some arcs2, f_nodes = Some nodes2, f_targets = Some targets2,
           f_set_mask = Some (Vec [1, 0]), f_output_mask = None,
           f_sample_weights = Some (Vec [2, 3]), f_NodeGraph = None\<rparr>"

definition graph2_txt :: GraphObject where
  "graph2_txt = graph2\<lparr>sample_weights := Mat [[2, 2], [3, 3]], set_mask := Mat [[True], [False]]\<rparr>"

subsection \<open>\<open>merge\<close> on a store\<close>

text \<open>
  Whether \<open>merge\<close> changes its inputs depends on which arrays are shared, so this second
  model of \<open>merge\<close> keeps the arrays in a store: a list of cells, the address of an array
  being its index. A \<open>GraphObject\<close> is then the record of the addresses of its arrays, a
  new array is a cell appended to the store, and \<open>elem[:, :2] += k\<close> overwrites the cell of
  \<open>elem\<close>. Only arrays that the source names are cells; the results of
  \<open>np.concatenate\<close> and \<open>block_diag\<close> are used once and become cells when the
  constructor stores them in the new object.
\<close>

datatype cell =
    ArcsCell "arc list"
  | MatCell "real list list"
  | BoolCell "bool ndarray"
  | RealCell "real ndarray"
  | CooCell coo

type_synonym store = "cell list"

text \<open>Reading a cell as an array of the expected kind.\<close>

definition arcs_at :: "store \<Rightarrow> nat \<Rightarrow> arc list" where
  "arcs_at h a = (case h ! a of ArcsCell x \<Rightarrow> x | _ \<Rightarrow> [])"

definition mat_at :: "store \<Rightarrow> nat \<Rightarrow> real list list" where
  "mat_at h a = (case h ! a of MatCell x \<Rightarrow> x | _ \<Rightarrow> [])"

definition bools_at :: "store \<Rightarrow> nat \<Rightarrow> bool ndarray" where
  "bools_at h a = (case h ! a of BoolCell x \<Rightarrow> x | _ \<Rightarrow> Vec [])"

definition reals_at :: "store \<Rightarrow> nat \<Rightarrow> real ndarray" where
  "reals_at h a = (case h ! a of RealCell x \<Rightarrow> x | _ \<Rightarrow> Vec [])"

definition coo_at :: "store \<Rightarrow> nat \<Rightarrow> coo" where
  "coo_at h a = (case h ! a of CooCell x \<Rightarrow> x | _ \<Rightarrow> unset)"

text \<open>A new array; \<open>array.copy()\<close> is a new array with the contents of the old one.\<close>

definition alloc :: "store \<Rightarrow> cell \<Rightarrow> store \<times> nat" where
  "alloc h c = (h @ [c], length h)"

definition copy_at :: "store \<Rightarrow> nat \<Rightarrow> store \<times> nat" where
  "copy_at h a = alloc h (h ! a)"

record GraphRef =
  r_nodes :: nat
  r_arcs :: nat
  r_targets :: nat
  r_sample_weights :: nat
  r_set_mask :: nat
  r_output_mask :: nat
  r_aggregation_mode :: string
  r_ArcNode :: nat
  r_Adjacency :: nat
  r_NodeGraph :: nat

text \<open>The graph that a reference denotes in a store, and references into a store.\<close>

definition graph_at :: "store \<Rightarrow> GraphRef \<Rightarrow> GraphObject" where
  "graph_at h r =
     \<lparr>nodes = mat_at h (r_nodes r), arcs = arcs_at h (r_arcs r), targets = mat_at h (r_targets r),
      sample_weights = reals_at h (r_sample_weights r), set_mask = bools_at h (r_set_mask r),
      output_mask = bools_at h (r_output_mask r), aggregation_mode = r_aggregation_mode r,
      ArcNode = coo_at h (r_ArcNode r), Adjacency = coo_at h (r_Adjacency r),
      NodeGraph = coo_at h (r_NodeGraph r)\<rparr>"

definition ref_in :: "store \<Rightarrow> GraphRef \<Rightarrow> bool" where
  "ref_in h r =
     list_all (\<lambda>a. a < length h)
       [r_nodes r, r_arcs r, r_targets r, r_sample_weights r, r_set_mask r, r_output_mask r,
        r_ArcNode r, r_Adjacency r, r_NodeGraph r]"

datatype glist_ref = GraphAt GraphRef | PathAt string | OtherAt

record data_ref =
  dr_nodes :: nat
  dr_nodes_len :: nat
  dr_arcs :: nat
  dr_targets :: nat
  dr_set_mask :: nat
  dr_output_mask :: nat
  dr_sample_weights :: nat
  dr_nodegraph :: nat

text \<open>
  One tuple of \<open>get_data\<close>: seven getters, each a copy, and \<open>i.nodes.shape[0]\<close> read
  between the first two.
\<close>

definition get_data_one :: "store \<Rightarrow> GraphRef \<Rightarrow> data_ref \<times> store" where
  "get_data_one h i =
     (case copy_at h (r_nodes i) of (h1, n) \<Rightarrow>
      case copy_at h1 (r_arcs i) of (h2, a) \<Rightarrow>
      case copy_at h2 (r_targets i) of (h3, t) \<Rightarrow>
      case copy_at h3 (r_set_mask i) of (h4, sm) \<Rightarrow>
      case copy_at h4 (r_output_mask i) of (h5, om) \<Rightarrow>
      case copy_at h5 (r_sample_weights i) of (h6, sw) \<Rightarrow>
      case copy_at h6 (r_NodeGraph i) of (h7, ng) \<Rightarrow>
        (\<lparr>dr_nodes = n, dr_nodes_len = length (mat_at h1 (r_nodes i)), dr_arcs = a,
          dr_targets = t, dr_set_mask = sm, dr_output_mask = om, dr_sample_weights = sw,
          dr_nodegraph = ng\<rparr>, h7))"

fun get_data_store :: "store \<Rightarrow> glist_ref list \<Rightarrow> (error + data_ref list) \<times> store" where
  "get_data_store h [] = (Inr [], h)"
| "get_data_store h (GraphAt i # x) =
     (case get_data_one h i of (d, h') \<Rightarrow>
      case get_data_store h' x of
        (Inl e, h'') \<Rightarrow> (Inl e, h'')
      | (Inr ds, h'') \<Rightarrow> (Inr (d # ds), h''))"
| "get_data_store h (_ # x) = (Inl AttributeError, h)"

text \<open>
  \<open>for i, elem in enumerate(arcs): elem[:, :2] += sum(nodes_lens[:i])\<close>, in place: the
  cell at the address \<open>elem\<close> is overwritten.
\<close>

fun shift_loop :: "store \<Rightarrow> nat list \<Rightarrow> (nat \<times> nat) list \<Rightarrow> store" where
  "shift_loop h nodes_lens [] = h"
| "shift_loop h nodes_lens ((i, elem) # rest) =
     shift_loop (h[elem := ArcsCell (map (shift_arc (sum_list (take i nodes_lens))) (arcs_at h elem))])
       nodes_lens rest"

definition read_data :: "store \<Rightarrow> data_ref \<Rightarrow> graph_data" where
  "read_data h d =
     \<lparr>gd_nodes = mat_at h (dr_nodes d), gd_nodes_len = dr_nodes_len d,
      gd_arcs = arcs_at h (dr_arcs d), gd_targets = mat_at h (dr_targets d),
      gd_set_mask = bools_at h (dr_set_mask d), gd_output_mask = bools_at h (dr_output_mask d),
      gd_sample_weights = reals_at h (dr_sample_weights d),
      gd_nodegraph = coo_at h (dr_nodegraph d)\<rparr>"

text \<open>The constructor's result as nine new cells and the record of their addresses.\<close>

definition store_graph :: "store \<Rightarrow> GraphObject \<Rightarrow> store \<times> GraphRef" where
  "store_graph h g =
     (h @ [MatCell (nodes g), ArcsCell (arcs g), MatCell (targets g), RealCell (sample_weights g),
           BoolCell (set_mask g), BoolCell (output_mask g), CooCell (ArcNode g),
           CooCell (Adjacency g), CooCell (NodeGraph g)],
      \<lparr>r_nodes = length h, r_arcs = length h + 1, r_targets = length h + 2,
       r_sample_weights = length h + 3, r_set_mask = length h + 4, r_output_mask = length h + 5,
       r_aggregation_mode = aggregation_mode g, r_ArcNode = length h + 6,
       r_Adjacency = length h + 7, r_NodeGraph = length h + 8\<rparr>)"

text \<open>
  \<open>merge\<close> on the store. The result is the exception or the reference of the new graph,
  and the store when the call ends.
\<close>

definition merge_store ::
  "store \<Rightarrow> glist_ref list \<Rightarrow> string \<Rightarrow> string \<Rightarrow> (error + GraphRef) \<times> store" where
  "merge_store h glist problem_based aggregation_mode' =
     (if list_ex (\<lambda>x. x = OtherAt) glist
      then (Inl (TypeError ''type of param <glist> must be list of str path-like or GraphObjects''), h)
      else case get_data_store h glist of
             (Inl e, h1) \<Rightarrow> (Inl e, h1)
           | (Inr ds, h1) \<Rightarrow>
               if ds = []
               then (Inl (ValueError ''not enough values to unpack (expected 8, got 0)''), h1)
               else
                 (let h2 = shift_loop h1 (map dr_nodes_len ds) (enumerate 0 (map dr_arcs ds))
                  in case merge_build (map (\<lambda>d. arcs_at h2 (dr_arcs d)) ds)
                            (map (read_data h2) ds) problem_based aggregation_mode' of
                       Inl e \<Rightarrow> (Inl e, h2)
                     | Inr g \<Rightarrow> (case store_graph h2 g of (h3, r) \<Rightarrow> (Inr r, h3))))"

text \<open>The list of graphs that a list of references denotes.\<close>

fun item_at :: "store \<Rightarrow> glist_ref \<Rightarrow> glist_item" where
  "item_at h (GraphAt r) = Graph (graph_at h r)"
| "item_at h (PathAt p) = Path p"
| "item_at h OtherAt = Other"

fun item_in :: "store \<Rightarrow> glist_ref \<Rightarrow> bool" where
  "item_in h (GraphAt r) = ref_in h r"
| "item_in h (PathAt p) = True"
| "item_in h OtherAt = True"

definition data_addrs :: "data_ref \<Rightarrow> nat list" where
  "data_addrs d =
     [dr_nodes d, dr_arcs d, dr_targets d, dr_set_mask d, dr_output_mask d,
      dr_sample_weights d, dr_nodegraph d]"

text \<open>A store that holds the two small graphs.\<close>

definition store0 :: store where
  "store0 = fst (store_graph (fst (store_graph [] (graph3 ''sum''))) graph2)"

definition ref3 :: GraphRef where
  "ref3 = snd (store_graph [] (graph3 ''sum''))"

definition ref2 :: GraphRef where
  "ref2 = snd (store_graph (fst (store_graph [] (graph3 ''sum''))) graph2)"

section \<open>Verification\<close>

subsection \<open>The incidence matrix\<close>

lemma zip3_nth:
  "length xs = length ys \<Longrightarrow> length ys = length zs \<Longrightarrow>
   zip xs (zip ys zs) = map (\<lambda>k. (xs ! k, ys ! k, zs ! k)) [0..<length xs]"
  by (rule nth_equalityI) auto

lemma sum_list_delta_upt:
  "sum_list (map (\<lambda>k. if k = i \<and> P k then f k else (0::real)) [0..<n]) = (if i < n \<and> P i then f i else 0)"
proof -
  have "sum_list (map (\<lambda>k. if k = i \<and> P k then f k else (0::real)) [0..<n])
        = (\<Sum>k = 0..<n. if k = i then (if P i then f i else 0) else 0)"
    unfolding interv_sum_list_conv_sum_set_nat by (rule sum.cong) auto
  also have "\<dots> = (if i < n \<and> P i then f i else 0)"
    by (simp add: sum.delta)
  finally show ?thesis .
qed

lemma todense_arange:
  assumes "length vs = n" "length cs = n"
  shows "todense \<lparr>data = vs, row = [0..<n], col = cs, shape = s\<rparr> r c
         = (if r < n \<and> cs ! r = c then vs ! r else 0)"
proof -
  have z: "zip vs (zip [0..<n] cs) = map (\<lambda>k. (vs ! k, [0..<n] ! k, cs ! k)) [0..<n]"
    using zip3_nth [of vs "[0..<n]" cs] assms by simp
  have "map (\<lambda>(v, r', c'). if r' = r \<and> c' = c then v else 0) (zip vs (zip [0..<n] cs))
        = map (\<lambda>k. if k = r \<and> cs ! k = c then vs ! k else 0) [0..<n]"
    unfolding z by (simp add: comp_def cong: map_cong)
  then show ?thesis
    by (simp add: todense_def sum_list_delta_upt)
qed

lemma filter_eq_upt: "filter (\<lambda>c. c = x) [0..<n] = (if x < n then [x] else [])"
  by (induction n) auto

lemma index_of_nth: "x \<in> set ys \<Longrightarrow> index_of ys x < length ys \<and> ys ! index_of ys x = x"
  by (induction ys) auto

lemma arcnode_values_average:
  "arcnode_values ''average'' cs = Inr (map (\<lambda>c. 1 / real (count_list cs c)) cs)"
proof -
  let ?val = "sort (remdups cs)"
  have "map2 (\<lambda>v j. v / real (map (count_list cs) ?val ! j)) (replicate (length cs) (1::real)) (map (index_of ?val) cs)
        = map (\<lambda>c. 1 / real (count_list cs c)) cs"
  proof (rule nth_equalityI)
    show "length (map2 (\<lambda>v j. v / real (map (count_list cs) ?val ! j)) (replicate (length cs) (1::real)) (map (index_of ?val) cs))
          = length (map (\<lambda>c. 1 / real (count_list cs c)) cs)" by simp
  next
    fix i assume "i < length (map2 (\<lambda>v j. v / real (map (count_list cs) ?val ! j)) (replicate (length cs) (1::real)) (map (index_of ?val) cs))"
    then have i: "i < length cs" by simp
    then have "cs ! i \<in> set ?val" by simp
    from index_of_nth [OF this] i
    show "map2 (\<lambda>v j. v / real (map (count_list cs) ?val ! j)) (replicate (length cs) (1::real)) (map (index_of ?val) cs) ! i
          = map (\<lambda>c. 1 / real (count_list cs c)) cs ! i"
      by simp
  qed
  then show ?thesis
    by (simp add: arcnode_values_def np_unique_def Let_def)
qed

lemma arcnode_values_length:
  "arcnode_values mode cs = Inr vs \<Longrightarrow> length vs = length cs"
  by (auto simp: arcnode_values_def np_unique_def Let_def split: if_splits)

lemma arcnode_values_nonzero:
  assumes "arcnode_values mode cs = Inr vs" "i < length cs"
  shows "vs ! i \<noteq> 0"
proof (cases "mode = ''average''")
  case True
  have "count_list cs (cs ! i) \<noteq> 0"
    using assms(2) by (simp add: count_list_0_iff)
  with True assms show ?thesis
    by (auto simp: arcnode_values_average)
next
  case False
  with assms show ?thesis
    by (auto simp: arcnode_values_def Let_def split: if_splits)
qed

lemma coo_check_Inr: "coo_check m = Inr m' \<Longrightarrow> m' = m"
  by (auto simp: coo_check_def split: if_splits)

lemma buildArcNode_Inr:
  assumes "buildArcNode g = Inr m"
  shows "\<exists>vs. arcnode_values (aggregation_mode g) (map arc_to (arcs g)) = Inr vs
           \<and> m = \<lparr>data = vs, row = [0..<length (arcs g)], col = map arc_to (arcs g),
                   shape = (length (arcs g), length (nodes g))\<rparr>
           \<and> list_all (\<lambda>a. arc_to a < length (nodes g)) (arcs g)"
proof -
  from assms obtain vs where vs: "arcnode_values (aggregation_mode g) (map arc_to (arcs g)) = Inr vs"
    and c: "coo_check \<lparr>data = vs, row = [0..<length (arcs g)], col = map arc_to (arcs g),
                   shape = (length (arcs g), length (nodes g))\<rparr> = Inr m"
    by (auto simp: buildArcNode_def coo_matrix_def Let_def split: sum.splits)
  have len: "length vs = length (arcs g)" using arcnode_values_length [OF vs] by simp
  from c len have "list_all (\<lambda>a. arc_to a < length (nodes g)) (arcs g)"
    by (auto simp: coo_check_def list_all_iff list_ex_iff split: if_splits)
  with vs coo_check_Inr [OF c] show ?thesis by blast
qed



lemma arcnode_values_succeeds:
  "mode = ''normalized'' \<longrightarrow> cs \<noteq> [] \<Longrightarrow> \<exists>vs. arcnode_values mode cs = Inr vs"
  by (auto simp: arcnode_values_def Let_def split: prod.splits)

lemma buildArcNode_succeeds:
  assumes "list_all (\<lambda>a. arc_to a < length (nodes g)) (arcs g)"
    and "aggregation_mode g = ''normalized'' \<longrightarrow> arcs g \<noteq> []"
  shows "\<exists>m. buildArcNode g = Inr m"
proof -
  from assms(2) obtain vs where vs: "arcnode_values (aggregation_mode g) (map arc_to (arcs g)) = Inr vs"
    using arcnode_values_succeeds [of "aggregation_mode g" "map arc_to (arcs g)"] by auto
  have len: "length vs = length (arcs g)" using arcnode_values_length [OF vs] by simp
  have "coo_check \<lparr>data = vs, row = [0..<length (arcs g)], col = map arc_to (arcs g),
                   shape = (length (arcs g), length (nodes g))\<rparr> =
        Inr \<lparr>data = vs, row = [0..<length (arcs g)], col = map arc_to (arcs g),
                   shape = (length (arcs g), length (nodes g))\<rparr>"
    using assms(1) len by (auto simp: coo_check_def list_all_iff list_ex_iff)
  with vs show ?thesis
    by (simp add: buildArcNode_def coo_matrix_def Let_def)
qed

lemma buildArcNode_todense:
  assumes "buildArcNode g = Inr m"
  shows "todense m r c = (if r < length (arcs g) \<and> arc_to (arcs g ! r) = c then data m ! r else 0)"
proof -
  from buildArcNode_Inr [OF assms] obtain vs where
    vs: "arcnode_values (aggregation_mode g) (map arc_to (arcs g)) = Inr vs"
    and m: "m = \<lparr>data = vs, row = [0..<length (arcs g)], col = map arc_to (arcs g),
                   shape = (length (arcs g), length (nodes g))\<rparr>" by blast
  have len: "length vs = length (arcs g)" using arcnode_values_length [OF vs] by simp
  show ?thesis
    unfolding m using todense_arange [of vs "length (arcs g)" "map arc_to (arcs g)"] len
    by auto
qed

text \<open>
  Claim C1. Whenever \<open>buildArcNode\<close> returns a matrix, its shape is \<open>(A, N)\<close> and, for
  every arc \<open>i\<close>, the only column of row \<open>i\<close> with a nonzero value is the destination node
  of arc \<open>i\<close>. This holds for every mode string (a mode other than \<open>'normalized'\<close> and
  \<open>'average'\<close> is treated as \<open>'sum'\<close>). The matrix is returned whenever every destination
  is a node index below \<open>N\<close> and, in mode \<open>'normalized'\<close>, there is at least one arc.
\<close>

theorem buildArcNode_one_nonzero_per_row:
  "(buildArcNode g = Inr m \<longrightarrow>
      shape m = (length (arcs g), length (nodes g)) \<and>
      (\<forall>i < length (arcs g). nonzero_cols m i = [arc_to (arcs g ! i)]))
   \<and> (list_all (\<lambda>a. arc_to a < length (nodes g)) (arcs g)
        \<and> (aggregation_mode g = ''normalized'' \<longrightarrow> arcs g \<noteq> [])
      \<longrightarrow> (\<exists>m'. buildArcNode g = Inr m'))"
proof (intro conjI impI allI)
  assume b: "buildArcNode g = Inr m"
  from buildArcNode_Inr [OF b] obtain vs where
    vs: "arcnode_values (aggregation_mode g) (map arc_to (arcs g)) = Inr vs"
    and m: "m = \<lparr>data = vs, row = [0..<length (arcs g)], col = map arc_to (arcs g),
                   shape = (length (arcs g), length (nodes g))\<rparr>"
    and wf: "list_all (\<lambda>a. arc_to a < length (nodes g)) (arcs g)" by blast
  show "shape m = (length (arcs g), length (nodes g))" by (simp add: m)
  fix i assume i: "i < length (arcs g)"
  have nz: "data m ! i \<noteq> 0"
    using arcnode_values_nonzero [OF vs, of i] i by (simp add: m)
  have lt: "arc_to (arcs g ! i) < length (nodes g)"
    using wf i by (simp add: list_all_length)
  have "nonzero_cols m i = filter (\<lambda>c. c = arc_to (arcs g ! i)) [0..<length (nodes g)]"
    unfolding nonzero_cols_def buildArcNode_todense [OF b]
    using i nz by (auto simp: m intro!: filter_cong)
  then show "nonzero_cols m i = [arc_to (arcs g ! i)]"
    using lt by (simp add: filter_eq_upt)
next
  assume "list_all (\<lambda>a. arc_to a < length (nodes g)) (arcs g)
        \<and> (aggregation_mode g = ''normalized'' \<longrightarrow> arcs g \<noteq> [])"
  then show "\<exists>m'. buildArcNode g = Inr m'"
    using buildArcNode_succeeds by blast
qed


lemma count_list_map_filter: "count_list (map f xs) y = length (filter (\<lambda>a. f a = y) xs)"
  by (induction xs) auto

lemma length_filter_nth: "length (filter (\<lambda>i. P (xs ! i)) [0..<length xs]) = length (filter P xs)"
proof -
  have "filter P xs = filter P (map (\<lambda>i. xs ! i) [0..<length xs])"
    by (simp add: map_nth)
  also have "\<dots> = map (\<lambda>i. xs ! i) (filter (\<lambda>i. P (xs ! i)) [0..<length xs])"
    by (simp add: filter_map comp_def)
  finally show ?thesis by simp
qed

lemma sum_list_const_on:
  "(\<And>x. x \<in> set xs \<Longrightarrow> f x = (c::real)) \<Longrightarrow> sum_list (map f xs) = real (length xs) * c"
  by (induction xs) (auto simp: algebra_simps)

lemma buildArcNode_average_data:
  assumes "aggregation_mode g = ''average''" "buildArcNode g = Inr m" "i < length (arcs g)"
  shows "data m ! i = 1 / real (in_degree g (arc_to (arcs g ! i)))"
proof -
  from buildArcNode_Inr [OF assms(2)] assms(1) obtain vs where
    vs: "arcnode_values ''average'' (map arc_to (arcs g)) = Inr vs" and m: "data m = vs"
    by auto
  from vs have "vs = map (\<lambda>c. 1 / real (count_list (map arc_to (arcs g)) c)) (map arc_to (arcs g))"
    by (simp add: arcnode_values_average)
  with assms(3) m show ?thesis
    by (simp add: count_list_map_filter in_degree_def)
qed

text \<open>
  Claim C2. In mode \<open>'average'\<close>, for a node \<open>n\<close> of nonzero in-degree, the weights of the
  arcs that end at \<open>n\<close> add up to 1, so does column \<open>n\<close> of the matrix, and the weight
  of each arc is 1 divided by the in-degree of its destination (in exact arithmetic).
\<close>

theorem average_weights_sum_to_one:
  assumes "aggregation_mode g = ''average''"
    and "buildArcNode g = Inr m"
    and "in_degree g n \<noteq> 0"
  shows "sum_list (map (\<lambda>i. data m ! i)
           (filter (\<lambda>i. arc_to (arcs g ! i) = n) [0..<length (arcs g)])) = 1
       \<and> column_sum m n = 1
       \<and> (\<forall>i < length (arcs g). data m ! i = 1 / real (in_degree g (arc_to (arcs g ! i))))"
proof (intro conjI allI impI)
  let ?is = "filter (\<lambda>i. arc_to (arcs g ! i) = n) [0..<length (arcs g)]"
  have each: "data m ! i = 1 / real (in_degree g n)" if "i \<in> set ?is" for i
    using that buildArcNode_average_data [OF assms(1,2), of i] by auto
  have "length ?is = in_degree g n"
    using length_filter_nth [of "\<lambda>a. arc_to a = n" "arcs g"] by (simp add: in_degree_def)
  with sum_list_const_on [of ?is "\<lambda>i. data m ! i" "1 / real (in_degree g n)", OF each] assms(3)
  show s: "sum_list (map (\<lambda>i. data m ! i) ?is) = 1" by simp
  have sh: "fst (shape m) = length (arcs g)"
    using buildArcNode_Inr [OF assms(2)] by auto
  have "column_sum m n = sum_list (map (\<lambda>i. if arc_to (arcs g ! i) = n then data m ! i else 0)
                                       [0..<length (arcs g)])"
    unfolding column_sum_def sh buildArcNode_todense [OF assms(2)]
    by (rule arg_cong [where f = sum_list]) (simp cong: map_cong)
  also have "\<dots> = sum_list (map (\<lambda>i. data m ! i) ?is)"
    by (simp add: sum_list_map_filter')
  finally show "column_sum m n = 1" using s by simp
next
  fix i assume "i < length (arcs g)"
  then show "data m ! i = 1 / real (in_degree g (arc_to (arcs g ! i)))"
    by (rule buildArcNode_average_data [OF assms(1,2)])
qed

lemma arcnode_values_normalized:
  "arcnode_values ''normalized'' cs = Inr vs \<Longrightarrow> vs = replicate (length cs) (1 / real (length cs))"
  by (auto simp: arcnode_values_def Let_def split: if_splits)

text \<open>
  Claim C3. In mode \<open>'normalized'\<close> the matrix stores one weight per arc, every stored
  weight is \<open>1 / A\<close>, and so is every nonzero entry of the matrix.
\<close>

theorem normalized_weights:
  assumes "aggregation_mode g = ''normalized''"
    and "buildArcNode g = Inr m"
  shows "length (data m) = length (arcs g)
       \<and> (\<forall>v \<in> set (data m). v = 1 / real (length (arcs g)))
       \<and> (\<forall>r c. todense m r c \<noteq> 0 \<longrightarrow> todense m r c = 1 / real (length (arcs g)))"
proof -
  from buildArcNode_Inr [OF assms(2)] assms(1) obtain vs where
    vs: "arcnode_values ''normalized'' (map arc_to (arcs g)) = Inr vs" and m: "data m = vs"
    by auto
  have d: "data m = replicate (length (arcs g)) (1 / real (length (arcs g)))"
    using arcnode_values_normalized [OF vs] m by simp
  have "todense m r c = 1 / real (length (arcs g))" if "todense m r c \<noteq> 0" for r c
    using that unfolding buildArcNode_todense [OF assms(2)] by (auto simp: d split: if_splits)
  with d show ?thesis by auto
qed

lemma graph3_init:
  "mode \<in> set [''average'', ''normalized'', ''sum''] \<Longrightarrow>
   GraphObject_init nodes3 arcs3 targets3 ''n'' None None (Scalar 1) None None mode = Inr (graph3 mode)"
  by (auto simp: GraphObject_init_def lenMask_def nodes3_def arcs3_def targets3_def graph3_def
      arcnode3_def buildArcNode_def arcnode_values_def np_unique_def coo_matrix_def coo_check_def
      buildAdjacency_def buildNodeGraph_def coo_empty_def unset_def Let_def upt_rec
      numeral_3_eq_3)

lemma graph3_buildArcNode:
  "buildArcNode (graph3 mode) = Inr (ArcNode (graph3 mode))"
  by (simp add: graph3_def nodes3_def arcs3_def arcnode3_def buildArcNode_def arcnode_values_def
      np_unique_def coo_matrix_def coo_check_def Let_def upt_rec)

theorem buildArcNode_one_nonzero_per_row_witness:
  "buildArcNode (graph3 ''sum'') = Inr (ArcNode (graph3 ''sum''))
   \<and> shape (ArcNode (graph3 ''sum'')) = (3, 3)
   \<and> nonzero_cols (ArcNode (graph3 ''sum'')) 0 = [1]
   \<and> nonzero_cols (ArcNode (graph3 ''sum'')) 1 = [2]
   \<and> nonzero_cols (ArcNode (graph3 ''sum'')) 2 = [2]"
proof -
  have b: "buildArcNode (graph3 ''sum'') = Inr (ArcNode (graph3 ''sum''))"
    by (rule graph3_buildArcNode)
  have a: "arcs (graph3 ''sum'') = arcs3" "nodes (graph3 ''sum'') = nodes3"
    by (simp_all add: graph3_def)
  from buildArcNode_one_nonzero_per_row [of "graph3 ''sum''" "ArcNode (graph3 ''sum'')"] b
  have s: "shape (ArcNode (graph3 ''sum'')) = (length arcs3, length nodes3)"
    and r: "\<And>i. i < length arcs3 \<Longrightarrow> nonzero_cols (ArcNode (graph3 ''sum'')) i = [arc_to (arcs3 ! i)]"
    by (simp_all add: a)
  from s r [of 0] r [of 1] r [of 2] b show ?thesis
    by (simp add: arcs3_def nodes3_def)
qed


theorem average_weights_sum_to_one_witness:
  "aggregation_mode (graph3 ''average'') = ''average''
   \<and> buildArcNode (graph3 ''average'') = Inr (ArcNode (graph3 ''average''))
   \<and> in_degree (graph3 ''average'') 2 \<noteq> 0
   \<and> sum_list (map (\<lambda>i. data (ArcNode (graph3 ''average'')) ! i)
        (filter (\<lambda>i. arc_to (arcs (graph3 ''average'') ! i) = 2)
           [0..<length (arcs (graph3 ''average''))])) = 1
   \<and> column_sum (ArcNode (graph3 ''average'')) 2 = 1"
proof -
  have m: "aggregation_mode (graph3 ''average'') = ''average''"
    by (simp add: graph3_def)
  have b: "buildArcNode (graph3 ''average'') = Inr (ArcNode (graph3 ''average''))"
    by (rule graph3_buildArcNode)
  have d: "in_degree (graph3 ''average'') 2 \<noteq> 0"
    by (simp add: in_degree_def graph3_def arcs3_def)
  from average_weights_sum_to_one [OF m b d] m b d show ?thesis by simp
qed

theorem normalized_weights_witness:
  "aggregation_mode (graph3 ''normalized'') = ''normalized''
   \<and> buildArcNode (graph3 ''normalized'') = Inr (ArcNode (graph3 ''normalized''))
   \<and> length (data (ArcNode (graph3 ''normalized''))) = 3
   \<and> list_all (\<lambda>v. v = 1 / 3) (data (ArcNode (graph3 ''normalized'')))"
proof -
  have m: "aggregation_mode (graph3 ''normalized'') = ''normalized''"
    by (simp add: graph3_def)
  have b: "buildArcNode (graph3 ''normalized'') = Inr (ArcNode (graph3 ''normalized''))"
    by (rule graph3_buildArcNode)
  have a: "length (arcs (graph3 ''normalized'')) = 3"
    by (simp add: graph3_def arcs3_def)
  from normalized_weights [OF m b] m b show ?thesis
    unfolding a list_all_iff by simp
qed

lemma len_astype_bool [simp]: "len (astype_bool x) = len x"
  by (cases x) simp_all

lemma astype_bool_as_float [simp]: "astype_bool (as_float x) = x"
  by (cases x) (simp_all add: comp_def map_idI)

lemma times_ones_error: "times_ones sw n = Inl e \<Longrightarrow> \<exists>msg. e = ValueError msg"
  by (induction sw n rule: times_ones.induct) (auto split: if_splits)

lemma lenMask_dom: "lenMask ns ars pb = None \<longleftrightarrow> pb \<notin> {''n'', ''a'', ''g''}"
  by (simp add: lenMask_def)

text \<open>
  Claim C9. \<open>setAggregation\<close> with an unrecognised mode raises the \<open>ValueError\<close> and
  leaves the object exactly as it was: mode, \<open>ArcNode\<close>, \<open>Adjacency\<close> and every other
  attribute.
\<close>

theorem setAggregation_atomic_on_error:
  "mode \<notin> {''average'', ''normalized'', ''sum''} \<Longrightarrow>
   setAggregation g mode = (Some (ValueError ''ERROR: Unknown aggregation mode''), g)"
  by (simp add: setAggregation_def)

theorem setAggregation_atomic_on_error_witness:
  "''bogus'' \<notin> {''average'', ''normalized'', ''sum''}
   \<and> setAggregation (graph3 ''average'') ''bogus''
       = (Some (ValueError ''ERROR: Unknown aggregation mode''), graph3 ''average'')"
  using setAggregation_atomic_on_error [of "''bogus''" "graph3 ''average''"] by simp

subsection \<open>The constructor and \<open>merge\<close>\<close>

lemma init_Inr:
  assumes "GraphObject_init ns ars ts pb smo omo sw ng an mode = Inr g"
  shows "\<exists>w sm0 an0 adj.
      times_ones sw (length ts) = Inr w
    \<and> (case smo of
          None \<Rightarrow> (case lenMask ns ars pb of
                      None \<Rightarrow> Inl (KeyError pb)
                    | Some n \<Rightarrow> Inr (Vec (replicate n True)))
        | Some sm \<Rightarrow> Inr (astype_bool sm)) = Inr sm0
    \<and> len sm0 = len (case omo of None \<Rightarrow> Vec (replicate (len sm0) True) | Some om' \<Rightarrow> astype_bool om')
    \<and> mode \<in> {''average'', ''normalized'', ''sum''}
    \<and> (case an of None \<Rightarrow> buildArcNode
           \<lparr>nodes = ns, arcs = ars, targets = ts, sample_weights = w,
            set_mask = sm0,
            output_mask = (case omo of None \<Rightarrow> Vec (replicate (len sm0) True) | Some om' \<Rightarrow> astype_bool om'),
            aggregation_mode = mode, ArcNode = unset, Adjacency = unset, NodeGraph = unset\<rparr>
         | Some m \<Rightarrow> Inr m) = Inr an0
    \<and> buildAdjacency
           \<lparr>nodes = ns, arcs = ars, targets = ts, sample_weights = w,
            set_mask = sm0,
            output_mask = (case omo of None \<Rightarrow> Vec (replicate (len sm0) True) | Some om' \<Rightarrow> astype_bool om'),
            aggregation_mode = mode, ArcNode = an0, Adjacency = unset, NodeGraph = unset\<rparr> = Inr adj
    \<and> g = \<lparr>nodes = ns, arcs = ars, targets = ts, sample_weights = w,
            set_mask = sm0,
            output_mask = (case omo of None \<Rightarrow> Vec (replicate (len sm0) True) | Some om' \<Rightarrow> astype_bool om'),
            aggregation_mode = mode, ArcNode = an0, Adjacency = adj,
            NodeGraph = (case ng of
                           None \<Rightarrow> buildNodeGraph
                             \<lparr>nodes = ns, arcs = ars, targets = ts, sample_weights = w,
                              set_mask = sm0,
                              output_mask = (case omo of None \<Rightarrow> Vec (replicate (len sm0) True) | Some om' \<Rightarrow> astype_bool om'),
                              aggregation_mode = mode, ArcNode = an0, Adjacency = adj, NodeGraph = unset\<rparr> pb
                         | Some m \<Rightarrow> m)\<rparr>"
  using assms unfolding GraphObject_init_def Let_def
  by (cases ng) (simp_all split: sum.splits if_splits)

lemma init_fields:
  assumes "GraphObject_init ns ars ts pb smo omo sw ng an mode = Inr g"
  shows "nodes g = ns" and "arcs g = ars" and "targets g = ts"
    and "times_ones sw (length ts) = Inr (sample_weights g)"
    and "aggregation_mode g = mode"
    and "mode \<in> {''average'', ''normalized'', ''sum''}"
    and "len (set_mask g) = len (output_mask g)"
  using init_Inr [OF assms] by auto

lemma init_masks:
  assumes "GraphObject_init ns ars ts pb (Some sm) (Some om) sw ng an mode = Inr g"
  shows "set_mask g = astype_bool sm" and "output_mask g = astype_bool om"
  using init_Inr [OF assms] by auto

lemma init_mask_fields:
  assumes "GraphObject_init ns ars ts pb smo omo sw ng an mode = Inr g"
  shows "(case smo of
            None \<Rightarrow> map_option (\<lambda>n. Vec (replicate n True)) (lenMask ns ars pb)
          | Some sm \<Rightarrow> Some (astype_bool sm)) = Some (set_mask g)"
    and "output_mask g = (case omo of None \<Rightarrow> Vec (replicate (len (set_mask g)) True)
                                     | Some om \<Rightarrow> astype_bool om)"
proof -
  from init_Inr [OF assms] obtain sm0 g0 where
    a: "(case smo of
          None \<Rightarrow> (case lenMask ns ars pb of
                      None \<Rightarrow> Inl (KeyError pb)
                    | Some n \<Rightarrow> Inr (Vec (replicate n True)))
        | Some sm \<Rightarrow> Inr (astype_bool sm)) = Inr sm0"
    and g: "g = g0" "set_mask g0 = sm0"
      "output_mask g0 = (case omo of None \<Rightarrow> Vec (replicate (len sm0) True) | Some om \<Rightarrow> astype_bool om)"
    by (elim exE conjE) simp
  from g show "output_mask g = (case omo of None \<Rightarrow> Vec (replicate (len (set_mask g)) True)
                                     | Some om \<Rightarrow> astype_bool om)" by (cases omo) simp_all
  show "(case smo of
            None \<Rightarrow> map_option (\<lambda>n. Vec (replicate n True)) (lenMask ns ars pb)
          | Some sm \<Rightarrow> Some (astype_bool sm)) = Some (set_mask g)"
  proof (cases smo)
    case None
    with a g show ?thesis by (cases "lenMask ns ars pb") simp_all
  next
    case (Some sm)
    with a g show ?thesis by simp
  qed
qed

lemma init_NodeGraph:
  assumes "GraphObject_init ns ars ts pb smo omo sw (Some m) an mode = Inr g"
  shows "NodeGraph g = m"
  using init_Inr [OF assms] by auto

lemma buildArcNode_cong:
  "arcs g = arcs g' \<Longrightarrow> nodes g = nodes g' \<Longrightarrow> aggregation_mode g = aggregation_mode g' \<Longrightarrow>
   buildArcNode g = buildArcNode g'"
  by (simp add: buildArcNode_def Let_def cong: sum.case_cong)

lemma buildAdjacency_cong:
  "arcs g = arcs g' \<Longrightarrow> nodes g = nodes g' \<Longrightarrow> ArcNode g = ArcNode g' \<Longrightarrow>
   buildAdjacency g = buildAdjacency g'"
  by (simp add: buildAdjacency_def Let_def)

lemma init_matrices:
  assumes "GraphObject_init ns ars ts pb smo omo sw ng an mode = Inr g"
  shows "an = None \<Longrightarrow> buildArcNode g = Inr (ArcNode g)"
    and "buildAdjacency g = Inr (Adjacency g)"
proof -
  from init_Inr [OF assms] obtain g0 an0 g1 adj where
    b: "(case an of None \<Rightarrow> buildArcNode g0 | Some m \<Rightarrow> Inr m) = Inr an0"
    and g0: "arcs g0 = ars" "nodes g0 = ns" "aggregation_mode g0 = mode"
    and a: "buildAdjacency g1 = Inr adj"
    and g1: "arcs g1 = ars" "nodes g1 = ns" "ArcNode g1 = an0"
    and g: "arcs g = ars" "nodes g = ns" "aggregation_mode g = mode" "ArcNode g = an0"
      "Adjacency g = adj"
    by fastforce
  show "buildArcNode g = Inr (ArcNode g)" if "an = None"
    using b that g g0 buildArcNode_cong [of g g0] by simp
  show "buildAdjacency g = Inr (Adjacency g)"
    using a g g1 buildAdjacency_cong [of g g1] by simp
qed

lemma buildAdjacency_Inr:
  assumes "buildAdjacency g = Inr m"
  shows "arcs g \<noteq> []"
    and "m = \<lparr>data = data (ArcNode g), row = map arc_from (arcs g), col = map arc_to (arcs g),
              shape = (length (nodes g), length (nodes g))\<rparr>"
    and "length (data (ArcNode g)) = length (arcs g)"
    and "list_all (\<lambda>a. arc_from a < length (nodes g) \<and> arc_to a < length (nodes g)) (arcs g)"
proof -
  from assms show ne: "arcs g \<noteq> []"
    by (auto simp: buildAdjacency_def Let_def split: if_splits)
  with assms have c: "coo_check \<lparr>data = data (ArcNode g), row = map arc_from (arcs g),
      col = map arc_to (arcs g), shape = (length (nodes g), length (nodes g))\<rparr> = Inr m"
    by (simp add: buildAdjacency_def coo_matrix_def Let_def)
  from coo_check_Inr [OF c] show "m = \<lparr>data = data (ArcNode g), row = map arc_from (arcs g), col = map arc_to (arcs g),
              shape = (length (nodes g), length (nodes g))\<rparr>" .
  from c show len: "length (data (ArcNode g)) = length (arcs g)"
    by (auto simp: coo_check_def split: if_splits)
  with ne have "data (ArcNode g) \<noteq> []" by auto
  with c show "list_all (\<lambda>a. arc_from a < length (nodes g) \<and> arc_to a < length (nodes g)) (arcs g)"
    by (auto simp: coo_check_def list_all_iff list_ex_iff not_le split: if_splits)
qed

lemma init_arcs_wf:
  assumes "GraphObject_init ns ars ts pb smo omo sw ng an mode = Inr g"
  shows "ars \<noteq> []"
    and "list_all (\<lambda>a. arc_from a < length ns \<and> arc_to a < length ns) ars"
proof -
  from init_Inr [OF assms] obtain g1 adj where
    a: "buildAdjacency g1 = Inr adj" and n: "nodes g1 = ns" "arcs g1 = ars"
    by fastforce
  from buildAdjacency_Inr(1) [OF a] n show "ars \<noteq> []" by simp
  from buildAdjacency_Inr(4) [OF a] n
  show "list_all (\<lambda>a. arc_from a < length ns \<and> arc_to a < length ns) ars" by simp
qed

lemma get_data_Inr:
  "get_data glist = Inr ds \<Longrightarrow>
   \<exists>gs. glist = map Graph gs
      \<and> map gd_nodes ds = map nodes gs \<and> map gd_nodes_len ds = map (\<lambda>g. length (nodes g)) gs
      \<and> map gd_arcs ds = map arcs gs \<and> map gd_targets ds = map targets gs
      \<and> map gd_set_mask ds = map set_mask gs \<and> map gd_output_mask ds = map output_mask gs
      \<and> map gd_sample_weights ds = map sample_weights gs
      \<and> map gd_nodegraph ds = map NodeGraph gs"
proof (induction glist arbitrary: ds)
  case Nil
  then show ?case by simp
next
  case (Cons item x)
  from Cons.prems obtain i where item: "item = Graph i"
    by (cases item) simp_all
  from Cons.prems obtain ds' where ds': "get_data x = Inr ds'"
    and ds: "ds = \<lparr>gd_nodes = getNodes i, gd_nodes_len = length (nodes i), gd_arcs = getArcs i,
                gd_targets = getTargets i, gd_set_mask = getSetMask i,
                gd_output_mask = getOutputMask i, gd_sample_weights = getSampleWeights i,
                gd_nodegraph = getNodeGraph i\<rparr> # ds'"
    by (auto simp: item split: sum.splits)
  from Cons.IH [OF ds'] obtain gs where gs: "x = map Graph gs"
      "map gd_nodes ds' = map nodes gs" "map gd_nodes_len ds' = map (\<lambda>g. length (nodes g)) gs"
      "map gd_arcs ds' = map arcs gs" "map gd_targets ds' = map targets gs"
      "map gd_set_mask ds' = map set_mask gs" "map gd_output_mask ds' = map output_mask gs"
      "map gd_sample_weights ds' = map sample_weights gs"
      "map gd_nodegraph ds' = map NodeGraph gs"
    by blast
  show ?case
    by (rule exI [of _ "i # gs"])
       (simp add: item ds gs getNodes_def getArcs_def getTargets_def getSetMask_def
          getOutputMask_def getSampleWeights_def getNodeGraph_def)
qed

lemma concatenate_Inr: "concatenate xs = Inr y \<Longrightarrow> y = concat xs"
  by (auto simp: concatenate_def split: if_splits)

lemma concatenate_arcs_Inr: "concatenate_arcs xs = Inr y \<Longrightarrow> y = concat xs"
  by (auto simp: concatenate_arcs_def split: if_splits)

lemma merge_build_Inr:
  assumes "merge_build arcs' ds pb mode = Inr g"
  shows "arcs g = concat arcs'"
    and "nodes g = concat (map gd_nodes ds)"
    and "targets g = concat (map gd_targets ds)"
    and "concatenate_nd (map gd_set_mask ds) = Inr (set_mask g)"
    and "concatenate_nd (map gd_output_mask ds) = Inr (output_mask g)"
    and "\<exists>w. concatenate_nd (map gd_sample_weights ds) = Inr w
            \<and> times_ones (Array w) (length (targets g)) = Inr (sample_weights g)"
    and "block_diag (map gd_nodegraph ds) = Inr (NodeGraph g)"
    and "aggregation_mode g = mode"
    and "buildArcNode g = Inr (ArcNode g)"
    and "buildAdjacency g = Inr (Adjacency g)"
proof -
  from assms obtain a n t sm om w ngr where
    a: "concatenate_arcs arcs' = Inr a" and n: "concatenate (map gd_nodes ds) = Inr n"
    and t: "concatenate (map gd_targets ds) = Inr t"
    and sm: "concatenate_nd (map gd_set_mask ds) = Inr sm"
    and om: "concatenate_nd (map gd_output_mask ds) = Inr om"
    and w: "concatenate_nd (map gd_sample_weights ds) = Inr w"
    and ngr: "block_diag (map gd_nodegraph ds) = Inr ngr"
    and i: "GraphObject_init n a t pb (Some (as_float sm)) (Some (as_float om)) (Array w)
              (Some ngr) None mode = Inr g"
    unfolding merge_build_def by (simp split: sum.splits)
  from init_fields [OF i] concatenate_arcs_Inr [OF a] concatenate_Inr [OF n] concatenate_Inr [OF t]
  show "arcs g = concat arcs'" "nodes g = concat (map gd_nodes ds)"
    "targets g = concat (map gd_targets ds)" "aggregation_mode g = mode"
    by simp_all
  from init_masks [OF i] sm om
  show "concatenate_nd (map gd_set_mask ds) = Inr (set_mask g)"
    "concatenate_nd (map gd_output_mask ds) = Inr (output_mask g)" by simp_all
  from init_fields(3,4) [OF i] w
  show "\<exists>w. concatenate_nd (map gd_sample_weights ds) = Inr w
            \<and> times_ones (Array w) (length (targets g)) = Inr (sample_weights g)" by simp
  from init_NodeGraph [OF i] ngr show "block_diag (map gd_nodegraph ds) = Inr (NodeGraph g)" by simp
  from init_matrices [OF i] show "buildArcNode g = Inr (ArcNode g)"
    and "buildAdjacency g = Inr (Adjacency g)" by simp_all
qed

lemma merge_Inr:
  assumes "merge glist pb mode = Inr g"
  shows "\<exists>gs. glist = map Graph gs \<and> gs \<noteq> []
     \<and> nodes g = concat (map nodes gs)
     \<and> arcs g = concat (shift_all (map (\<lambda>g. length (nodes g)) gs) (map arcs gs))
     \<and> targets g = concat (map targets gs)
     \<and> concatenate_nd (map set_mask gs) = Inr (set_mask g)
     \<and> concatenate_nd (map output_mask gs) = Inr (output_mask g)
     \<and> (\<exists>w. concatenate_nd (map sample_weights gs) = Inr w
            \<and> times_ones (Array w) (length (targets g)) = Inr (sample_weights g))
     \<and> block_diag (map NodeGraph gs) = Inr (NodeGraph g)
     \<and> aggregation_mode g = mode"
proof -
  from assms obtain ds where ds: "get_data glist = Inr ds" and ne: "ds \<noteq> []"
    and b: "merge_build (shift_all (map gd_nodes_len ds) (map gd_arcs ds)) ds pb mode = Inr g"
    unfolding merge_def by (simp split: sum.splits if_splits)
  from get_data_Inr [OF ds] obtain gs where gs: "glist = map Graph gs"
      "map gd_nodes ds = map nodes gs" "map gd_nodes_len ds = map (\<lambda>g. length (nodes g)) gs"
      "map gd_arcs ds = map arcs gs" "map gd_targets ds = map targets gs"
      "map gd_set_mask ds = map set_mask gs" "map gd_output_mask ds = map output_mask gs"
      "map gd_sample_weights ds = map sample_weights gs"
      "map gd_nodegraph ds = map NodeGraph gs"
    by blast
  from gs(2) ne have "gs \<noteq> []" by auto
  with merge_build_Inr [OF b] gs show ?thesis
    by (intro exI [of _ gs]) simp
qed

lemma bit_length_le: "n < 2 ^ k \<Longrightarrow> bit_length n \<le> k"
proof (induction k arbitrary: n)
  case 0
  then show ?case by (simp add: bit_length.simps)
next
  case (Suc k)
  show ?case
  proof (cases "n = 0")
    case True
    then show ?thesis by (simp add: bit_length.simps)
  next
    case False
    from Suc.prems have "n div 2 < 2 ^ k" by auto
    from Suc.IH [OF this] False show ?thesis
      by (subst bit_length.simps) simp
  qed
qed

lemma bit_length_gt: "2 ^ k \<le> n \<Longrightarrow> k < bit_length n"
proof (induction k arbitrary: n)
  case 0
  then show ?case by (subst bit_length.simps) auto
next
  case (Suc k)
  then have "2 ^ k \<le> n div 2" by auto
  moreover have "n \<noteq> 0"
  proof
    assume "n = 0"
    with Suc.prems show False by simp
  qed
  ultimately show ?case
    using Suc.IH [of "n div 2"] by (subst bit_length.simps) simp
qed


lemma float32_exact: "n \<le> 2 ^ 24 \<Longrightarrow> float32 n = n"
proof (cases "n < 2 ^ 24")
  case True
  from bit_length_le [OF this] show ?thesis
    by (simp add: float32_def)
next
  case False
  assume "n \<le> 2 ^ 24"
  with False have n: "n = 2 ^ 24" by simp
  have "bit_length n = 25"
    using bit_length_gt [of 24 n] bit_length_le [of n 25] by (simp add: n)
  then show ?thesis
    by (simp add: float32_def Let_def n)
qed




lemma float32_example: "float32 16777217 = 16777216"
  by (simp add: float32_def bit_length.simps Let_def)

lemma shift_arc_exact:
  assumes "arc_from a + k < 2 ^ 24" "arc_to a + k < 2 ^ 24"
  shows "shift_arc k a = \<lparr>arc_from = arc_from a + k, arc_to = arc_to a + k, arc_label = arc_label a\<rparr>"
proof -
  from assms have "k \<le> 2 ^ 24" by simp
  then have "float32 k = k" by (rule float32_exact)
  with assms show ?thesis
    by (simp add: shift_arc_def float32_exact)
qed


lemma shift_all_two:
  "shift_all [n1, n2] [a1, a2] = [map (shift_arc 0) a1, map (shift_arc n1) a2]"
  by (simp add: shift_all_def)


lemma block_diag_parts_valid:
  assumes "list_all coo_valid mats" "block_diag_parts r c mats = (d, rs, cs, s)"
  shows "length rs = length d \<and> length cs = length d
       \<and> list_all (\<lambda>x. x < fst s) rs \<and> list_all (\<lambda>x. x < snd s) cs
       \<and> r \<le> fst s \<and> c \<le> snd s"
  using assms
proof (induction mats arbitrary: r c d rs cs s)
  case Nil
  then show ?case by auto
next
  case (Cons a mats)
  obtain d' rs' cs' s' where p: "block_diag_parts (r + fst (shape a)) (c + snd (shape a)) mats = (d', rs', cs', s')"
    by (cases "block_diag_parts (r + fst (shape a)) (c + snd (shape a)) mats") auto
  from Cons.prems p have eq: "d = data a @ d'" "rs = map (\<lambda>x. x + r) (row a) @ rs'"
    "cs = map (\<lambda>x. x + c) (col a) @ cs'" "s = s'" by simp_all
  from Cons.prems have va: "coo_valid a" and vm: "list_all coo_valid mats" by simp_all
  from Cons.IH [OF vm p] have ih: "length rs' = length d'" "length cs' = length d'"
    "list_all (\<lambda>x. x < fst s') rs'" "list_all (\<lambda>x. x < snd s') cs'"
    "r + fst (shape a) \<le> fst s'" "c + snd (shape a) \<le> snd s'" by simp_all
  from va ih(5,6) have "list_all (\<lambda>x. x < fst s') (map (\<lambda>x. x + r) (row a))"
    "list_all (\<lambda>x. x < snd s') (map (\<lambda>x. x + c) (col a))"
    by (auto simp: coo_valid_def list_all_iff)
  with va ih show ?case
    by (simp add: eq coo_valid_def)
qed

lemma coo_check_valid:
  "length (row m) = length (data m) \<Longrightarrow> length (col m) = length (data m) \<Longrightarrow>
   list_all (\<lambda>r. r < fst (shape m)) (row m) \<Longrightarrow> list_all (\<lambda>c. c < snd (shape m)) (col m) \<Longrightarrow>
   coo_check m = Inr m"
  by (auto simp: coo_check_def list_all_iff list_ex_iff)

lemma block_diag_succeeds:
  assumes "list_all coo_valid mats" "mats \<noteq> []"
  shows "\<exists>m. block_diag mats = Inr m"
proof -
  obtain d rs cs s where p: "block_diag_parts 0 0 mats = (d, rs, cs, s)"
    by (cases "block_diag_parts 0 0 mats") auto
  from block_diag_parts_valid [OF assms(1) p]
  have "coo_check \<lparr>data = d, row = rs, col = cs, shape = s\<rparr> = Inr \<lparr>data = d, row = rs, col = cs, shape = s\<rparr>"
    by (intro coo_check_valid) simp_all
  with p assms(2) show ?thesis
    by (simp add: block_diag_def coo_matrix_def)
qed

lemma init_succeeds:
  assumes w: "times_ones sw (length ts) = Inr w"
    and l: "len sm = len om"
    and m: "mode \<in> {''average'', ''normalized'', ''sum''}"
    and ne: "ars \<noteq> []"
    and wf: "list_all (\<lambda>a. arc_from a < length ns \<and> arc_to a < length ns) ars"
  shows "\<exists>g. GraphObject_init ns ars ts pb (Some sm) (Some om) sw (Some ngr) None mode = Inr g"
proof -
  define g0 where "g0 = \<lparr>nodes = ns, arcs = ars, targets = ts, sample_weights = w,
            set_mask = astype_bool sm, output_mask = astype_bool om,
            aggregation_mode = mode, ArcNode = unset, Adjacency = unset, NodeGraph = unset\<rparr>"
  have "list_all (\<lambda>a. arc_to a < length (nodes g0)) (arcs g0)"
    using wf by (simp add: g0_def list_all_iff)
  moreover have "aggregation_mode g0 = ''normalized'' \<longrightarrow> arcs g0 \<noteq> []"
    using ne by (simp add: g0_def)
  ultimately obtain an0 where an0: "buildArcNode g0 = Inr an0"
    using buildArcNode_succeeds by blast
  from buildArcNode_Inr [OF an0] arcnode_values_length
  have len: "length (data an0) = length ars"
    by (auto simp: g0_def)
  have "coo_check \<lparr>data = data an0, row = map arc_from ars, col = map arc_to ars,
           shape = (length ns, length ns)\<rparr> =
        Inr \<lparr>data = data an0, row = map arc_from ars, col = map arc_to ars,
           shape = (length ns, length ns)\<rparr>"
    using wf len by (intro coo_check_valid) (simp_all add: list_all_iff)
  then have "\<exists>adj. buildAdjacency (g0\<lparr>ArcNode := an0\<rparr>) = Inr adj"
    using ne by (simp add: buildAdjacency_def coo_matrix_def g0_def)
  then obtain adj where adj: "buildAdjacency (g0\<lparr>ArcNode := an0\<rparr>) = Inr adj" ..
  show ?thesis
    using w l m an0 adj unfolding GraphObject_init_def g0_def
    by (simp add: Let_def)
qed

lemma graph2_init:
  "GraphObject_init nodes2 arcs2 targets2 ''n'' (Some (Vec [1, 0])) None (Array (Vec [2, 3]))
     None None ''sum'' = Inr graph2"
  by (simp add: GraphObject_init_def lenMask_def nodes2_def arcs2_def targets2_def graph2_def
      buildArcNode_def arcnode_values_def coo_matrix_def coo_check_def
      buildAdjacency_def buildNodeGraph_def coo_empty_def unset_def Let_def upt_rec
      broadcastable_def broadcast_row_def)

lemma lenMask_Some:
  "pb \<in> {''n'', ''a'', ''g''} \<Longrightarrow>
   lenMask ns ars pb = Some (if pb = ''a'' then length ars else length ns)"
  by (auto simp: lenMask_def)

text \<open>
  Claim C7, as stated, fails when no \<open>set_mask\<close> is passed and \<open>problem_based\<close> is not a key
  of \<open>lenMask\<close>: the dictionary lookup comes before both checks, so an unrecognised mode, or
  an \<open>output_mask\<close> that cannot match, is answered with \<open>KeyError\<close> and not with the
  \<open>ValueError\<close> of the validation.
\<close>

theorem unknown_mode_KeyError_counterexample:
  "GraphObject_init nodes3 arcs3 targets3 ''x'' None None (Scalar 1) None None ''bogus''
     = Inl (KeyError ''x'')
   \<and> GraphObject_init nodes3 arcs3 targets3 ''x'' None (Some (Vec [1, 1])) (Scalar 1) None None ''bogus''
     = Inl (KeyError ''x'')
   \<and> GraphObject_init nodes3 arcs3 targets3 ''x'' None None (Scalar 1) None None ''bogus''
     \<noteq> Inl (ValueError ''ERROR: Unknown aggregation mode'')"
  by (simp add: GraphObject_init_def lenMask_def)

text \<open>
  Claim C7, amended. The constructor raises \<open>ValueError\<close> when the two masks differ in length:
  when both are passed, and when \<open>set_mask\<close> is left out (it then has one entry per node, or
  per arc for \<open>problem_based = 'a'\<close>) and the \<open>output_mask\<close> passed has another length. It
  raises \<open>ValueError\<close> for a mode outside \<open>'average'\<close>, \<open>'normalized'\<close>, \<open>'sum'\<close> whenever a
  \<open>set_mask\<close> is passed or \<open>problem_based\<close> is one of \<open>'n'\<close>, \<open>'a'\<close>, \<open>'g'\<close>; with no
  \<open>set_mask\<close> and another \<open>problem_based\<close> it raises \<open>KeyError\<close> (or the \<open>ValueError\<close> of
  weights that do not broadcast). \<open>setAggregation\<close> with such a mode raises the
  \<open>ValueError\<close>. Nothing is corrected silently: an object that the constructor returns
  has the mode that was passed, which is a recognised one, the masks that were passed
  (converted to \<open>bool\<close>) or their all-true defaults, and masks of one length.
\<close>

theorem validation_errors:
  "(len sm \<noteq> len om \<longrightarrow>
      (\<exists>msg. GraphObject_init ns ars ts pb (Some sm) (Some om) sw ng an mode = Inl (ValueError msg)))
   \<and> (pb \<in> {''n'', ''a'', ''g''} \<and> len om \<noteq> (if pb = ''a'' then length ars else length ns) \<longrightarrow>
      (\<exists>msg. GraphObject_init ns ars ts pb None (Some om) sw ng an mode = Inl (ValueError msg)))
   \<and> (mode \<notin> {''average'', ''normalized'', ''sum''} \<and> (smo \<noteq> None \<or> pb \<in> {''n'', ''a'', ''g''}) \<longrightarrow>
        (\<exists>msg. GraphObject_init ns ars ts pb smo omo sw ng an mode = Inl (ValueError msg)))
   \<and> (pb \<notin> {''n'', ''a'', ''g''} \<longrightarrow>
        GraphObject_init ns ars ts pb None omo (Scalar s) ng an mode = Inl (KeyError pb)
        \<and> ((\<exists>msg. GraphObject_init ns ars ts pb None omo sw ng an mode = Inl (ValueError msg))
             \<or> GraphObject_init ns ars ts pb None omo sw ng an mode = Inl (KeyError pb)))
   \<and> (mode \<notin> {''average'', ''normalized'', ''sum''} \<longrightarrow>
        fst (setAggregation g mode) = Some (ValueError ''ERROR: Unknown aggregation mode''))
   \<and> (GraphObject_init ns ars ts pb smo omo sw ng an mode = Inr g' \<longrightarrow>
        aggregation_mode g' = mode \<and> mode \<in> {''average'', ''normalized'', ''sum''}
        \<and> len (set_mask g') = len (output_mask g')
        \<and> (\<forall>m. smo = Some m \<longrightarrow> set_mask g' = astype_bool m)
        \<and> (smo = None \<longrightarrow> pb \<in> {''n'', ''a'', ''g''}
              \<and> set_mask g' = Vec (replicate (if pb = ''a'' then length ars else length ns) True))
        \<and> (\<forall>m. omo = Some m \<longrightarrow> output_mask g' = astype_bool m \<and> len m = len (set_mask g'))
        \<and> (omo = None \<longrightarrow> output_mask g' = Vec (replicate (len (set_mask g')) True)))"
proof (intro conjI impI allI)
  assume "len sm \<noteq> len om"
  then show "\<exists>msg. GraphObject_init ns ars ts pb (Some sm) (Some om) sw ng an mode = Inl (ValueError msg)"
    by (cases "times_ones sw (length ts)")
       (auto simp: GraphObject_init_def dest: times_ones_error)
next
  assume a: "pb \<in> {''n'', ''a'', ''g''} \<and> len om \<noteq> (if pb = ''a'' then length ars else length ns)"
  then have lm: "lenMask ns ars pb = Some (if pb = ''a'' then length ars else length ns)"
    by (intro lenMask_Some) simp
  from a have ne: "(if pb = ''a'' then length ars else length ns) \<noteq> len om" by auto
  show "\<exists>msg. GraphObject_init ns ars ts pb None (Some om) sw ng an mode = Inl (ValueError msg)"
  proof (cases "times_ones sw (length ts)")
    case (Inl e)
    then show ?thesis by (auto simp: GraphObject_init_def dest: times_ones_error)
  next
    case (Inr w)
    with lm ne show ?thesis by (simp add: GraphObject_init_def Let_def)
  qed
next
  assume a: "mode \<notin> {''average'', ''normalized'', ''sum''} \<and> (smo \<noteq> None \<or> pb \<in> {''n'', ''a'', ''g''})"
  then have bad: "mode \<notin> {''average'', ''normalized'', ''sum''}" ..
  from a have ok: "smo \<noteq> None \<or> lenMask ns ars pb \<noteq> None"
    using lenMask_dom [of ns ars pb] by auto
  show "\<exists>msg. GraphObject_init ns ars ts pb smo omo sw ng an mode = Inl (ValueError msg)"
  proof (cases "times_ones sw (length ts)")
    case (Inl e)
    then show ?thesis
      by (auto simp: GraphObject_init_def dest: times_ones_error)
  next
    case (Inr w)
    show ?thesis
    proof (cases smo)
      case None
      with ok obtain n where "lenMask ns ars pb = Some n" by auto
      with None Inr bad show ?thesis
        by (simp add: GraphObject_init_def Let_def)
    next
      case (Some m)
      with Inr bad show ?thesis
        by (simp add: GraphObject_init_def Let_def)
    qed
  qed
next
  assume k: "pb \<notin> {''n'', ''a'', ''g''}"
  then have lm: "lenMask ns ars pb = None" by (simp add: lenMask_dom)
  then show "GraphObject_init ns ars ts pb None omo (Scalar s) ng an mode = Inl (KeyError pb)"
    by (simp add: GraphObject_init_def)
  show "(\<exists>msg. GraphObject_init ns ars ts pb None omo sw ng an mode = Inl (ValueError msg))
      \<or> GraphObject_init ns ars ts pb None omo sw ng an mode = Inl (KeyError pb)"
  proof (cases "times_ones sw (length ts)")
    case (Inl e)
    then show ?thesis by (auto simp: GraphObject_init_def dest: times_ones_error)
  next
    case (Inr w)
    with lm show ?thesis by (simp add: GraphObject_init_def)
  qed
next
  assume "mode \<notin> {''average'', ''normalized'', ''sum''}"
  then show "fst (setAggregation g mode) = Some (ValueError ''ERROR: Unknown aggregation mode'')"
    by (simp add: setAggregation_def)
next
  assume i: "GraphObject_init ns ars ts pb smo omo sw ng an mode = Inr g'"
  from init_fields [OF i]
  show "aggregation_mode g' = mode" and "mode \<in> {''average'', ''normalized'', ''sum''}"
    and "len (set_mask g') = len (output_mask g')" by simp_all
  note M = init_mask_fields [OF i]
  show "set_mask g' = astype_bool m" if "smo = Some m" for m
    using M(1) that by simp
  show "output_mask g' = astype_bool m" if "omo = Some m" for m
    using M(2) that by simp
  then show "len m = len (set_mask g')" if "omo = Some m" for m
    using that init_fields(7) [OF i] by simp
  show "output_mask g' = Vec (replicate (len (set_mask g')) True)" if "omo = None"
    using M(2) that by simp
  show pbk: "pb \<in> {''n'', ''a'', ''g''}" if "smo = None"
  proof (rule ccontr)
    assume "pb \<notin> {''n'', ''a'', ''g''}"
    then have "lenMask ns ars pb = None" by (simp add: lenMask_dom)
    with M(1) that show False by simp
  qed
  show "set_mask g' = Vec (replicate (if pb = ''a'' then length ars else length ns) True)" if "smo = None"
    using M(1) that lenMask_Some [OF pbk [OF that], of ns ars] by simp
qed

theorem validation_errors_witness:
  "len (Vec [1, 0, 1 :: real]) \<noteq> len (Vec [1, 1 :: real])
   \<and> (\<exists>msg. GraphObject_init nodes3 arcs3 targets3 ''n'' (Some (Vec [1, 0, 1])) (Some (Vec [1, 1]))
               (Scalar 1) None None ''bogus'' = Inl (ValueError msg))
   \<and> len (Vec [1, 1 :: real]) \<noteq> length nodes3
   \<and> (\<exists>msg. GraphObject_init nodes3 arcs3 targets3 ''n'' None (Some (Vec [1, 1]))
               (Scalar 1) None None ''bogus'' = Inl (ValueError msg))
   \<and> ''bogus'' \<notin> {''average'', ''normalized'', ''sum''}
   \<and> (\<exists>msg. GraphObject_init nodes3 arcs3 targets3 ''n'' None None
               (Scalar 1) None None ''bogus'' = Inl (ValueError msg))
   \<and> ''x'' \<notin> {''n'', ''a'', ''g''}
   \<and> GraphObject_init nodes3 arcs3 targets3 ''x'' None None (Scalar 1) None None ''bogus''
        = Inl (KeyError ''x'')
   \<and> fst (setAggregation (graph3 ''sum'') ''bogus'') = Some (ValueError ''ERROR: Unknown aggregation mode'')
   \<and> GraphObject_init nodes2 arcs2 targets2 ''n'' (Some (Vec [1, 0])) None (Array (Vec [2, 3]))
        None None ''sum'' = Inr graph2
   \<and> set_mask graph2 = Vec [True, False]
   \<and> output_mask graph2 = Vec [True, True]
   \<and> aggregation_mode graph2 = ''sum''"
proof -
  have l: "len (Vec [1, 0, 1 :: real]) \<noteq> len (Vec [1, 1 :: real])" by simp
  have l2: "len (Vec [1, 1 :: real]) \<noteq> length nodes3" by (simp add: nodes3_def)
  have b: "''bogus'' \<notin> {''average'', ''normalized'', ''sum''}" by simp
  have x: "''x'' \<notin> {''n'', ''a'', ''g''}" by simp
  from validation_errors [where sm = "Vec [1, 0, 1]" and om = "Vec [1, 1]" and ns = nodes3
      and ars = arcs3 and ts = targets3 and pb = "''n''" and sw = "Scalar 1" and ng = None
      and an = None and mode = "''bogus''" and smo = None and omo = None
      and g = "graph3 ''sum''"] l l2 b
  have 1: "\<exists>msg. GraphObject_init nodes3 arcs3 targets3 ''n'' (Some (Vec [1, 0, 1])) (Some (Vec [1, 1]))
               (Scalar 1) None None ''bogus'' = Inl (ValueError msg)"
    and 2: "\<exists>msg. GraphObject_init nodes3 arcs3 targets3 ''n'' None (Some (Vec [1, 1]))
               (Scalar 1) None None ''bogus'' = Inl (ValueError msg)"
    and 3: "\<exists>msg. GraphObject_init nodes3 arcs3 targets3 ''n'' None None
               (Scalar 1) None None ''bogus'' = Inl (ValueError msg)"
    and 4: "fst (setAggregation (graph3 ''sum'') ''bogus'') = Some (ValueError ''ERROR: Unknown aggregation mode'')"
    by simp_all
  from validation_errors [where ns = nodes3 and ars = arcs3 and ts = targets3 and pb = "''x''"
      and s = 1 and ng = None and an = None and mode = "''bogus''" and omo = None] x
  have 5: "GraphObject_init nodes3 arcs3 targets3 ''x'' None None (Scalar 1) None None ''bogus''
        = Inl (KeyError ''x'')"
    by simp
  from validation_errors [where ns = nodes2 and ars = arcs2 and ts = targets2 and pb = "''n''"
      and sw = "Array (Vec [2, 3])" and ng = None and an = None and mode = "''sum''"
      and smo = "Some (Vec [1, 0])" and omo = None and g' = graph2] graph2_init
  have 6: "set_mask graph2 = Vec [True, False]" "output_mask graph2 = Vec [True, True]"
    "aggregation_mode graph2 = ''sum''"
    by simp_all
  from l l2 b x 1 2 3 4 5 6 graph2_init show ?thesis by simp
qed

lemma concatenate_nd_Vec2: "concatenate_nd [Vec a, Vec b] = Inr (Vec (a @ b))"
  by (simp add: concatenate_nd_def)

lemma arc_label_shift [simp]: "arc_label (shift_arc k a) = arc_label a"
  by (simp add: shift_arc_def)

lemma same_width_shift:
  "map arc_label (map (shift_arc k) xs) = map arc_label xs"
  by (simp add: comp_def)

lemma merge_two_succeeds_shifted:
  assumes g1: "wf_graph g1" and g2: "wf_graph g2"
    and wn: "same_width (nodes g1 @ nodes g2)"
    and wa: "same_width (map arc_label (arcs g1 @ arcs g2))"
    and wt: "same_width (targets g1 @ targets g2)"
    and m: "mode \<in> {''average'', ''normalized'', ''sum''}"
    and sh: "list_all (\<lambda>a. arc_from a < length (nodes g1) + length (nodes g2)
                           \<and> arc_to a < length (nodes g1) + length (nodes g2))
               (map (shift_arc 0) (arcs g1) @ map (shift_arc (length (nodes g1))) (arcs g2))"
  shows "\<exists>g. merge [Graph g1, Graph g2] pb mode = Inr g"
proof -
  from g1 obtain sm1 om1 w1 where v1: "set_mask g1 = Vec sm1" "output_mask g1 = Vec om1"
      "sample_weights g1 = Vec w1"
    by (cases "set_mask g1"; cases "output_mask g1"; cases "sample_weights g1")
       (auto simp: wf_graph_def)
  from g2 obtain sm2 om2 w2 where v2: "set_mask g2 = Vec sm2" "output_mask g2 = Vec om2"
      "sample_weights g2 = Vec w2"
    by (cases "set_mask g2"; cases "output_mask g2"; cases "sample_weights g2")
       (auto simp: wf_graph_def)
  from g1 g2 v1 v2 have lens: "length sm1 = length om1" "length sm2 = length om2"
      "length w1 = length (targets g1)" "length w2 = length (targets g2)"
    by (simp_all add: wf_graph_def)
  let ?arcs = "map (shift_arc 0) (arcs g1) @ map (shift_arc (length (nodes g1))) (arcs g2)"
  let ?nodes = "nodes g1 @ nodes g2"
  let ?targets = "targets g1 @ targets g2"
  have ca: "concatenate_arcs [map (shift_arc 0) (arcs g1), map (shift_arc (length (nodes g1))) (arcs g2)]
      = Inr ?arcs"
    using wa by (simp add: concatenate_arcs_def comp_def)
  have cn: "concatenate [nodes g1, nodes g2] = Inr ?nodes"
    using wn by (simp add: concatenate_def)
  have ct: "concatenate [targets g1, targets g2] = Inr ?targets"
    using wt by (simp add: concatenate_def)
  from g1 g2 have "list_all coo_valid [NodeGraph g1, NodeGraph g2]"
    by (simp add: wf_graph_def)
  from block_diag_succeeds [OF this] obtain ngr where
    ngr: "block_diag [NodeGraph g1, NodeGraph g2] = Inr ngr" by auto
  have w: "times_ones (Array (Vec (w1 @ w2))) (length ?targets) = Inr (Vec (w1 @ w2))"
    using lens by (simp add: broadcastable_def broadcast_row_def)
  have l: "len (as_float (Vec (sm1 @ sm2))) = len (as_float (Vec (om1 @ om2)))"
    using lens by simp
  have ne: "?arcs \<noteq> []" using g1 by (simp add: wf_graph_def)
  have wf: "list_all (\<lambda>a. arc_from a < length ?nodes \<and> arc_to a < length ?nodes) ?arcs"
    using sh by simp
  from init_succeeds [OF w l m ne wf] obtain g where
    "GraphObject_init ?nodes ?arcs ?targets pb (Some (as_float (Vec (sm1 @ sm2))))
       (Some (as_float (Vec (om1 @ om2)))) (Array (Vec (w1 @ w2))) (Some ngr) None mode = Inr g"
    by blast
  then have "merge [Graph g1, Graph g2] pb mode = Inr g"
    using ca cn ct ngr v1 v2
    by (simp add: merge_def merge_build_def shift_all_two getNodes_def getArcs_def
        getTargets_def getSetMask_def getOutputMask_def getSampleWeights_def getNodeGraph_def
        concatenate_nd_Vec2)
  then show ?thesis ..
qed

lemma merge_two_succeeds:
  assumes g1: "wf_graph g1" and g2: "wf_graph g2"
    and wn: "same_width (nodes g1 @ nodes g2)"
    and wa: "same_width (map arc_label (arcs g1 @ arcs g2))"
    and wt: "same_width (targets g1 @ targets g2)"
    and m: "mode \<in> {''average'', ''normalized'', ''sum''}"
    and b: "length (nodes g1) + length (nodes g2) \<le> 2 ^ 24"
  shows "\<exists>g. merge [Graph g1, Graph g2] pb mode = Inr g"
proof (rule merge_two_succeeds_shifted [OF g1 g2 wn wa wt m])
  let ?n1 = "length (nodes g1)" and ?n2 = "length (nodes g2)"
  have 1: "arc_from (shift_arc 0 a) < ?n1 + ?n2 \<and> arc_to (shift_arc 0 a) < ?n1 + ?n2"
    if "a \<in> set (arcs g1)" for a
  proof -
    from g1 that have "arc_from a < ?n1" "arc_to a < ?n1"
      by (simp_all add: wf_graph_def list_all_iff)
    with b shift_arc_exact [of a 0] show ?thesis by simp
  qed
  have 2: "arc_from (shift_arc ?n1 a) < ?n1 + ?n2 \<and> arc_to (shift_arc ?n1 a) < ?n1 + ?n2"
    if "a \<in> set (arcs g2)" for a
  proof -
    from g2 that have "arc_from a < ?n2" "arc_to a < ?n2"
      by (simp_all add: wf_graph_def list_all_iff)
    with b shift_arc_exact [of a ?n1] show ?thesis by simp
  qed
  from 1 2 show "list_all (\<lambda>a. arc_from a < ?n1 + ?n2 \<and> arc_to a < ?n1 + ?n2)
               (map (shift_arc 0) (arcs g1) @ map (shift_arc ?n1) (arcs g2))"
    by (auto simp: list_all_iff)
qed


lemma graph3_wf: "wf_graph (graph3 mode)"
  by (simp add: wf_graph_def graph3_def arcs3_def nodes3_def targets3_def coo_valid_def coo_empty_def)

lemma graph2_wf: "wf_graph graph2"
  by (simp add: wf_graph_def graph2_def arcs2_def nodes2_def targets2_def coo_valid_def coo_empty_def)











subsection \<open>The node-to-graph matrix\<close>

lemma todense_cong:
  "data m = data m' \<Longrightarrow> row m = row m' \<Longrightarrow> col m = col m' \<Longrightarrow> todense m r c = todense m' r c"
  by (simp add: todense_def)

lemma todense_append:
  assumes "length r1 = length d1" "length c1 = length d1"
  shows "todense \<lparr>data = d1 @ d2, row = r1 @ r2, col = c1 @ c2, shape = s\<rparr> R C
       = todense \<lparr>data = d1, row = r1, col = c1, shape = s1\<rparr> R C
       + todense \<lparr>data = d2, row = r2, col = c2, shape = s2\<rparr> R C"
  using assms by (simp add: todense_def)

lemma sum_list_zero: "(\<And>x. x \<in> set xs \<Longrightarrow> f x = (0::real)) \<Longrightarrow> sum_list (map f xs) = 0"
  by (induction xs) auto

lemma todense_shift:
  "todense \<lparr>data = d, row = map (\<lambda>r. r + r0) rs, col = map (\<lambda>c. c + c0) cs, shape = s\<rparr> R C
     = (if r0 \<le> R \<and> c0 \<le> C
        then todense \<lparr>data = d, row = rs, col = cs, shape = s'\<rparr> (R - r0) (C - c0) else 0)"
proof -
  let ?xs = "zip d (zip rs cs)"
  have z: "zip d (zip (map (\<lambda>r. r + r0) rs) (map (\<lambda>c. c + c0) cs))
         = map (\<lambda>(v, r, c). (v, r + r0, c + c0)) ?xs"
    by (rule nth_equalityI) (simp_all add: case_prod_unfold)
  have lhs: "todense \<lparr>data = d, row = map (\<lambda>r. r + r0) rs, col = map (\<lambda>c. c + c0) cs, shape = s\<rparr> R C
      = sum_list (map (\<lambda>(v, r, c). if r + r0 = R \<and> c + c0 = C then v else 0) ?xs)"
    unfolding todense_def
    by (simp add: z comp_def case_prod_unfold cong: if_cong)
  show ?thesis
  proof (cases "r0 \<le> R \<and> c0 \<le> C")
    case True
    have "map (\<lambda>(v, r, c). if r + r0 = R \<and> c + c0 = C then v else 0) ?xs
        = map (\<lambda>(v, r, c). if r = R - r0 \<and> c = C - c0 then v else (0::real)) ?xs"
      using True by (intro map_cong [OF refl]) auto
    with True lhs show ?thesis by (simp add: todense_def)
  next
    case False
    have "sum_list (map (\<lambda>(v, r, c). if r + r0 = R \<and> c + c0 = C then v else (0::real)) ?xs) = 0"
      using False by (intro sum_list_zero) auto
    with False lhs show ?thesis by auto
  qed
qed

lemma todense_outside:
  assumes "coo_valid m" "fst (shape m) \<le> R \<or> snd (shape m) \<le> C"
  shows "todense m R C = 0"
  unfolding todense_def
proof (rule sum_list_zero)
  fix x assume x: "x \<in> set (zip (data m) (zip (row m) (col m)))"
  obtain v r c where xe: "x = (v, r, c)" by (cases x) auto
  from x xe have "(r, c) \<in> set (zip (row m) (col m))" by (auto dest: set_zip_rightD)
  then have "r \<in> set (row m)" "c \<in> set (col m)"
    by (auto dest: set_zip_leftD set_zip_rightD)
  with assms have "r \<noteq> R \<or> c \<noteq> C"
    by (auto simp: coo_valid_def list_all_iff)
  then show "(case x of (v, r', c') \<Rightarrow> if r' = R \<and> c' = C then v else 0) = 0"
    by (auto simp: xe)
qed

lemma todense_below:
  assumes "list_all (\<lambda>r. r0 \<le> r) (row m) \<and> list_all (\<lambda>c. c0 \<le> c) (col m)" "R < r0 \<or> C < c0"
  shows "todense m R C = 0"
  unfolding todense_def
proof (rule sum_list_zero)
  fix x assume x: "x \<in> set (zip (data m) (zip (row m) (col m)))"
  obtain v r c where xe: "x = (v, r, c)" by (cases x) auto
  from x xe have "(r, c) \<in> set (zip (row m) (col m))" by (auto dest: set_zip_rightD)
  then have "r \<in> set (row m)" "c \<in> set (col m)"
    by (auto dest: set_zip_leftD set_zip_rightD)
  with assms have "r \<noteq> R \<or> c \<noteq> C"
    by (auto simp: list_all_iff)
  then show "(case x of (v, r', c') \<Rightarrow> if r' = R \<and> c' = C then v else 0) = 0"
    by (auto simp: xe)
qed

lemma block_diag_parts_lower:
  "block_diag_parts r c mats = (d, rs, cs, s) \<Longrightarrow>
   list_all (\<lambda>x. r \<le> x) rs \<and> list_all (\<lambda>x. c \<le> x) cs"
proof (induction mats arbitrary: r c d rs cs s)
  case Nil
  then show ?case by auto
next
  case (Cons a mats)
  obtain d' rs' cs' s' where p: "block_diag_parts (r + fst (shape a)) (c + snd (shape a)) mats = (d', rs', cs', s')"
    by (cases "block_diag_parts (r + fst (shape a)) (c + snd (shape a)) mats") auto
  from Cons.prems p have eq: "rs = map (\<lambda>x. x + r) (row a) @ rs'"
    "cs = map (\<lambda>x. x + c) (col a) @ cs'" by simp_all
  from Cons.IH [OF p] show ?case
    by (auto simp: eq list_all_iff)
qed

lemma block_diag_parts_shape:
  "block_diag_parts r c mats = (d, rs, cs, s) \<Longrightarrow>
   s = (r + sum_list (map (\<lambda>m. fst (shape m)) mats), c + sum_list (map (\<lambda>m. snd (shape m)) mats))"
proof (induction mats arbitrary: r c d rs cs s)
  case Nil
  then show ?case by auto
next
  case (Cons a mats)
  obtain d' rs' cs' s' where p: "block_diag_parts (r + fst (shape a)) (c + snd (shape a)) mats = (d', rs', cs', s')"
    by (cases "block_diag_parts (r + fst (shape a)) (c + snd (shape a)) mats") auto
  from Cons.prems p have "s = s'" by simp
  with Cons.IH [OF p] show ?case by simp
qed

lemma block_diag_parts_todense:
  assumes va: "coo_valid a"
    and p: "block_diag_parts (r0 + fst (shape a)) (c0 + snd (shape a)) mats = (d', rs', cs', s)"
  shows "todense \<lparr>data = data a @ d', row = map (\<lambda>r. r + r0) (row a) @ rs',
                   col = map (\<lambda>c. c + c0) (col a) @ cs', shape = s\<rparr> R C
       = (if C < c0 + snd (shape a)
          then (if r0 \<le> R \<and> R < r0 + fst (shape a) \<and> c0 \<le> C then todense a (R - r0) (C - c0) else 0)
          else todense \<lparr>data = d', row = rs', col = cs', shape = s\<rparr> R C)"
proof -
  let ?A = "\<lparr>data = data a, row = map (\<lambda>r. r + r0) (row a), col = map (\<lambda>c. c + c0) (col a), shape = s\<rparr>"
  let ?M' = "\<lparr>data = d', row = rs', col = cs', shape = s\<rparr>"
  have split: "todense \<lparr>data = data a @ d', row = map (\<lambda>r. r + r0) (row a) @ rs',
                   col = map (\<lambda>c. c + c0) (col a) @ cs', shape = s\<rparr> R C
        = todense ?A R C + todense ?M' R C"
    using va by (intro todense_append) (simp_all add: coo_valid_def)
  have A: "todense ?A R C = (if r0 \<le> R \<and> c0 \<le> C then todense a (R - r0) (C - c0) else 0)"
    using todense_shift [of "data a" r0 "row a" c0 "col a" s R C "shape a"]
      todense_cong [of "\<lparr>data = data a, row = row a, col = col a, shape = shape a\<rparr>" a]
    by simp
  show ?thesis
  proof (cases "C < c0 + snd (shape a)")
    case True
    from block_diag_parts_lower [OF p] True have "todense ?M' R C = 0"
      by (intro todense_below) auto
    moreover have "todense a (R - r0) (C - c0) = 0" if "\<not> R < r0 + fst (shape a)" "r0 \<le> R"
      using that va by (intro todense_outside) auto
    ultimately show ?thesis using True split A by auto
  next
    case False
    have "todense a (R - r0) (C - c0) = 0" if "c0 \<le> C"
      using that va False by (intro todense_outside) auto
    then show ?thesis using False split A by auto
  qed
qed

lemma filter_shift_upt:
  assumes "a + n \<le> N"
  shows "filter (\<lambda>r. a \<le> r \<and> r < a + n \<and> P (r - a)) [0..<N] = map (\<lambda>r. r + a) (filter P [0..<n])"
proof -
  have "[0..<N] = [0..<a] @ [a..<a + n] @ [a + n..<N]"
  proof -
    from assms obtain k where N: "N = a + n + k" by (auto simp: le_iff_add)
    have "[0..<a + n + k] = [0..<a + n] @ [a + n..<a + n + k]"
      by (rule upt_add_eq_append) simp
    moreover have "[0..<a + n] = [0..<a] @ [a..<a + n]"
      by (rule upt_add_eq_append) simp
    ultimately show ?thesis by (simp add: N)
  qed
  moreover have "filter (\<lambda>r. a \<le> r \<and> r < a + n \<and> P (r - a)) [0..<a] = []"
    by (simp add: filter_empty_conv)
  moreover have "filter (\<lambda>r. a \<le> r \<and> r < a + n \<and> P (r - a)) [a + n..<N] = []"
    by (simp add: filter_empty_conv)
  moreover have "filter (\<lambda>r. a \<le> r \<and> r < a + n \<and> P (r - a)) [a..<a + n]
      = map (\<lambda>r. r + a) (filter P [0..<n])"
  proof -
    have "[a..<a + n] = map (\<lambda>r. r + a) [0..<n]"
      by (simp add: map_add_upt add.commute)
    moreover have "filter (\<lambda>x. x < n \<and> P x) [0..<n] = filter P [0..<n]"
      by (rule filter_cong) auto
    ultimately show ?thesis
      by (simp add: filter_map comp_def)
  qed
  ultimately show ?thesis by simp
qed

lemma block_diag_Inr:
  assumes "block_diag mats = Inr m"
  shows "\<exists>d rs cs s. block_diag_parts 0 0 mats = (d, rs, cs, s) \<and> m = \<lparr>data = d, row = rs, col = cs, shape = s\<rparr>"
proof -
  obtain d rs cs s where p: "block_diag_parts 0 0 mats = (d, rs, cs, s)"
    by (cases "block_diag_parts 0 0 mats") auto
  with assms have "coo_check \<lparr>data = d, row = rs, col = cs, shape = s\<rparr> = Inr m"
    by (auto simp: block_diag_def coo_matrix_def split: if_splits)
  from coo_check_Inr [OF this] p show ?thesis by simp
qed

lemma column_averages_sum:
  assumes "column_averages m c"
  shows "column_sum m c = 1"
proof -
  let ?f = "\<lambda>r. todense m r c"
  have "column_sum m c = sum_list (map (\<lambda>r. if ?f r \<noteq> 0 then ?f r else 0) [0..<fst (shape m)])"
    unfolding column_sum_def by (rule arg_cong [where f = sum_list]) simp
  also have "\<dots> = sum_list (map ?f (nonzero_rows m c))"
    by (simp add: sum_list_map_filter' nonzero_rows_def)
  also have "\<dots> = real (length (nonzero_rows m c)) * (1 / real (length (nonzero_rows m c)))"
    using assms by (intro sum_list_const_on) (simp add: column_averages_def Let_def list_all_iff)
  also have "\<dots> = 1"
    using assms by (simp add: column_averages_def Let_def)
  finally show ?thesis .
qed

lemma coo_of_column_uniform:
  assumes "0 < n"
  shows "coo_of_column (replicate n (1 * 1 / real n))
       = \<lparr>data = replicate n (1 / real n), row = [0..<n], col = replicate n 0, shape = (n, 1)\<rparr>"
proof -
  have "filter (\<lambda>i. replicate n (1 * 1 / real n) ! i \<noteq> 0) [0..<n] = [0..<n]"
    using assms by (simp add: filter_id_conv)
  moreover have "map (\<lambda>i. replicate n (1 / real n) ! i) [0..<n] = replicate n (1 / real n)"
    by (rule nth_equalityI) simp_all
  ultimately show ?thesis
    by (simp add: coo_of_column_def Let_def)
qed

lemma graph3_arcnode_values: "arcnode_values ''sum'' cs = Inr (replicate (length cs) 1)"
  by (simp add: arcnode_values_def)

lemma graph3g_buildArcNode:
  "buildArcNode \<lparr>nodes = nodes3, arcs = arcs3, targets = t, sample_weights = w, set_mask = sm,
      output_mask = om, aggregation_mode = ''sum'', ArcNode = x, Adjacency = y, NodeGraph = z\<rparr>
   = Inr \<lparr>data = [1, 1, 1], row = [0, 1, 2], col = [1, 2, 2], shape = (3, 3)\<rparr>"
  by (simp add: buildArcNode_def graph3_arcnode_values coo_matrix_def coo_check_def nodes3_def
      arcs3_def upt_rec)

lemma graph3g_init:
  "GraphObject_init nodes3 arcs3 [[1]] ''g'' None None (Scalar 1) None None ''sum'' = Inr graph3g"
proof -
  have ng: "buildNodeGraph \<lparr>nodes = nodes3, arcs = arcs3, targets = t, sample_weights = w, set_mask = sm,
      output_mask = om, aggregation_mode = ''sum'', ArcNode = x, Adjacency = y, NodeGraph = z\<rparr> ''g''
    = \<lparr>data = [1/3, 1/3, 1/3], row = [0, 1, 2], col = [0, 0, 0], shape = (3, 1)\<rparr>" for t w sm om x y z
    by (simp add: buildNodeGraph_def coo_of_column_def nodes3_def upt_rec numeral_3_eq_3)
  have adj: "buildAdjacency \<lparr>nodes = nodes3, arcs = arcs3, targets = t, sample_weights = w, set_mask = sm,
      output_mask = om, aggregation_mode = ''sum'',
      ArcNode = \<lparr>data = [1, 1, 1], row = r, col = c, shape = sh\<rparr>,
      Adjacency = y, NodeGraph = z\<rparr>
    = Inr \<lparr>data = [1, 1, 1], row = [0, 1, 0], col = [1, 2, 2], shape = (3, 3)\<rparr>" for t w sm om y z r c sh
    by (simp add: buildAdjacency_def coo_matrix_def coo_check_def nodes3_def arcs3_def)
  have lm: "lenMask nodes3 arcs3 ''g'' = Some 3"
    by (simp add: lenMask_def nodes3_def)
  have r3: "replicate 3 x = [x, x, x]" for x :: bool
    by (simp add: numeral_3_eq_3)
  show ?thesis
    unfolding GraphObject_init_def
    by (simp add: lm graph3g_buildArcNode adj ng graph3g_def r3 Let_def)
qed

lemma graph2g_init:
  "GraphObject_init nodes2 arcs2 [[0]] ''g'' None None (Scalar 1) None None ''sum'' = Inr graph2g"
proof -
  have an: "buildArcNode \<lparr>nodes = nodes2, arcs = arcs2, targets = t, sample_weights = w, set_mask = sm,
      output_mask = om, aggregation_mode = ''sum'', ArcNode = x, Adjacency = y, NodeGraph = z\<rparr>
   = Inr \<lparr>data = [1, 1], row = [0, 1], col = [1, 0], shape = (2, 2)\<rparr>" for t w sm om x y z
    by (simp add: buildArcNode_def arcnode_values_def coo_matrix_def coo_check_def nodes2_def
      arcs2_def upt_rec)
  have ng: "buildNodeGraph \<lparr>nodes = nodes2, arcs = arcs2, targets = t, sample_weights = w, set_mask = sm,
      output_mask = om, aggregation_mode = ''sum'', ArcNode = x, Adjacency = y, NodeGraph = z\<rparr> ''g''
    = \<lparr>data = [1/2, 1/2], row = [0, 1], col = [0, 0], shape = (2, 1)\<rparr>" for t w sm om x y z
    by (simp add: buildNodeGraph_def coo_of_column_def nodes2_def upt_rec numeral_2_eq_2)
  have adj: "buildAdjacency \<lparr>nodes = nodes2, arcs = arcs2, targets = t, sample_weights = w, set_mask = sm,
      output_mask = om, aggregation_mode = ''sum'',
      ArcNode = \<lparr>data = [1, 1], row = r, col = c, shape = sh\<rparr>,
      Adjacency = y, NodeGraph = z\<rparr>
    = Inr \<lparr>data = [1, 1], row = [0, 1], col = [1, 0], shape = (2, 2)\<rparr>" for t w sm om y z r c sh
    by (simp add: buildAdjacency_def coo_matrix_def coo_check_def nodes2_def arcs2_def)
  have lm: "lenMask nodes2 arcs2 ''g'' = Some 2"
    by (simp add: lenMask_def nodes2_def)
  have r2: "replicate 2 x = [x, x]" for x :: bool
    by (simp add: numeral_2_eq_2)
  show ?thesis
    unfolding GraphObject_init_def
    by (simp add: lm an adj ng graph2g_def r2 Let_def)
qed

lemma graph3g_column:
  "nonzero_rows (NodeGraph graph3g) 0 = [0, 1, 2]" "column_sum (NodeGraph graph3g) 0 = 1"
  by (simp_all add: graph3g_def nonzero_rows_def column_sum_def todense_def upt_rec)

text \<open>
  Claim C8, as stated, fails: for the three-node graph built as a graph-based problem the
  single column of \<open>NodeGraph\<close> has three nonzero entries, one per node, and sums to 1,
  not to the number of nodes mapped to the sub-graph.
\<close>

theorem nodegraph_column_sum_counterexample:
  "GraphObject_init nodes3 arcs3 [[1]] ''g'' None None (Scalar 1) None None ''sum'' = Inr graph3g
   \<and> nonzero_rows (NodeGraph graph3g) 0 = [0, 1, 2]
   \<and> column_sum (NodeGraph graph3g) 0 = 1
   \<and> column_sum (NodeGraph graph3g) 0 \<noteq> real (length (nonzero_rows (NodeGraph graph3g) 0))"
  by (simp add: graph3g_init graph3g_column)

lemma init_nodes_nonempty:
  assumes "GraphObject_init ns ars ts pb smo omo sw ng an mode = Inr g"
  shows "0 < length (nodes g)"
proof -
  from init_arcs_wf [OF assms] obtain a where "a \<in> set ars" "arc_to a < length ns"
    by (cases ars) (auto simp: list_all_iff)
  with init_fields(1) [OF assms] show ?thesis by auto
qed

lemma init_NodeGraph_built:
  assumes "GraphObject_init ns ars ts pb smo omo sw None an mode = Inr g"
  shows "NodeGraph g = buildNodeGraph g pb"
  using init_Inr [OF assms] by (auto simp: buildNodeGraph_def)

lemma sum_list_take_le: "sum_list (take k (xs :: nat list)) \<le> sum_list xs"
proof -
  have "sum_list xs = sum_list (take k xs) + sum_list (drop k xs)"
    by (metis append_take_drop_id sum_list_append)
  then show ?thesis by simp
qed

lemma sum_list_take_Suc:
  "k < length (xs :: nat list) \<Longrightarrow> sum_list (take (Suc k) xs) = sum_list (take k xs) + xs ! k"
  by (simp add: take_Suc_conv_app_nth)

lemma nodegraph_blocks_todense:
  assumes "nodegraph_blocks m sizes"
  shows "todense m r k = block_entry sizes r k"
proof (cases "r < sum_list sizes \<and> k < length sizes")
  case True
  with assms show ?thesis by (simp add: nodegraph_blocks_def list_all_iff)
next
  case False
  from assms have v: "coo_valid m" and s: "shape m = (sum_list sizes, length sizes)"
    by (simp_all add: nodegraph_blocks_def)
  from False s have "todense m r k = 0"
    by (intro todense_outside [OF v]) auto
  moreover have "block_entry sizes r k = 0"
    using False sum_list_take_le [of "Suc k" sizes] by (auto simp: block_entry_def)
  ultimately show ?thesis by simp
qed

lemma block_entry_append:
  "block_entry (sz @ rest) R C
     = (if C < length sz then block_entry sz R C
        else if sum_list sz \<le> R then block_entry rest (R - sum_list sz) (C - length sz) else 0)"
proof (cases "C < length sz")
  case True
  then show ?thesis by (simp add: block_entry_def nth_append)
next
  case False
  then obtain k where C: "C = length sz + k" by (auto simp: not_less le_iff_add)
  show ?thesis
    using sum_list_take_le [of k rest]
    by (auto simp: C block_entry_def nth_append)
qed


lemma block_entry_outside: "sum_list sz \<le> r \<Longrightarrow> block_entry sz r k = 0"
  using sum_list_take_le [of "Suc k" sz] by (auto simp: block_entry_def)

lemma block_diag_parts_blocks:
  assumes "list_all2 nodegraph_blocks mats szs" "block_diag_parts r0 c0 mats = (d, rs, cs, s)"
  shows "todense \<lparr>data = d, row = rs, col = cs, shape = s\<rparr> R C
       = (if r0 \<le> R \<and> c0 \<le> C then block_entry (concat szs) (R - r0) (C - c0) else 0)"
  using assms
proof (induction mats szs arbitrary: r0 c0 d rs cs s rule: list_all2_induct)
  case Nil
  then show ?case by (simp add: todense_def block_entry_def)
next
  case (Cons a mats sz szs)
  obtain d' rs' cs' s' where p: "block_diag_parts (r0 + fst (shape a)) (c0 + snd (shape a)) mats = (d', rs', cs', s')"
    by (cases "block_diag_parts (r0 + fst (shape a)) (c0 + snd (shape a)) mats") auto
  from Cons.prems p have eq: "d = data a @ d'" "rs = map (\<lambda>x. x + r0) (row a) @ rs'"
    "cs = map (\<lambda>x. x + c0) (col a) @ cs'" "s' = s" by simp_all
  from Cons.hyps(1) have va: "coo_valid a" and sa: "shape a = (sum_list sz, length sz)"
    by (simp_all add: nodegraph_blocks_def)
  note ta = nodegraph_blocks_todense [OF Cons.hyps(1)]
  note td = block_diag_parts_todense [OF va p [unfolded eq(4)], folded eq(1-3), of R C]
  show ?case
  proof (cases "C < c0 + length sz")
    case True
    show ?thesis
    proof (cases "r0 \<le> R \<and> c0 \<le> C")
      case rc: True
      then have k: "C - c0 < length sz" using True by auto
      show ?thesis
      proof (cases "R < r0 + sum_list sz")
        case True
        with rc k \<open>C < c0 + length sz\<close> show ?thesis
          by (simp add: td sa ta block_entry_append)
      next
        case False
        with rc have "sum_list sz \<le> R - r0" by auto
        then have "block_entry sz (R - r0) (C - c0) = 0" by (rule block_entry_outside)
        with False rc k \<open>C < c0 + length sz\<close> show ?thesis
          by (simp add: td sa block_entry_append)
      qed
    next
      case False
      with True show ?thesis by (auto simp: td sa)
    qed
  next
    case False
    then have c: "c0 + length sz \<le> C" "c0 \<le> C" "\<not> C - c0 < length sz" by auto
    have ih: "todense \<lparr>data = d', row = rs', col = cs', shape = s\<rparr> R C
       = (if r0 + sum_list sz \<le> R \<and> c0 + length sz \<le> C
          then block_entry (concat szs) (R - (r0 + sum_list sz)) (C - (c0 + length sz)) else 0)"
      using Cons.IH [OF p [unfolded eq(4)]] by (simp add: sa)
    have td': "todense \<lparr>data = d, row = rs, col = cs, shape = s\<rparr> R C
        = todense \<lparr>data = d', row = rs', col = cs', shape = s\<rparr> R C"
      using td False by (simp add: sa)
    show ?thesis
    proof (cases "r0 \<le> R")
      case True
      have "(r0 + sum_list sz \<le> R) = (sum_list sz \<le> R - r0)" using True by auto
      moreover have "R - (r0 + sum_list sz) = R - r0 - sum_list sz" by simp
      moreover have "C - (c0 + length sz) = C - c0 - length sz" by simp
      ultimately show ?thesis
        using True c by (simp add: td' ih block_entry_append)
    next
      case False
      then show ?thesis using c by (simp add: td' ih)
    qed
  qed
qed

lemma block_diag_parts_sizes:
  assumes "list_all2 nodegraph_blocks mats szs"
  shows "sum_list (map (\<lambda>m. fst (shape m)) mats) = sum_list (concat szs)"
    and "sum_list (map (\<lambda>m. snd (shape m)) mats) = length (concat szs)"
    and "list_all coo_valid mats"
    and "list_all (\<lambda>n. 0 < n) (concat szs)"
  using assms
  by (induction mats szs rule: list_all2_induct) (simp_all add: nodegraph_blocks_def)

lemma block_diag_blocks:
  assumes ok: "list_all2 nodegraph_blocks mats szs" and b: "block_diag mats = Inr m"
  shows "nodegraph_blocks m (concat szs)"
proof -
  from block_diag_Inr [OF b] obtain d rs cs s where p: "block_diag_parts 0 0 mats = (d, rs, cs, s)"
    and m: "m = \<lparr>data = d, row = rs, col = cs, shape = s\<rparr>" by blast
  note sz = block_diag_parts_sizes [OF ok]
  from block_diag_parts_valid [OF sz(3) p] have "coo_valid m"
    by (simp add: m coo_valid_def)
  moreover from block_diag_parts_shape [OF p] have "shape m = (sum_list (concat szs), length (concat szs))"
    by (simp add: m sz)
  moreover have "todense m R C = block_entry (concat szs) R C" for R C
    unfolding m using block_diag_parts_blocks [OF ok p, of R C] by simp
  ultimately show ?thesis
    using sz(4) by (simp add: nodegraph_blocks_def list_all_iff)
qed


lemma upt_shift: "map (\<lambda>r. r + a) [0..<n] = [a..<a + n]"
  by (simp add: map_add_upt add.commute)

lemma nodegraph_blocks_column:
  assumes b: "nodegraph_blocks m sizes" and k: "k < length sizes"
  shows "nonzero_rows m k = [sum_list (take k sizes)..<sum_list (take k sizes) + sizes ! k]"
    and "length (nonzero_rows m k) = sizes ! k"
    and "todense m r k = (if sum_list (take k sizes) \<le> r \<and> r < sum_list (take k sizes) + sizes ! k
                          then 1 / real (sizes ! k) else 0)"
    and "column_sum m k = 1"
proof -
  let ?a = "sum_list (take k sizes)" and ?n = "sizes ! k"
  from b have s: "fst (shape m) = sum_list sizes" and pos: "0 < ?n"
    using k by (simp_all add: nodegraph_blocks_def list_all_iff)
  have le: "?a + ?n \<le> sum_list sizes"
    using sum_list_take_le [of "Suc k" sizes] k by (simp add: sum_list_take_Suc)
  show t: "todense m r k = (if ?a \<le> r \<and> r < ?a + ?n then 1 / real ?n else 0)" for r
    using nodegraph_blocks_todense [OF b, of r k] k
    by (simp add: block_entry_def sum_list_take_Suc)
  have pr: "(\<lambda>r. todense m r k \<noteq> 0) = (\<lambda>r. ?a \<le> r \<and> r < ?a + ?n \<and> True)"
    using pos by (intro ext) (simp add: t)
  show nz: "nonzero_rows m k = [?a..<?a + ?n]"
    unfolding nonzero_rows_def pr s
    using filter_shift_upt [OF le, of "\<lambda>_. True"] by (simp add: upt_shift)
  then show len: "length (nonzero_rows m k) = ?n" by simp
  have "column_averages m k"
    unfolding column_averages_def Let_def len
    using pos by (simp add: nz t list_all_iff)
  then show "column_sum m k = 1" by (rule column_averages_sum)
qed

lemma buildNodeGraph_blocks:
  assumes "0 < length (nodes g)"
  shows "nodegraph_blocks (buildNodeGraph g ''g'') [length (nodes g)]"
proof -
  let ?n = "length (nodes g)"
  let ?m = "\<lparr>data = replicate ?n (1 / real ?n), row = [0..<?n], col = replicate ?n 0, shape = (?n, 1)\<rparr>"
  have m: "buildNodeGraph g ''g'' = ?m"
    using coo_of_column_uniform [OF assms] by (simp add: buildNodeGraph_def)
  have t: "todense \<lparr>data = replicate ?n (1 / real ?n), row = [0..<?n], col = replicate ?n 0, shape = s\<rparr> r c
      = (if r < ?n \<and> c = 0 then 1 / real ?n else 0)" for r c s
    using todense_arange [of "replicate ?n (1 / real ?n)" ?n "replicate ?n 0" s r c]
    by auto
  have "coo_valid ?m"
    by (simp add: coo_valid_def list_all_iff)
  then show ?thesis
    unfolding m nodegraph_blocks_def using assms
    by (simp add: t block_entry_def list_all_iff)
qed

lemma merge_graph_based:
  assumes mg: "merge (map Graph gs) pb mode = Inr G" and gb: "list_all2 graph_based gs szs"
  shows "graph_based G (concat szs)"
proof -
  from merge_Inr [OF mg] obtain gs' where e: "map Graph gs = map Graph gs'"
    and n': "nodes G = concat (map nodes gs')"
    and b': "block_diag (map NodeGraph gs') = Inr (NodeGraph G)"
    by blast
  have "inj Graph" by (simp add: inj_on_def)
  from inj_map_eq_map [OF this] e have "gs' = gs" by simp
  with b' n' have b: "block_diag (map NodeGraph gs) = Inr (NodeGraph G)"
    and n: "nodes G = concat (map nodes gs)" by simp_all
  from gb have ok: "list_all2 nodegraph_blocks (map NodeGraph gs) szs"
    by (simp add: list_all2_map1 graph_based_def list_all2_conv_all_nth)
  from gb have "sum_list (map (\<lambda>g. length (nodes g)) gs) = sum_list (concat szs)"
    by (induction gs szs rule: list_all2_induct) (simp_all add: graph_based_def)
  then have "length (nodes G) = sum_list (concat szs)"
    by (simp add: n length_concat comp_def)
  with block_diag_blocks [OF ok b] show ?thesis
    by (simp add: graph_based_def)
qed


text \<open>
  Claim C8, amended. For a graph-based \<open>GraphObject\<close> whose \<open>NodeGraph\<close> the constructor
  derives, the matrix has shape \<open>(N, 1)\<close>, its single column holds \<open>1/N\<close> at each of the \<open>N\<close>
  nodes, and the column sums to 1. \<open>merge\<close> keeps the attribution of nodes to sub-graphs:
  when the inputs are made of sub-graphs with node counts \<open>szs\<close>, the merged graph is made
  of all of them in list order. In such a graph column \<open>k\<close> is nonzero exactly at the nodes
  of sub-graph \<open>k\<close> (the rows after those of the sub-graphs before it), each nonzero entry is
  1 divided by the node count of that sub-graph, and the column sums to 1. In particular,
  merging two graphs that the constructor built gives two columns, nonzero at the rows
  of the first graph with entries \<open>1/N\<^sub>1\<close> and at the rows of the second with entries
  \<open>1/N\<^sub>2\<close>.
\<close>

theorem nodegraph_columns_average:
  "(GraphObject_init ns ars ts ''g'' smo omo sw None an mode = Inr g \<longrightarrow>
        shape (NodeGraph g) = (length (nodes g), 1)
      \<and> nonzero_rows (NodeGraph g) 0 = [0..<length (nodes g)]
      \<and> (\<forall>r. todense (NodeGraph g) r 0 = (if r < length (nodes g) then 1 / real (length (nodes g)) else 0))
      \<and> column_sum (NodeGraph g) 0 = 1
      \<and> graph_based g [length (nodes g)])
   \<and> (merge (map Graph gs) pb mode' = Inr G \<and> list_all2 graph_based gs szs \<longrightarrow>
        graph_based G (concat szs))
   \<and> (graph_based g' sizes \<and> k < length sizes \<longrightarrow>
        shape (NodeGraph g') = (length (nodes g'), length sizes)
      \<and> nonzero_rows (NodeGraph g') k = [sum_list (take k sizes)..<sum_list (take k sizes) + sizes ! k]
      \<and> length (nonzero_rows (NodeGraph g') k) = sizes ! k
      \<and> (\<forall>r. todense (NodeGraph g') r k
               = (if sum_list (take k sizes) \<le> r \<and> r < sum_list (take k sizes) + sizes ! k
                  then 1 / real (sizes ! k) else 0))
      \<and> column_sum (NodeGraph g') k = 1)
   \<and> (GraphObject_init ns1 ars1 ts1 ''g'' smo1 omo1 sw1 None an1 mode1 = Inr g1
        \<and> GraphObject_init ns2 ars2 ts2 ''g'' smo2 omo2 sw2 None an2 mode2 = Inr g2
        \<and> merge [Graph g1, Graph g2] pb2 mode2' = Inr G2 \<longrightarrow>
        shape (NodeGraph G2) = (length ns1 + length ns2, 2)
      \<and> nonzero_rows (NodeGraph G2) 0 = [0..<length ns1]
      \<and> nonzero_rows (NodeGraph G2) 1 = [length ns1..<length ns1 + length ns2]
      \<and> (\<forall>r. todense (NodeGraph G2) r 0 = (if r < length ns1 then 1 / real (length ns1) else 0))
      \<and> (\<forall>r. todense (NodeGraph G2) r 1
               = (if length ns1 \<le> r \<and> r < length ns1 + length ns2 then 1 / real (length ns2) else 0))
      \<and> column_sum (NodeGraph G2) 0 = 1 \<and> column_sum (NodeGraph G2) 1 = 1)"
proof -
  have ctor: "graph_based g [length (nodes g)]"
    if i: "GraphObject_init ns ars ts ''g'' smo omo sw None an mode = Inr g" for ns ars ts smo omo sw an mode g
    using buildNodeGraph_blocks [OF init_nodes_nonempty [OF i]] init_NodeGraph_built [OF i]
    by (simp add: graph_based_def)
  have col: "shape (NodeGraph g') = (length (nodes g'), length sizes)
      \<and> nonzero_rows (NodeGraph g') k = [sum_list (take k sizes)..<sum_list (take k sizes) + sizes ! k]
      \<and> length (nonzero_rows (NodeGraph g') k) = sizes ! k
      \<and> (\<forall>r. todense (NodeGraph g') r k
               = (if sum_list (take k sizes) \<le> r \<and> r < sum_list (take k sizes) + sizes ! k
                  then 1 / real (sizes ! k) else 0))
      \<and> column_sum (NodeGraph g') k = 1"
    if gb: "graph_based g' sizes" and k: "k < length sizes" for g' sizes k
  proof -
    from gb have b: "nodegraph_blocks (NodeGraph g') sizes" and n: "length (nodes g') = sum_list sizes"
      by (simp_all add: graph_based_def)
    from b n have "shape (NodeGraph g') = (length (nodes g'), length sizes)"
      by (simp add: nodegraph_blocks_def)
    with nodegraph_blocks_column [OF b k] show ?thesis by simp
  qed
  have c1: "shape (NodeGraph g) = (length (nodes g), 1)
      \<and> nonzero_rows (NodeGraph g) 0 = [0..<length (nodes g)]
      \<and> (\<forall>r. todense (NodeGraph g) r 0 = (if r < length (nodes g) then 1 / real (length (nodes g)) else 0))
      \<and> column_sum (NodeGraph g) 0 = 1
      \<and> graph_based g [length (nodes g)]"
    if i: "GraphObject_init ns ars ts ''g'' smo omo sw None an mode = Inr g"
    using col [OF ctor [OF i], of 0] ctor [OF i] by simp
  have c4: "shape (NodeGraph G2) = (length ns1 + length ns2, 2)
      \<and> nonzero_rows (NodeGraph G2) 0 = [0..<length ns1]
      \<and> nonzero_rows (NodeGraph G2) 1 = [length ns1..<length ns1 + length ns2]
      \<and> (\<forall>r. todense (NodeGraph G2) r 0 = (if r < length ns1 then 1 / real (length ns1) else 0))
      \<and> (\<forall>r. todense (NodeGraph G2) r 1
               = (if length ns1 \<le> r \<and> r < length ns1 + length ns2 then 1 / real (length ns2) else 0))
      \<and> column_sum (NodeGraph G2) 0 = 1 \<and> column_sum (NodeGraph G2) 1 = 1"
    if i1: "GraphObject_init ns1 ars1 ts1 ''g'' smo1 omo1 sw1 None an1 mode1 = Inr g1"
      and i2: "GraphObject_init ns2 ars2 ts2 ''g'' smo2 omo2 sw2 None an2 mode2 = Inr g2"
      and mg: "merge [Graph g1, Graph g2] pb2 mode2' = Inr G2"
  proof -
    have n: "nodes g1 = ns1" "nodes g2 = ns2"
      using init_fields(1) [OF i1] init_fields(1) [OF i2] by simp_all
    have "list_all2 graph_based [g1, g2] [[length ns1], [length ns2]]"
      using ctor [OF i1] ctor [OF i2] by (simp add: n)
    moreover from mg have "merge (map Graph [g1, g2]) pb2 mode2' = Inr G2" by simp
    ultimately have "graph_based G2 (concat [[length ns1], [length ns2]])"
      by (rule merge_graph_based [rotated])
    then have gb: "graph_based G2 [length ns1, length ns2]" by simp
    then have len: "length (nodes G2) = length ns1 + length ns2"
      by (simp add: graph_based_def)
    from col [OF gb, of 0] col [OF gb, of 1] len show ?thesis
      by (simp add: numeral_2_eq_2)
  qed
  from c1 merge_graph_based col c4 show ?thesis by blast
qed


lemma graph3g_wf: "wf_graph graph3g"
  by (simp add: wf_graph_def graph3g_def arcs3_def nodes3_def coo_valid_def)

lemma graph2g_wf: "wf_graph graph2g"
  by (simp add: wf_graph_def graph2g_def arcs2_def nodes2_def coo_valid_def)

theorem nodegraph_columns_average_witness:
  "GraphObject_init nodes3 arcs3 [[1]] ''g'' None None (Scalar 1) None None ''sum'' = Inr graph3g
   \<and> GraphObject_init nodes2 arcs2 [[0]] ''g'' None None (Scalar 1) None None ''sum'' = Inr graph2g
   \<and> shape (NodeGraph graph3g) = (3, 1)
   \<and> nonzero_rows (NodeGraph graph3g) 0 = [0, 1, 2]
   \<and> todense (NodeGraph graph3g) 1 0 = 1 / 3
   \<and> graph_based graph3g [3] \<and> graph_based graph2g [2]
   \<and> (\<exists>G. merge [Graph graph3g, Graph graph2g] ''g'' ''sum'' = Inr G
          \<and> graph_based G [3, 2]
          \<and> shape (NodeGraph G) = (5, 2)
          \<and> nonzero_rows (NodeGraph G) 0 = [0, 1, 2]
          \<and> nonzero_rows (NodeGraph G) 1 = [3, 4]
          \<and> todense (NodeGraph G) 0 0 = 1 / 3
          \<and> todense (NodeGraph G) 4 1 = 1 / 2
          \<and> todense (NodeGraph G) 4 0 = 0
          \<and> column_sum (NodeGraph G) 0 = 1 \<and> column_sum (NodeGraph G) 1 = 1)"
proof -
  have n: "nodes graph3g = nodes3" "length nodes3 = 3" "nodes graph2g = nodes2" "length nodes2 = 2"
    by (simp_all add: graph3g_def nodes3_def graph2g_def nodes2_def)
  have u: "[0..<3] = [0, 1, 2::nat]" "[3..<5] = [3, 4::nat]"
    by (simp_all add: upt_rec)
  note T3 = nodegraph_columns_average [where ns = nodes3 and ars = arcs3 and ts = "[[1]]" and smo = None
      and omo = None and sw = "Scalar 1" and an = None and mode = "''sum''" and g = graph3g]
  from T3 graph3g_init
  have a3: "shape (NodeGraph graph3g) = (3, 1)" "nonzero_rows (NodeGraph graph3g) 0 = [0, 1, 2]"
      "todense (NodeGraph graph3g) 1 0 = 1 / 3" "graph_based graph3g [3]"
    by (simp_all add: n u)
  note T2 = nodegraph_columns_average [where ns = nodes2 and ars = arcs2 and ts = "[[0]]" and smo = None
      and omo = None and sw = "Scalar 1" and an = None and mode = "''sum''" and g = graph2g]
  from T2 graph2g_init have a2: "graph_based graph2g [2]"
    by (simp add: n)
  have "\<exists>G. merge [Graph graph3g, Graph graph2g] ''g'' ''sum'' = Inr G"
    by (rule merge_two_succeeds [OF graph3g_wf graph2g_wf])
       (simp_all add: same_width_def graph3g_def graph2g_def nodes3_def nodes2_def arcs3_def arcs2_def)
  then obtain G where G: "merge [Graph graph3g, Graph graph2g] ''g'' ''sum'' = Inr G" ..
  note TM = nodegraph_columns_average [where gs = "[graph3g, graph2g]" and szs = "[[3], [2]]"
      and pb = "''g''" and mode' = "''sum''" and G = G]
  from TM G a3(4) a2 have gb: "graph_based G [3, 2]" by simp
  note TC = nodegraph_columns_average [where g' = G and sizes = "[3, 2]"]
  from TC [where k = 1] gb
  have c1: "nonzero_rows (NodeGraph G) 1 = [3, 4]" "todense (NodeGraph G) 4 1 = 1 / 2"
      "column_sum (NodeGraph G) 1 = 1"
    by (simp_all add: u)
  note T4 = nodegraph_columns_average [where ?ns1.0 = nodes3 and ?ars1.0 = arcs3 and ?ts1.0 = "[[1]]"
      and ?smo1.0 = None and ?omo1.0 = None and ?sw1.0 = "Scalar 1" and ?an1.0 = None
      and ?mode1.0 = "''sum''" and ?g1.0 = graph3g
      and ?ns2.0 = nodes2 and ?ars2.0 = arcs2 and ?ts2.0 = "[[0]]"
      and ?smo2.0 = None and ?omo2.0 = None and ?sw2.0 = "Scalar 1" and ?an2.0 = None
      and ?mode2.0 = "''sum''" and ?g2.0 = graph2g
      and ?pb2.0 = "''g''" and mode2' = "''sum''" and ?G2.0 = G]
  from T4 graph3g_init graph2g_init G
  have c0: "shape (NodeGraph G) = (5, 2)" "nonzero_rows (NodeGraph G) 0 = [0, 1, 2]"
      "todense (NodeGraph G) 0 0 = 1 / 3" "todense (NodeGraph G) 4 0 = 0"
      "column_sum (NodeGraph G) 0 = 1"
    by (simp_all add: n u)
  from graph3g_init graph2g_init a3 a2 G gb c0 c1 show ?thesis by blast
qed

subsection \<open>\<open>GraphTensor.fromGraphObject\<close>\<close>

lemma graph_fan_init:
  "GraphObject_init nodes3 arcs_fan targets3 ''n'' None None (Scalar 1) None None ''sum'' = Inr graph_fan"
proof -
  have an: "buildArcNode \<lparr>nodes = nodes3, arcs = arcs_fan, targets = t, sample_weights = w, set_mask = sm,
      output_mask = om, aggregation_mode = ''sum'', ArcNode = x, Adjacency = y, NodeGraph = z\<rparr>
   = Inr \<lparr>data = [1, 1], row = [0, 1], col = [1, 2], shape = (2, 3)\<rparr>" for t w sm om x y z
    by (simp add: buildArcNode_def arcnode_values_def coo_matrix_def coo_check_def nodes3_def
      arcs_fan_def upt_rec)
  have adj: "buildAdjacency \<lparr>nodes = nodes3, arcs = arcs_fan, targets = t, sample_weights = w, set_mask = sm,
      output_mask = om, aggregation_mode = ''sum'',
      ArcNode = \<lparr>data = [1, 1], row = r, col = c, shape = sh\<rparr>,
      Adjacency = y, NodeGraph = z\<rparr>
    = Inr \<lparr>data = [1, 1], row = [0, 0], col = [1, 2], shape = (3, 3)\<rparr>" for t w sm om y z r c sh
    by (simp add: buildAdjacency_def coo_matrix_def coo_check_def nodes3_def arcs_fan_def)
  have lm: "lenMask nodes3 arcs_fan ''n'' = Some 3"
    by (simp add: lenMask_def nodes3_def)
  have r3: "replicate 3 x = [x, x, x]" for x :: 'a
    by (simp add: numeral_3_eq_3)
  have t3: "length targets3 = 3" by (simp add: targets3_def)
  show ?thesis
    unfolding GraphObject_init_def
    by (simp add: lm an adj graph_fan_def r3 t3 Let_def buildNodeGraph_def)
qed

lemma fromGraphObject_fan: "fromGraphObject graph_fan = Inr tensor_fan"
  by (simp add: fromGraphObject_def COO2SparseTensor_def SparseTensor_init_def sparse_reorder_def
      graph_fan_def tensor_fan_def coo_empty_def Let_def)

text \<open>
  Claim C6 against the code. For the graph with three nodes and the arcs \<open>0 \<rightarrow> 1\<close>,
  \<open>0 \<rightarrow> 2\<close>, \<open>ArcNode\<close> has shape \<open>(2, 3)\<close> and so has the tensor; the entry of \<open>ArcNode\<close>
  at \<open>(0, 1)\<close> is at \<open>(0, 1)\<close> in the tensor and nothing is at \<open>(1, 0)\<close>; likewise for
  \<open>Adjacency\<close> at \<open>(0, 2)\<close>. The tensors are the matrices themselves, not their
  transposes. A matrix that stores one position twice (two parallel arcs) gives a tensor
  that stores it twice.
\<close>

theorem fromGraphObject_not_transposed:
  "GraphObject_init nodes3 arcs_fan targets3 ''n'' None None (Scalar 1) None None ''sum'' = Inr graph_fan
   \<and> fromGraphObject graph_fan = Inr tensor_fan
   \<and> shape (ArcNode graph_fan) = (2, 3)
   \<and> st_dense_shape (gt_ArcNode tensor_fan) = (2, 3)
   \<and> todense (ArcNode graph_fan) 0 1 = 1
   \<and> tensor_entry (gt_ArcNode tensor_fan) 0 1 = 1
   \<and> tensor_entry (gt_ArcNode tensor_fan) 1 0 = 0
   \<and> todense (Adjacency graph_fan) 0 2 = 1
   \<and> tensor_entry (gt_Adjacency tensor_fan) 0 2 = 1
   \<and> tensor_entry (gt_Adjacency tensor_fan) 2 0 = 0
   \<and> COO2SparseTensor \<lparr>data = [1, 1], row = [0, 0], col = [1, 1], shape = (2, 2)\<rparr>
       = Inr \<lparr>st_indices = [(0, 1), (0, 1)], st_values = [1, 1], st_dense_shape = (2, 2)\<rparr>"
  by (simp add: graph_fan_init fromGraphObject_fan)
     (simp add: graph_fan_def tensor_fan_def todense_def tensor_entry_def COO2SparseTensor_def
        SparseTensor_init_def sparse_reorder_def Let_def)

subsection \<open>Saving and loading\<close>

lemma graph2_save: "save_graph graph2 = Inr dir2"
  by (simp add: save_graph_def graph2_def dir2_def coo_empty_def targets2_def)

lemma graph2_parts:
  "buildArcNode \<lparr>nodes = nodes2, arcs = arcs2, targets = t, sample_weights = w, set_mask = sm,
      output_mask = om, aggregation_mode = ''sum'', ArcNode = x, Adjacency = y, NodeGraph = z\<rparr>
   = Inr \<lparr>data = [1, 1], row = [0, 1], col = [1, 0], shape = (2, 2)\<rparr>"
  "buildAdjacency \<lparr>nodes = nodes2, arcs = arcs2, targets = t, sample_weights = w, set_mask = sm,
      output_mask = om, aggregation_mode = ''sum'',
      ArcNode = \<lparr>data = [1, 1], row = r, col = c, shape = sh\<rparr>,
      Adjacency = y, NodeGraph = z\<rparr>
    = Inr \<lparr>data = [1, 1], row = [0, 1], col = [1, 0], shape = (2, 2)\<rparr>"
  by (simp_all add: buildArcNode_def arcnode_values_def buildAdjacency_def coo_matrix_def
      coo_check_def nodes2_def arcs2_def upt_rec)

lemma graph2_load: "load dir2 ''n'' ''sum'' = Inr graph2"
proof -
  have r2: "replicate 2 x = [x, x]" for x :: 'a
    by (simp add: numeral_2_eq_2)
  have t2: "length targets2 = 2" by (simp add: targets2_def)
  show ?thesis
    unfolding load_def GraphObject_init_def
    by (simp add: dir2_def graph2_parts graph2_def r2 t2 Let_def buildNodeGraph_def
        broadcastable_def broadcast_row_def)
qed

lemma graph2_load_txt: "load_txt dir2 ''n'' ''sum'' = Inr graph2_txt"
proof -
  have r2: "replicate 2 x = [x, x]" for x :: 'a
    by (simp add: numeral_2_eq_2)
  have t2: "length targets2 = 2" by (simp add: targets2_def)
  show ?thesis
    unfolding load_txt_def load_def GraphObject_init_def
    by (simp add: dir2_def graph2_parts graph2_def graph2_txt_def r2 t2 Let_def buildNodeGraph_def
        broadcastable_def broadcast_row_def)
qed

text \<open>
  Claim C5 against the code. The graph with two nodes, weights \<open>[2, 3]\<close> and set mask
  \<open>[True, False]\<close> is written as the same directory by \<open>save\<close> and \<open>savetxt\<close>. \<open>load\<close>
  returns the graph itself. \<open>load_txt\<close> returns the same nodes, arcs and targets, but the
  weights are the 2 by 2 array \<open>[[2, 2], [3, 3]]\<close> and the set mask is the column
  \<open>[[True], [False]]\<close>: \<open>ndmin=2\<close> makes each saved vector a column, and the column of
  weights is then broadcast against \<open>np.ones(2)\<close>.
\<close>

theorem savetxt_load_txt_changes_masks_and_weights:
  "GraphObject_init nodes2 arcs2 targets2 ''n'' (Some (Vec [1, 0])) None (Array (Vec [2, 3]))
     None None ''sum'' = Inr graph2
   \<and> save_graph graph2 = Inr dir2 \<and> load dir2 ''n'' ''sum'' = Inr graph2
   \<and> save_txt graph2 = Inr dir2 \<and> load_txt dir2 ''n'' ''sum'' = Inr graph2_txt
   \<and> sample_weights graph2 = Vec [2, 3] \<and> sample_weights graph2_txt = Mat [[2, 2], [3, 3]]
   \<and> set_mask graph2 = Vec [True, False] \<and> set_mask graph2_txt = Mat [[True], [False]]
   \<and> nodes graph2_txt = nodes graph2 \<and> arcs graph2_txt = arcs graph2
   \<and> targets graph2_txt = targets graph2"
  by (simp add: graph2_init graph2_save graph2_load graph2_load_txt save_txt_def)
     (simp add: graph2_def graph2_txt_def)

lemma all_true_replicate: "list_all (\<lambda>b. b) v \<Longrightarrow> replicate (length v) True = v"
  by (induction v) auto

lemma all_one_replicate: "\<not> list_ex (\<lambda>x. x \<noteq> 1) w \<Longrightarrow> replicate (length w) (1::real) = w"
  by (induction w) auto

lemma map_of_bool_nonzero: "map ((\<lambda>x. x \<noteq> (0::real)) \<circ> of_bool) v = v"
  by (induction v) auto

lemma save_graph_Inr:
  assumes "save_graph g = Inr d"
  shows "f_arcs d = Some (arcs g)" and "f_nodes d = Some (nodes g)"
    and "f_targets d = Some (targets g)"
    and "\<exists>b. py_all (set_mask g) = Inr b
           \<and> f_set_mask d = (if \<not> b then Some (as_float (set_mask g)) else None)"
    and "\<exists>b. py_all (output_mask g) = Inr b
           \<and> f_output_mask d = (if \<not> b then Some (as_float (output_mask g)) else None)"
    and "f_sample_weights d = (if any_not_one (sample_weights g) then Some (sample_weights g) else None)"
proof -
  from assms obtain b1 where b1: "py_all (set_mask g) = Inr b1"
    by (cases "py_all (set_mask g)") (simp_all add: save_graph_def)
  from assms b1 obtain b2 where b2: "py_all (output_mask g) = Inr b2"
    by (cases "py_all (output_mask g)") (simp_all add: save_graph_def)
  let ?ng = "if (fst (shape (NodeGraph g)) \<noteq> 0 \<and> snd (shape (NodeGraph g)) \<noteq> 0)
               \<and> 1 < length (targets g)
            then (case np_stack (NodeGraph g) of Inl e \<Rightarrow> Inl e | Inr nodegraph \<Rightarrow> Inr (Some nodegraph))
            else Inr None"
  from assms b1 b2 obtain ngf where ngf: "?ng = Inr ngf"
    by (cases ?ng) (simp_all add: save_graph_def)
  from assms have d: "d = \<lparr>f_arcs = Some (arcs g), f_nodes = Some (nodes g), f_targets = Some (targets g),
               f_set_mask = (if \<not> b1 then Some (as_float (set_mask g)) else None),
               f_output_mask = (if \<not> b2 then Some (as_float (output_mask g)) else None),
               f_sample_weights =
                 (if any_not_one (sample_weights g) then Some (sample_weights g) else None),
               f_NodeGraph = ngf\<rparr>"
    unfolding save_graph_def b1 b2 ngf by simp
  show "f_arcs d = Some (arcs g)" "f_nodes d = Some (nodes g)" "f_targets d = Some (targets g)"
    "f_sample_weights d = (if any_not_one (sample_weights g) then Some (sample_weights g) else None)"
    by (simp_all add: d)
  show "\<exists>b. py_all (set_mask g) = Inr b
           \<and> f_set_mask d = (if \<not> b then Some (as_float (set_mask g)) else None)"
    using b1 by (simp add: d)
  show "\<exists>b. py_all (output_mask g) = Inr b
           \<and> f_output_mask d = (if \<not> b then Some (as_float (output_mask g)) else None)"
    using b2 by (simp add: d)
qed

lemma load_Inr:
  assumes "load d pb mode = Inr g'"
    and "f_arcs d = Some a" "f_nodes d = Some n" "f_targets d = Some t"
  shows "\<exists>ng. GraphObject_init n a t pb (f_set_mask d) (f_output_mask d)
           (case f_sample_weights d of None \<Rightarrow> Scalar 1 | Some w \<Rightarrow> Array w) ng None mode = Inr g'"
proof -
  let ?ng = "case f_NodeGraph d of
              None \<Rightarrow> Inr None
            | Some (d, r, c) \<Rightarrow>
                (case coo_matrix d r c None of Inl e \<Rightarrow> Inl e | Inr m \<Rightarrow> Inr (Some m))"
  from assms(1) obtain ng where ng: "?ng = Inr ng"
    by (cases ?ng) (simp_all add: load_def)
  from assms show ?thesis
    unfolding load_def ng by auto
qed

text \<open>
  What does hold: \<open>save\<close> then \<open>load\<close> gives back nodes, arcs, targets, masks and weights
  of a graph with one-dimensional masks of the length the problem type asks for and one
  weight per target row, whether or not the masks and weights were written.
\<close>

lemma save_load_roundtrip:
  assumes s: "save_graph g = Inr d" and l: "load d pb mode = Inr g'"
    and v: "is_vec (set_mask g)" "is_vec (output_mask g)" "is_vec (sample_weights g)"
    and w: "len (sample_weights g) = length (targets g)"
    and m: "len (set_mask g) = len (output_mask g)"
    and k: "lenMask (nodes g) (arcs g) pb = Some (len (set_mask g))"
  shows "nodes g' = nodes g \<and> arcs g' = arcs g \<and> targets g' = targets g
       \<and> set_mask g' = set_mask g \<and> output_mask g' = output_mask g
       \<and> sample_weights g' = sample_weights g"
proof -
  from v obtain sm om ws where vec: "set_mask g = Vec sm" "output_mask g = Vec om"
      "sample_weights g = Vec ws"
    by (cases "set_mask g"; cases "output_mask g"; cases "sample_weights g") auto
  from w m vec have len: "length ws = length (targets g)" "length sm = length om" by simp_all
  note d = save_graph_Inr [OF s]
  from d(4) vec have dsm: "f_set_mask d = (if \<not> list_all (\<lambda>b. b) sm then Some (Vec (map of_bool sm)) else None)"
    by auto
  from d(5) vec have dom: "f_output_mask d = (if \<not> list_all (\<lambda>b. b) om then Some (Vec (map of_bool om)) else None)"
    by auto
  from d(6) vec have dsw: "f_sample_weights d = (if list_ex (\<lambda>x. x \<noteq> 1) ws then Some (Vec ws) else None)"
    by simp
  from load_Inr [OF l d(1,2,3)] obtain ng where i: "GraphObject_init (nodes g) (arcs g) (targets g) pb
      (f_set_mask d) (f_output_mask d)
      (case f_sample_weights d of None \<Rightarrow> Scalar 1 | Some w \<Rightarrow> Array w) ng None mode = Inr g'"
    by blast
  note f = init_fields [OF i] and mk = init_mask_fields [OF i]
  have sm': "set_mask g' = Vec sm"
  proof (cases "list_all (\<lambda>b. b) sm")
    case True
    with mk(1) k vec dsm have "set_mask g' = Vec (replicate (length sm) True)" by simp
    with all_true_replicate [OF True] show ?thesis by simp
  next
    case False
    with mk(1) dsm show ?thesis by (simp add: map_of_bool_nonzero)
  qed
  have om': "output_mask g' = Vec om"
  proof (cases "list_all (\<lambda>b. b) om")
    case True
    with mk(2) sm' len dom have "output_mask g' = Vec (replicate (length om) True)" by simp
    with all_true_replicate [OF True] show ?thesis by simp
  next
    case False
    with mk(2) dom show ?thesis by (simp add: map_of_bool_nonzero)
  qed
  have ws': "sample_weights g' = Vec ws"
  proof (cases "list_ex (\<lambda>x. x \<noteq> 1) ws")
    case True
    with f(4) len dsw show ?thesis by (simp add: broadcastable_def broadcast_row_def)
  next
    case False
    with f(4) len dsw have "sample_weights g' = Vec (replicate (length ws) 1)" by simp
    with all_one_replicate [OF False] show ?thesis by simp
  qed
  from f(1-3) sm' om' ws' vec show ?thesis by simp
qed

text \<open>\<open>savetxt\<close> then \<open>load_txt\<close> does the same when no mask and no weights were written.\<close>

lemma savetxt_load_txt_defaults:
  assumes s: "save_txt g = Inr d" and l: "load_txt d pb mode = Inr g'"
    and a: "py_all (set_mask g) = Inr True" "py_all (output_mask g) = Inr True"
      "\<not> any_not_one (sample_weights g)"
    and v: "is_vec (set_mask g)" "is_vec (output_mask g)" "is_vec (sample_weights g)"
    and w: "len (sample_weights g) = length (targets g)"
    and m: "len (set_mask g) = len (output_mask g)"
    and k: "lenMask (nodes g) (arcs g) pb = Some (len (set_mask g))"
  shows "nodes g' = nodes g \<and> arcs g' = arcs g \<and> targets g' = targets g
       \<and> set_mask g' = set_mask g \<and> output_mask g' = output_mask g
       \<and> sample_weights g' = sample_weights g"
proof -
  from s have s': "save_graph g = Inr d" by (simp add: save_txt_def)
  from save_graph_Inr(4-6) [OF s'] a
  have "f_set_mask d = None" "f_output_mask d = None" "f_sample_weights d = None"
    by auto
  then have "d\<lparr>f_set_mask := map_option loadtxt_ndmin2 (f_set_mask d),
               f_output_mask := map_option loadtxt_ndmin2 (f_output_mask d),
               f_sample_weights := map_option loadtxt_ndmin2 (f_sample_weights d)\<rparr> = d"
    by simp
  with l have "load d pb mode = Inr g'" by (simp add: load_txt_def)
  from save_load_roundtrip [OF s' this v w m k] show ?thesis .
qed

subsection \<open>\<open>merge\<close> and its inputs\<close>

lemma prefix_update:
  "prefix h h1 \<Longrightarrow> length h \<le> a \<Longrightarrow> prefix h (h1[a := c])"
  by (auto simp: prefix_def list_update_append)

lemma get_data_one_frame:
  assumes "get_data_one h i = (d, h')"
  shows "prefix h h'" and "length h \<le> dr_arcs d"
  using assms
  by (auto simp: get_data_one_def copy_at_def alloc_def)

lemma get_data_store_frame:
  "get_data_store h glist = (res, h') \<Longrightarrow>
   prefix h h' \<and> (\<forall>ds. res = Inr ds \<longrightarrow> list_all (\<lambda>d. length h \<le> dr_arcs d) ds)"
proof (induction glist arbitrary: h res h')
  case Nil
  then show ?case by auto
next
  case (Cons item x)
  show ?case
  proof (cases item)
    case (GraphAt i)
    obtain d h1 where o: "get_data_one h i = (d, h1)" by (cases "get_data_one h i") auto
    obtain res2 h2 where r: "get_data_store h1 x = (res2, h2)" by (cases "get_data_store h1 x") auto
    from get_data_one_frame [OF o] have p1: "prefix h h1" and a: "length h \<le> dr_arcs d" by simp_all
    from Cons.IH [OF r] have p2: "prefix h1 h2"
      and a2: "\<And>ds. res2 = Inr ds \<Longrightarrow> list_all (\<lambda>d. length h1 \<le> dr_arcs d) ds" by auto
    from p1 have le: "length h \<le> length h1" by (rule prefix_length_le)
    from Cons.prems GraphAt o r have e: "h' = h2" "res = (case res2 of Inl e \<Rightarrow> Inl e | Inr ds \<Rightarrow> Inr (d # ds))"
      by (auto split: sum.splits)
    have "list_all (\<lambda>d. length h \<le> dr_arcs d) ds" if "res = Inr ds" for ds
    proof -
      from that e obtain ds2 where ds2: "res2 = Inr ds2" "ds = d # ds2"
        by (cases res2) auto
      from a2 [OF ds2(1)] le have "list_all (\<lambda>d. length h \<le> dr_arcs d) ds2"
        by (auto simp: list_all_iff)
      with a ds2 show ?thesis by simp
    qed
    with p1 p2 e show ?thesis by (auto intro: prefix_order.trans)
  next
    case (PathAt s)
    with Cons.prems show ?thesis by auto
  next
    case OtherAt
    with Cons.prems show ?thesis by auto
  qed
qed

lemma shift_loop_frame:
  "prefix h h1 \<Longrightarrow> list_all (\<lambda>(i, a). length h \<le> a) ps \<Longrightarrow> prefix h (shift_loop h1 lens ps)"
proof (induction ps arbitrary: h1)
  case Nil
  then show ?case by simp
next
  case (Cons p ps)
  obtain i a where p: "p = (i, a)" by (cases p) auto
  from Cons.prems p have "length h \<le> a" and r: "list_all (\<lambda>(i, a). length h \<le> a) ps" by simp_all
  from prefix_update [OF Cons.prems(1) this(1)]
  have "prefix h (h1[a := ArcsCell (map (shift_arc (sum_list (take i lens))) (arcs_at h1 a))])" .
  from Cons.IH [OF this r] show ?case by (simp add: p)
qed

lemma enumerate_snd_all:
  "list_all P xs \<Longrightarrow> list_all (\<lambda>(i, a). P a) (enumerate n xs)"
  by (induction xs arbitrary: n) auto

lemma merge_store_prefix:
  assumes "merge_store h glist pb mode = (res, h')"
  shows "prefix h h'"
proof (cases "list_ex (\<lambda>x. x = OtherAt) glist")
  case True
  with assms show ?thesis by (simp add: merge_store_def)
next
  case False
  obtain r1 h1 where g: "get_data_store h glist = (r1, h1)"
    by (cases "get_data_store h glist") auto
  from get_data_store_frame [OF g] have p1: "prefix h h1"
    and fresh: "\<And>ds. r1 = Inr ds \<Longrightarrow> list_all (\<lambda>d. length h \<le> dr_arcs d) ds" by auto
  show ?thesis
  proof (cases r1)
    case (Inl e)
    with assms False g p1 show ?thesis by (simp add: merge_store_def)
  next
    case (Inr ds)
    show ?thesis
    proof (cases "ds = []")
      case True
      with assms False g Inr p1 show ?thesis by (simp add: merge_store_def)
    next
      case ne: False
      let ?h2 = "shift_loop h1 (map dr_nodes_len ds) (enumerate 0 (map dr_arcs ds))"
      from fresh [OF Inr] have "list_all (\<lambda>a. length h \<le> a) (map dr_arcs ds)"
        by (simp add: list_all_iff)
      from shift_loop_frame [OF p1 enumerate_snd_all [OF this]]
      have p2: "prefix h ?h2" .
      let ?b = "merge_build (map (\<lambda>d. arcs_at ?h2 (dr_arcs d)) ds) (map (read_data ?h2) ds) pb mode"
      show ?thesis
      proof (cases ?b)
        case (Inl e)
        with assms False g Inr ne have "h' = ?h2"
          by (simp add: merge_store_def Let_def)
        with p2 show ?thesis by simp
      next
        case b: (Inr g')
        with assms False g Inr ne have "h' = fst (store_graph ?h2 g')"
          by (simp add: merge_store_def Let_def split: prod.splits)
        then have "prefix ?h2 h'" by (simp add: store_graph_def)
        with p2 show ?thesis by (rule prefix_order.trans)
      qed
    qed
  qed
qed

lemma graph_at_prefix:
  assumes "prefix h h'" "ref_in h r"
  shows "graph_at h' r = graph_at h r"
proof -
  from assms(1) obtain t where t: "h' = h @ t" by (auto simp: prefix_def)
  have "h' ! a = h ! a" if "a < length h" for a
    using that by (simp add: t nth_append)
  with assms(2) show ?thesis
    by (simp add: graph_at_def ref_in_def arcs_at_def mat_at_def bools_at_def reals_at_def coo_at_def)
qed

text \<open>
  Claim C10. Whatever \<open>merge\<close> returns or raises, every cell that was in the store before
  the call is in it afterwards, unchanged: the store before is a prefix of the store after.
  So every input graph whose arrays were in the store denotes the same graph after the
  call: nodes, arcs, targets, masks, weights and the three matrices.
\<close>

theorem merge_leaves_inputs_unchanged:
  assumes "merge_store h glist pb mode = (res, h')"
  shows "prefix h h'
       \<and> (\<forall>r. GraphAt r \<in> set glist \<and> ref_in h r \<longrightarrow> graph_at h' r = graph_at h r)"
  using merge_store_prefix [OF assms] graph_at_prefix by blast

lemma ref_in_prefix: "prefix h0 h \<Longrightarrow> ref_in h0 r \<Longrightarrow> ref_in h r"
  by (auto simp: ref_in_def dest: prefix_length_le)

lemma nth_prefix: "prefix h0 h \<Longrightarrow> a < length h0 \<Longrightarrow> h ! a = h0 ! a"
  by (auto simp: prefix_def nth_append)

lemma get_data_one_eq:
  assumes "ref_in h i"
  shows "get_data_one h i =
     (\<lparr>dr_nodes = length h, dr_nodes_len = length (mat_at h (r_nodes i)), dr_arcs = length h + 1,
       dr_targets = length h + 2, dr_set_mask = length h + 3, dr_output_mask = length h + 4,
       dr_sample_weights = length h + 5, dr_nodegraph = length h + 6\<rparr>,
      h @ [h ! r_nodes i, h ! r_arcs i, h ! r_targets i, h ! r_set_mask i, h ! r_output_mask i,
           h ! r_sample_weights i, h ! r_NodeGraph i])"
  using assms
  by (simp add: get_data_one_def copy_at_def alloc_def ref_in_def nth_append mat_at_def)

lemma read_data_one:
  assumes "ref_in h i" "get_data_one h i = (d, h7)" "prefix h7 h1"
  shows "read_data h1 d =
     \<lparr>gd_nodes = mat_at h (r_nodes i), gd_nodes_len = length (mat_at h (r_nodes i)),
      gd_arcs = arcs_at h (r_arcs i), gd_targets = mat_at h (r_targets i),
      gd_set_mask = bools_at h (r_set_mask i), gd_output_mask = bools_at h (r_output_mask i),
      gd_sample_weights = reals_at h (r_sample_weights i),
      gd_nodegraph = coo_at h (r_NodeGraph i)\<rparr>"
proof -
  from assms(2) get_data_one_eq [OF assms(1)]
  have d: "d = \<lparr>dr_nodes = length h, dr_nodes_len = length (mat_at h (r_nodes i)), dr_arcs = length h + 1,
       dr_targets = length h + 2, dr_set_mask = length h + 3, dr_output_mask = length h + 4,
       dr_sample_weights = length h + 5, dr_nodegraph = length h + 6\<rparr>"
    and h7: "h7 = h @ [h ! r_nodes i, h ! r_arcs i, h ! r_targets i, h ! r_set_mask i, h ! r_output_mask i,
           h ! r_sample_weights i, h ! r_NodeGraph i]"
    by simp_all
  have n: "h1 ! a = h7 ! a" if "a < length h + 7" for a
    using nth_prefix [OF assms(3), of a] that by (simp add: h7)
  have c: "h7 ! length h = h ! r_nodes i" "h7 ! Suc (length h) = h ! r_arcs i"
    "h7 ! Suc (Suc (length h)) = h ! r_targets i" "h7 ! (length h + 3) = h ! r_set_mask i"
    "h7 ! (length h + 4) = h ! r_output_mask i" "h7 ! (length h + 5) = h ! r_sample_weights i"
    "h7 ! (length h + 6) = h ! r_NodeGraph i"
    by (simp_all add: h7 nth_append)
  show ?thesis
    by (simp add: read_data_def d mat_at_def arcs_at_def bools_at_def reals_at_def coo_at_def n c)
qed

lemma graph_cells_prefix:
  assumes "prefix h0 h" "ref_in h0 r"
  shows "mat_at h (r_nodes r) = nodes (graph_at h0 r)"
    and "arcs_at h (r_arcs r) = arcs (graph_at h0 r)"
    and "mat_at h (r_targets r) = targets (graph_at h0 r)"
    and "bools_at h (r_set_mask r) = set_mask (graph_at h0 r)"
    and "bools_at h (r_output_mask r) = output_mask (graph_at h0 r)"
    and "reals_at h (r_sample_weights r) = sample_weights (graph_at h0 r)"
    and "coo_at h (r_NodeGraph r) = NodeGraph (graph_at h0 r)"
  using graph_at_prefix [OF assms] ref_in_prefix [OF assms]
  by (simp_all add: graph_at_def)

lemma get_data_store_refines:
  assumes "prefix h0 hc" "list_all (item_in h0) glist" "get_data_store hc glist = (res, h1)"
  shows "prefix hc h1"
    and "\<And>e. res = Inl e \<Longrightarrow> get_data (map (item_at h0) glist) = Inl e"
    and "\<And>ds. res = Inr ds \<Longrightarrow> get_data (map (item_at h0) glist) = Inr (map (read_data h1) ds)
             \<and> concat (map data_addrs ds) = [length hc..<length h1]"
  using assms
proof (induction glist arbitrary: hc res h1)
  case Nil
  { case 1 then show ?case by simp }
  { case 2 then show ?case by simp }
  { case 3 then show ?case by auto }
next
  case (Cons item x)
  { case 1
    then show ?case using get_data_store_frame [of hc "item # x" res h1] by simp }
  { case (2 e)
    show ?case
    proof (cases item)
      case (GraphAt i)
      obtain d h7 where o: "get_data_one hc i = (d, h7)" by (cases "get_data_one hc i") auto
      obtain res2 h2 where r: "get_data_store h7 x = (res2, h2)" by (cases "get_data_store h7 x") auto
      from get_data_one_frame(1) [OF o] "2.prems"(2) have p7: "prefix h0 h7"
        by (auto intro: prefix_order.trans)
      from "2.prems" GraphAt o r have "res2 = Inl e"
        by (auto split: sum.splits)
      from Cons.IH(2) [OF this p7 _ r] "2.prems"(3)
      have "get_data (map (item_at h0) x) = Inl e" by simp
      with GraphAt show ?thesis by simp
    next
      case (PathAt s)
      with "2.prems" show ?thesis by auto
    next
      case OtherAt
      with "2.prems" show ?thesis by auto
    qed }
  { case (3 ds)
    from "3.prems" obtain i where GraphAt: "item = GraphAt i"
      by (cases item) auto
    obtain d h7 where o: "get_data_one hc i = (d, h7)" by (cases "get_data_one hc i") auto
    obtain res2 h2 where r: "get_data_store h7 x = (res2, h2)" by (cases "get_data_store h7 x") auto
    from "3.prems"(3) GraphAt have v0: "ref_in h0 i" and vx: "list_all (item_in h0) x" by simp_all
    from ref_in_prefix [OF "3.prems"(2) v0] have v: "ref_in hc i" .
    from get_data_one_frame(1) [OF o] "3.prems"(2) have p7: "prefix h0 h7"
      by (auto intro: prefix_order.trans)
    from "3.prems" GraphAt o r obtain ds2 where ds2: "res2 = Inr ds2" "ds = d # ds2" "h1 = h2"
      by (auto split: sum.splits)
    from Cons.IH(1) [OF p7 vx r] have p2: "prefix h7 h2" .
    from Cons.IH(3) [OF ds2(1) p7 vx r]
    have ih: "get_data (map (item_at h0) x) = Inr (map (read_data h2) ds2)"
      and ad: "concat (map data_addrs ds2) = [length h7..<length h2]" by simp_all
    from o get_data_one_eq [OF v] have l7: "length h7 = length hc + 7"
      and da: "data_addrs d = [length hc..<length hc + 7]"
      by (auto simp: data_addrs_def upt_rec)
    from p2 have "length h7 \<le> length h2" by (rule prefix_length_le)
    with l7 have "[length hc..<length h2] = [length hc..<length hc + 7] @ [length h7..<length h2]"
      using upt_add_eq_append [of "length hc" "length hc + 7" "length h2 - (length hc + 7)"]
      by simp
    with ad da have addrs: "concat (map data_addrs ds) = [length hc..<length h1]"
      by (simp add: ds2)
    from read_data_one [OF v o p2] graph_cells_prefix [OF "3.prems"(2) v0]
    have "read_data h2 d = \<lparr>gd_nodes = getNodes (graph_at h0 i),
        gd_nodes_len = length (nodes (graph_at h0 i)), gd_arcs = getArcs (graph_at h0 i),
        gd_targets = getTargets (graph_at h0 i), gd_set_mask = getSetMask (graph_at h0 i),
        gd_output_mask = getOutputMask (graph_at h0 i),
        gd_sample_weights = getSampleWeights (graph_at h0 i),
        gd_nodegraph = getNodeGraph (graph_at h0 i)\<rparr>"
      by (simp add: getNodes_def getArcs_def getTargets_def getSetMask_def getOutputMask_def
          getSampleWeights_def getNodeGraph_def)
    with ih have "get_data (map (item_at h0) (item # x)) = Inr (map (read_data h1) ds)"
      by (simp add: GraphAt ds2)
    with addrs show ?case by simp }
qed

lemma shift_loop_nth:
  assumes "distinct (map snd ps)" "list_all (\<lambda>(i, a). a < length h) ps"
  shows "length (shift_loop h lens ps) = length h"
    and "\<And>i a. (i, a) \<in> set ps \<Longrightarrow>
           shift_loop h lens ps ! a = ArcsCell (map (shift_arc (sum_list (take i lens))) (arcs_at h a))"
    and "\<And>a. a \<notin> snd ` set ps \<Longrightarrow> shift_loop h lens ps ! a = h ! a"
  using assms
proof (induction ps arbitrary: h)
  case Nil
  { case 1 show ?case by simp }
  { case 2 then show ?case by simp }
  { case 3 show ?case by simp }
next
  case (Cons p ps)
  obtain j b where p: "p = (j, b)" by (cases p) auto
  { case 1
    let ?h = "h[b := ArcsCell (map (shift_arc (sum_list (take j lens))) (arcs_at h b))]"
    from 1 p have d: "distinct (map snd ps)" and l: "list_all (\<lambda>(i, a). a < length ?h) ps"
      by auto
    from Cons.IH(1) [OF d l] show ?case by (simp add: p) }
  { case (2 i a)
    let ?h = "h[b := ArcsCell (map (shift_arc (sum_list (take j lens))) (arcs_at h b))]"
    from 2 p have d: "distinct (map snd ps)" and l: "list_all (\<lambda>(i, a). a < length ?h) ps"
      and nb: "b \<notin> snd ` set ps" and bl: "b < length h"
      by auto
    show ?case
    proof (cases "(i, a) = (j, b)")
      case True
      with Cons.IH(3) [OF nb d l] bl show ?thesis by (simp add: p)
    next
      case False
      with "2.prems"(1) p have m: "(i, a) \<in> set ps" by auto
      with nb have "a \<noteq> b" by force
      then have "arcs_at ?h a = arcs_at h a" by (simp add: arcs_at_def)
      with Cons.IH(2) [OF m d l] show ?thesis by (simp add: p)
    qed }
  { case (3 a)
    let ?h = "h[b := ArcsCell (map (shift_arc (sum_list (take j lens))) (arcs_at h b))]"
    from 3 p have d: "distinct (map snd ps)" and l: "list_all (\<lambda>(i, a). a < length ?h) ps"
      and na: "a \<notin> snd ` set ps" and ab: "a \<noteq> b"
      by auto
    from Cons.IH(3) [OF na d l] ab show ?case by (simp add: p) }
qed

lemma distinct_concat_pick:
  assumes "distinct (concat (map f ds))" "\<And>d. g d \<in> set (f d)"
  shows "distinct (map g ds)"
  using assms(1)
proof (induction ds)
  case Nil
  then show ?case by simp
next
  case (Cons d ds)
  then have dj: "set (f d) \<inter> set (concat (map f ds)) = {}" and r: "distinct (concat (map f ds))"
    by simp_all
  have "g d \<notin> g ` set ds"
  proof
    assume "g d \<in> g ` set ds"
    then obtain d' where d': "d' \<in> set ds" "g d = g d'" by auto
    from d'(1) assms(2) [of d'] have "g d' \<in> set (concat (map f ds))" by auto
    with dj assms(2) [of d] d'(2) show False by auto
  qed
  with Cons.IH [OF r] show ?case by simp
qed

lemma distinct_concat_other:
  assumes "distinct (concat (map f ds))" "d \<in> set ds" "d' \<in> set ds"
    and "x \<in> set (f d)" "y \<in> set (f d')" "x = y"
  shows "f d' = f d"
  using assms(1-5)
proof (induction ds)
  case Nil
  then show ?case by simp
next
  case (Cons e ds)
  then have dj: "set (f e) \<inter> set (concat (map f ds)) = {}" and r: "distinct (concat (map f ds))"
    by simp_all
  show ?case
  proof (cases "d = e")
    case True
    show ?thesis
    proof (cases "d' = e")
      case True
      with \<open>d = e\<close> show ?thesis by auto
    next
      case False
      with Cons.prems(3) have "d' \<in> set ds" by simp
      with Cons.prems(5) have "y \<in> set (concat (map f ds))" by auto
      with dj Cons.prems(4) True assms(6) show ?thesis by auto
    qed
  next
    case False
    with Cons.prems(2) have d: "d \<in> set ds" by simp
    show ?thesis
    proof (cases "d' = e")
      case True
      from d Cons.prems(4) have "x \<in> set (concat (map f ds))" by auto
      with dj Cons.prems(5) True assms(6) show ?thesis by auto
    next
      case False
      with Cons.prems(3) have "d' \<in> set ds" by simp
      from Cons.IH [OF r d this Cons.prems(4,5)] show ?thesis .
    qed
  qed
qed

lemma merge_build_cong:
  assumes "map gd_nodes ds = map gd_nodes ds'" "map gd_targets ds = map gd_targets ds'"
    and "map gd_set_mask ds = map gd_set_mask ds'" "map gd_output_mask ds = map gd_output_mask ds'"
    and "map gd_sample_weights ds = map gd_sample_weights ds'"
    and "map gd_nodegraph ds = map gd_nodegraph ds'"
  shows "merge_build a ds pb mode = merge_build a ds' pb mode"
  unfolding merge_build_def assms ..

lemma store_graph_read:
  assumes "store_graph h g = (h3, r)"
  shows "graph_at h3 r = g"
proof -
  from assms have h3: "h3 = h @ [MatCell (nodes g), ArcsCell (arcs g), MatCell (targets g), RealCell (sample_weights g),
           BoolCell (set_mask g), BoolCell (output_mask g), CooCell (ArcNode g),
           CooCell (Adjacency g), CooCell (NodeGraph g)]"
    and r: "r = \<lparr>r_nodes = length h, r_arcs = length h + 1, r_targets = length h + 2,
       r_sample_weights = length h + 3, r_set_mask = length h + 4, r_output_mask = length h + 5,
       r_aggregation_mode = aggregation_mode g, r_ArcNode = length h + 6,
       r_Adjacency = length h + 7, r_NodeGraph = length h + 8\<rparr>"
    by (simp_all add: store_graph_def)
  show ?thesis
    by (simp add: graph_at_def r h3 nth_append mat_at_def arcs_at_def bools_at_def reals_at_def
        coo_at_def)
qed

lemma other_addr_not_arcs:
  assumes dc: "distinct (concat (map data_addrs ds))" and d: "d \<in> set ds" and d': "d' \<in> set ds"
  shows "dr_nodes d \<noteq> dr_arcs d'" and "dr_targets d \<noteq> dr_arcs d'"
    and "dr_set_mask d \<noteq> dr_arcs d'" and "dr_output_mask d \<noteq> dr_arcs d'"
    and "dr_sample_weights d \<noteq> dr_arcs d'" and "dr_nodegraph d \<noteq> dr_arcs d'"
proof -
  from dc d have dd: "distinct (data_addrs d)"
    by (auto simp: distinct_concat_iff)
  have same: "dr_arcs d' = dr_arcs d" if "x \<in> set (data_addrs d)" "x = dr_arcs d'" for x
  proof -
    have "dr_arcs d' \<in> set (data_addrs d')" by (simp add: data_addrs_def)
    from distinct_concat_other [OF dc d d' that(1) this that(2)]
    show ?thesis by (simp add: data_addrs_def)
  qed
  show "dr_nodes d \<noteq> dr_arcs d'"
    using same [of "dr_nodes d"] dd by (auto simp: data_addrs_def)
  show "dr_targets d \<noteq> dr_arcs d'"
    using same [of "dr_targets d"] dd by (auto simp: data_addrs_def)
  show "dr_set_mask d \<noteq> dr_arcs d'"
    using same [of "dr_set_mask d"] dd by (auto simp: data_addrs_def)
  show "dr_output_mask d \<noteq> dr_arcs d'"
    using same [of "dr_output_mask d"] dd by (auto simp: data_addrs_def)
  show "dr_sample_weights d \<noteq> dr_arcs d'"
    using same [of "dr_sample_weights d"] dd by (auto simp: data_addrs_def)
  show "dr_nodegraph d \<noteq> dr_arcs d'"
    using same [of "dr_nodegraph d"] dd by (auto simp: data_addrs_def)
qed

lemma shift_loop_reads:
  assumes ad: "concat (map data_addrs ds) = [b..<length h1]"
  defines "h2 \<equiv> shift_loop h1 (map dr_nodes_len ds) (enumerate 0 (map dr_arcs ds))"
  shows "map (\<lambda>d. arcs_at h2 (dr_arcs d)) ds
         = shift_all (map dr_nodes_len ds) (map (\<lambda>d. arcs_at h1 (dr_arcs d)) ds)"
    and "map (\<lambda>d. mat_at h2 (dr_nodes d)) ds = map (\<lambda>d. mat_at h1 (dr_nodes d)) ds"
    and "map (\<lambda>d. mat_at h2 (dr_targets d)) ds = map (\<lambda>d. mat_at h1 (dr_targets d)) ds"
    and "map (\<lambda>d. bools_at h2 (dr_set_mask d)) ds = map (\<lambda>d. bools_at h1 (dr_set_mask d)) ds"
    and "map (\<lambda>d. bools_at h2 (dr_output_mask d)) ds = map (\<lambda>d. bools_at h1 (dr_output_mask d)) ds"
    and "map (\<lambda>d. reals_at h2 (dr_sample_weights d)) ds = map (\<lambda>d. reals_at h1 (dr_sample_weights d)) ds"
    and "map (\<lambda>d. coo_at h2 (dr_nodegraph d)) ds = map (\<lambda>d. coo_at h1 (dr_nodegraph d)) ds"
proof -
  let ?ps = "enumerate 0 (map dr_arcs ds)"
  let ?lens = "map dr_nodes_len ds"
  from ad have dc: "distinct (concat (map data_addrs ds))" by simp
  have "distinct (map dr_arcs ds)"
    by (rule distinct_concat_pick [OF dc]) (simp add: data_addrs_def)
  then have dp: "distinct (map snd ?ps)" by simp
  have bound: "dr_arcs d < length h1" if "d \<in> set ds" for d
  proof -
    from that have "dr_arcs d \<in> set (concat (map data_addrs ds))"
      by (auto simp: data_addrs_def)
    then show ?thesis unfolding ad by simp
  qed
  then have lp: "list_all (\<lambda>(i, a). a < length h1) ?ps"
    by (auto simp: list_all_iff in_set_enumerate_eq)
  note sl = shift_loop_nth [OF dp lp, where lens = ?lens, folded h2_def]
  have keep: "h2 ! a = h1 ! a" if "\<And>d'. d' \<in> set ds \<Longrightarrow> a \<noteq> dr_arcs d'" for a
  proof (rule sl(3))
    show "a \<notin> snd ` set ?ps"
    proof
      assume "a \<in> snd ` set ?ps"
      then obtain j where "j < length ds" "a = dr_arcs (ds ! j)"
        by (auto simp: in_set_enumerate_eq)
      with that [of "ds ! j"] show False by simp
    qed
  qed
  show "map (\<lambda>d. arcs_at h2 (dr_arcs d)) ds
         = shift_all ?lens (map (\<lambda>d. arcs_at h1 (dr_arcs d)) ds)"
  proof (rule nth_equalityI)
    show "length (map (\<lambda>d. arcs_at h2 (dr_arcs d)) ds)
        = length (shift_all ?lens (map (\<lambda>d. arcs_at h1 (dr_arcs d)) ds))"
      by (simp add: shift_all_def)
  next
    fix j assume "j < length (map (\<lambda>d. arcs_at h2 (dr_arcs d)) ds)"
    then have j: "j < length ds" by simp
    then have "(j, dr_arcs (ds ! j)) \<in> set ?ps"
      by (simp add: in_set_enumerate_eq)
    from sl(2) [OF this] j
    show "map (\<lambda>d. arcs_at h2 (dr_arcs d)) ds ! j
        = shift_all ?lens (map (\<lambda>d. arcs_at h1 (dr_arcs d)) ds) ! j"
      by (simp add: shift_all_def nth_enumerate_eq arcs_at_def)
  qed
  show "map (\<lambda>d. mat_at h2 (dr_nodes d)) ds = map (\<lambda>d. mat_at h1 (dr_nodes d)) ds"
    using keep other_addr_not_arcs(1) [OF dc] by (simp add: mat_at_def)
  show "map (\<lambda>d. mat_at h2 (dr_targets d)) ds = map (\<lambda>d. mat_at h1 (dr_targets d)) ds"
    using keep other_addr_not_arcs(2) [OF dc] by (simp add: mat_at_def)
  show "map (\<lambda>d. bools_at h2 (dr_set_mask d)) ds = map (\<lambda>d. bools_at h1 (dr_set_mask d)) ds"
    using keep other_addr_not_arcs(3) [OF dc] by (simp add: bools_at_def)
  show "map (\<lambda>d. bools_at h2 (dr_output_mask d)) ds = map (\<lambda>d. bools_at h1 (dr_output_mask d)) ds"
    using keep other_addr_not_arcs(4) [OF dc] by (simp add: bools_at_def)
  show "map (\<lambda>d. reals_at h2 (dr_sample_weights d)) ds = map (\<lambda>d. reals_at h1 (dr_sample_weights d)) ds"
    using keep other_addr_not_arcs(5) [OF dc] by (simp add: reals_at_def)
  show "map (\<lambda>d. coo_at h2 (dr_nodegraph d)) ds = map (\<lambda>d. coo_at h1 (dr_nodegraph d)) ds"
    using keep other_addr_not_arcs(6) [OF dc] by (simp add: coo_at_def)
qed

lemma item_at_Other: "list_ex (\<lambda>x. x = Other) (map (item_at h) glist) = list_ex (\<lambda>x. x = OtherAt) glist"
proof -
  have "(item_at h x = Other) = (x = OtherAt)" for x by (cases x) simp_all
  then show ?thesis by (induction glist) simp_all
qed

text \<open>
  The store model computes what the model on values computes: the graph that the returned
  reference denotes is the graph \<open>merge\<close> returns for the graphs the inputs denote, and
  the two raise the same exceptions.
\<close>

lemma merge_store_refines:
  assumes v: "list_all (item_in h) glist" and m: "merge_store h glist pb mode = (res, h')"
  shows "(case res of Inl e \<Rightarrow> Inl e | Inr r \<Rightarrow> Inr (graph_at h' r))
       = merge (map (item_at h) glist) pb mode"
proof (cases "list_ex (\<lambda>x. x = OtherAt) glist")
  case True
  with m show ?thesis by (auto simp: merge_store_def merge_def item_at_Other)
next
  case False
  obtain r1 h1 where g: "get_data_store h glist = (r1, h1)"
    by (cases "get_data_store h glist") auto
  note gr = get_data_store_refines [OF prefix_order.refl v g]
  show ?thesis
  proof (cases r1)
    case (Inl e)
    with m False g gr(2) [OF Inl] show ?thesis
      by (auto simp: merge_store_def merge_def item_at_Other)
  next
    case (Inr ds)
    from gr(3) [OF Inr] have pd: "get_data (map (item_at h) glist) = Inr (map (read_data h1) ds)"
      and ad: "concat (map data_addrs ds) = [length h..<length h1]" by simp_all
    show ?thesis
    proof (cases "ds = []")
      case True
      with m False g Inr pd show ?thesis
        by (auto simp: merge_store_def merge_def item_at_Other)
    next
      case ne: False
      let ?h2 = "shift_loop h1 (map dr_nodes_len ds) (enumerate 0 (map dr_arcs ds))"
      note rd = shift_loop_reads [OF ad]
      have arcs_eq: "map (\<lambda>d. arcs_at ?h2 (dr_arcs d)) ds
          = shift_all (map gd_nodes_len (map (read_data h1) ds)) (map gd_arcs (map (read_data h1) ds))"
        using rd(1) by (simp add: read_data_def comp_def)
      have b_eq: "merge_build a (map (read_data ?h2) ds) pb mode
          = merge_build a (map (read_data h1) ds) pb mode" for a
        by (rule merge_build_cong) (simp_all add: read_data_def comp_def rd)
      let ?b = "merge_build (map (\<lambda>d. arcs_at ?h2 (dr_arcs d)) ds) (map (read_data ?h2) ds) pb mode"
      have pure: "merge (map (item_at h) glist) pb mode = ?b"
        using False pd ne by (simp add: merge_def item_at_Other arcs_eq b_eq)
      show ?thesis
      proof (cases ?b)
        case (Inl e)
        with m False g Inr ne have "res = Inl e"
          by (auto simp: merge_store_def Let_def)
        with pure Inl show ?thesis by simp
      next
        case b: (Inr g')
        obtain h3 r where sg: "store_graph ?h2 g' = (h3, r)"
          by (cases "store_graph ?h2 g'") auto
        with m False g Inr ne b have "res = Inr r" "h' = h3"
          by (auto simp: merge_store_def Let_def)
        with store_graph_read [OF sg] pure b show ?thesis by simp
      qed
    qed
  qed
qed

lemma store0_refs:
  "ref_in store0 ref3" "ref_in store0 ref2"
  "graph_at store0 ref3 = graph3 ''sum''" "graph_at store0 ref2 = graph2"
proof -
  obtain h3 r3 where s3: "store_graph [] (graph3 ''sum'') = (h3, r3)"
    by (cases "store_graph [] (graph3 ''sum'')") auto
  obtain h2 r2 where s2: "store_graph h3 graph2 = (h2, r2)"
    by (cases "store_graph h3 graph2") auto
  have e: "store0 = h2" "ref3 = r3" "ref2 = r2"
    by (simp_all add: store0_def ref3_def ref2_def s3 s2)
  from s3 have i3: "ref_in h3 r3" by (auto simp: store_graph_def ref_in_def)
  from s2 have p: "prefix h3 h2" by (auto simp: store_graph_def)
  from s2 show "ref_in store0 ref2" unfolding e by (auto simp: store_graph_def ref_in_def)
  from ref_in_prefix [OF p i3] show "ref_in store0 ref3" unfolding e .
  from graph_at_prefix [OF p i3] store_graph_read [OF s3]
  show "graph_at store0 ref3 = graph3 ''sum''" unfolding e by simp
  from store_graph_read [OF s2] show "graph_at store0 ref2 = graph2" unfolding e .
qed

theorem merge_leaves_inputs_unchanged_witness:
  "ref_in store0 ref3 \<and> ref_in store0 ref2
   \<and> prefix store0 (snd (merge_store store0 [GraphAt ref3, GraphAt ref2] ''n'' ''sum''))
   \<and> graph_at (snd (merge_store store0 [GraphAt ref3, GraphAt ref2] ''n'' ''sum'')) ref3
       = graph3 ''sum''
   \<and> graph_at (snd (merge_store store0 [GraphAt ref3, GraphAt ref2] ''n'' ''sum'')) ref2
       = graph2
   \<and> (\<exists>r. fst (merge_store store0 [GraphAt ref3, GraphAt ref2] ''n'' ''sum'') = Inr r)"
proof -
  let ?m = "merge_store store0 [GraphAt ref3, GraphAt ref2] ''n'' ''sum''"
  have m: "?m = (fst ?m, snd ?m)" by simp
  from merge_leaves_inputs_unchanged [OF m]
  have p: "prefix store0 (snd ?m)"
    and u: "\<And>r. GraphAt r \<in> set [GraphAt ref3, GraphAt ref2] \<Longrightarrow> ref_in store0 r
              \<Longrightarrow> graph_at (snd ?m) r = graph_at store0 r"
    by blast+
  from u [of ref3] u [of ref2] store0_refs
  have k: "graph_at (snd ?m) ref3 = graph3 ''sum''" "graph_at (snd ?m) ref2 = graph2"
    by simp_all
  have "\<exists>g. merge [Graph (graph3 ''sum''), Graph graph2] ''n'' ''sum'' = Inr g"
    by (rule merge_two_succeeds [OF graph3_wf graph2_wf])
       (simp_all add: same_width_def graph3_def graph2_def nodes3_def nodes2_def arcs3_def
          arcs2_def targets3_def targets2_def)
  then obtain g where g: "merge [Graph (graph3 ''sum''), Graph graph2] ''n'' ''sum'' = Inr g" ..
  have "list_all (item_in store0) [GraphAt ref3, GraphAt ref2]"
    by (simp add: store0_refs)
  from merge_store_refines [OF this m] g store0_refs(3,4)
  have "(case fst ?m of Inl e \<Rightarrow> Inl e | Inr r \<Rightarrow> Inr (graph_at (snd ?m) r)) = Inr g"
    by simp
  then have "\<exists>r. fst ?m = Inr r" by (cases "fst ?m") simp_all
  with store0_refs(1,2) p k show ?thesis by simp
qed

text \<open>
  The copies matter: the same loop run on the address of an input's own \<open>arcs\<close> array
  changes that input.
\<close>

lemma shift_without_copy_changes_input:
  "arcs (graph_at (shift_loop store0 [3] [(1, r_arcs ref2)]) ref2) = map (shift_arc 3) arcs2"
proof -
  have a: "r_arcs ref2 = 10" "ref2 = snd (store_graph (fst (store_graph [] (graph3 ''sum''))) graph2)"
    by (simp_all add: ref2_def store_graph_def)
  have l: "length store0 = 18"
    by (simp add: store0_def store_graph_def)
  have c: "store0 ! 10 = ArcsCell arcs2"
    by (simp add: store0_def store_graph_def graph2_def nth_append)
  show ?thesis
    by (simp add: graph_at_def arcs_at_def a(1) l c)
qed

end
